(* ===== verification/Prelude.thy ===== *)
theory Prelude
  imports Main "HOL-Library.Sublist"
begin

text \<open>
  Shared vocabulary of the development: the collections of facts the component
  theories add to, the type names of the model, the Python exceptions that can
  escape \<open>Submit.run\<close> and \<open>main\<close> in \<open>src/sources/script/sub.py\<close>, Python's list
  indexing with negative indices, and generic lemmas on lists and maps that the
  component proofs share.
\<close>

section \<open>Fact collections\<close>

text \<open>
  \<open>model_defs\<close> collects the definitions of the straight-line parts of the model
  (unfolded when a scenario is evaluated); \<open>world_simps\<close> collects the frame
  lemmas of the world operations (what an operation leaves unchanged).
\<close>

named_theorems model_defs "definitions of the model unfolded by evaluation"
named_theorems world_simps "frame lemmas of the operations on the world"

section \<open>Names of the model's types\<close>

type_synonym path = string
type_synonym job_id = string
type_synonym contents = string

abbreviation NL :: string where "NL \<equiv> [CHR 0x0A]"
abbreviation CR :: string where "CR \<equiv> [CHR 0x0D]"

section \<open>Python exceptions\<close>

text \<open>
  The exceptions that can leave \<open>Submit.run\<close>: \<open>IndexError\<close> (indexing a token
  list of a queue line past its start), \<open>UnboundLocalError\<close> (reading the local
  \<open>process_id\<close> on the path where it was never assigned), \<open>IOError\<close> (opening or
  moving a file that is not there), \<open>OSError\<close> (a failed system call, with its
  errno), \<open>ShutilError\<close> (\<open>shutil.move\<close> refusing to overwrite), \<open>FormatError\<close>
  (\<open>str.format\<close> rejecting a brace in its format string: Python's \<open>ValueError\<close>,
  \<open>KeyError\<close> and \<open>IndexError\<close> of \<open>format\<close>, collapsed into one). \<open>KeyboardInterrupt\<close> is not here: it is caught inside \<open>run\<close> and
  modelled as an event of the world. The module-level configuration (lines 13--16)
  adds \<open>AttributeError\<close> (\<open>os.path.join\<close> of an unset \<open>HOME\<close>), \<open>ValueError\<close>
  (the \<open>%\<close> operator on a bad format) and the exceptions of \<open>ConfigParser\<close>:
  \<open>NoSectionError\<close>, \<open>NoOptionError\<close> (option, section),
  \<open>MissingSectionHeaderError\<close> (file, line number, line), \<open>ParsingError\<close> (file,
  the numbered bad lines, kept as the lines where Python keeps their \<open>repr\<close>), \<open>InterpolationMissingOptionError\<close> (option, section,
  raw value, missing key) and \<open>InterpolationDepthError\<close> (option, section, raw
  value).
\<close>

datatype py_exc =
    IndexError
  | UnboundLocalError string
  | IOError string
  | OSError nat
  | ShutilError string
  | FormatError
  | AttributeError string
  | ValueError
  | NoSectionError string
  | NoOptionError string string
  | MissingSectionHeaderError string nat string
  | ParsingError string "(nat \<times> string) list"
  | InterpolationMissingOptionError string string string string
  | InterpolationDepthError string string string

text \<open>
  \<open>xs[i]\<close> in Python: a negative index counts from the end; out of range raises
  \<open>IndexError\<close>.
\<close>

definition py_index :: "'a list \<Rightarrow> int \<Rightarrow> py_exc + 'a" where
  "py_index xs i =
     (if i < 0 then
        (if nat (- i) \<le> length xs then Inr (xs ! (length xs - nat (- i))) else Inl IndexError)
      else if nat i < length xs then Inr (xs ! nat i) else Inl IndexError)"

text \<open>Python 2 orders \<open>None\<close> below every number: \<open>v > k\<close> for a value that may be
  \<open>None\<close>.\<close>

definition py_opt_gt :: "int option \<Rightarrow> int \<Rightarrow> bool" where
  "py_opt_gt v k = (case v of None \<Rightarrow> False | Some n \<Rightarrow> k < n)"

section \<open>Generic lemmas\<close>

lemma py_index_neg_ok:
  assumes "0 < k" and "k \<le> length xs"
  shows "py_index xs (- int k) = Inr (xs ! (length xs - k))"
  using assms by (simp add: py_index_def)

lemma py_index_neg_short:
  "length xs < k \<Longrightarrow> py_index xs (- int k) = Inl IndexError"
  by (simp add: py_index_def)

lemma py_index_Inr_neg:
  "0 < k \<Longrightarrow> py_index xs (- int k) = Inr v \<Longrightarrow> k \<le> length xs \<and> v = xs ! (length xs - k)"
  by (cases "k \<le> length xs") (simp_all add: py_index_neg_ok py_index_neg_short)

lemma map_add_dom_mono:
  "x \<in> dom m \<Longrightarrow> x \<in> dom (m ++ n)"
  by auto

lemma last_filter:
  "filter P xs \<noteq> [] \<Longrightarrow> last (filter P xs) \<in> set xs \<and> P (last (filter P xs))"
proof -
  assume "filter P xs \<noteq> []"
  then have "last (filter P xs) \<in> set (filter P xs)" by (rule last_in_set)
  then show ?thesis by simp
qed

end
