(* ===== verification/Py_Str.thy ===== *)
theory Py_Str
  imports Prelude
begin

text \<open>
  The Python 2 string operations that \<open>sub.py\<close> applies to command output and to the
  job-script template: \<open>str.strip\<close>, \<open>str.split\<close> on one character,
  \<open>str.join\<close>, \<open>str.find\<close>, \<open>str.replace\<close>, \<open>str(int)\<close> and \<open>os.path.join\<close>.
  They are library functions, modelled from their documented behaviour on byte
  strings (\<open>string\<close> is a list of bytes). Each comes with the laws the component
  proofs use: split and join are inverse, \<open>find\<close> answers the substring question
  and returns the first position, \<open>replace\<close> rewrites exactly the occurrences.
\<close>

section \<open>strip\<close>

definition is_py_space :: "char \<Rightarrow> bool" where
  "is_py_space c \<longleftrightarrow>
     c \<in> set [CHR '' '', CHR 0x09, CHR 0x0A, CHR 0x0B, CHR 0x0C, CHR 0x0D]"

definition py_strip :: "string \<Rightarrow> string" where
  "py_strip s = rev (dropWhile is_py_space (rev (dropWhile is_py_space s)))"

section \<open>split and join on one character\<close>

text \<open>\<open>s.split(c)\<close> for a one-character separator: never empty, \<open>''.split(c) = ['']\<close>.\<close>

fun split_on :: "char \<Rightarrow> string \<Rightarrow> string list" where
  "split_on c [] = [[]]"
| "split_on c (x # xs) =
     (if x = c then [] # split_on c xs
      else (case split_on c xs of [] \<Rightarrow> [[x]] | p # ps \<Rightarrow> (x # p) # ps))"

fun py_join :: "string \<Rightarrow> string list \<Rightarrow> string" where
  "py_join sep [] = []"
| "py_join sep [x] = x"
| "py_join sep (x # y # ys) = x @ sep @ py_join sep (y # ys)"

text \<open>\<open>[t for t in line.split(" ") if t]\<close>: the non-empty space-separated fields.\<close>

definition py_tokens :: "string \<Rightarrow> string list" where
  "py_tokens line = filter (\<lambda>t. t \<noteq> []) (split_on CHR '' '' line)"

section \<open>find\<close>

fun starts_with :: "string \<Rightarrow> string \<Rightarrow> bool" where
  "starts_with [] s = True"
| "starts_with (a # as) [] = False"
| "starts_with (a # as) (b # bs) = (a = b \<and> starts_with as bs)"

fun find_from :: "string \<Rightarrow> string \<Rightarrow> nat \<Rightarrow> int" where
  "find_from sub [] i = (if sub = [] then int i else -1)"
| "find_from sub (c # cs) i = (if starts_with sub (c # cs) then int i else find_from sub cs (Suc i))"

text \<open>\<open>s.find(sub)\<close>: the first index at which \<open>sub\<close> occurs, \<open>-1\<close> if none.\<close>

definition py_find :: "string \<Rightarrow> string \<Rightarrow> int" where
  "py_find s sub = find_from sub s 0"

section \<open>replace\<close>

function replace_occ :: "string \<Rightarrow> string \<Rightarrow> string \<Rightarrow> string" where
  "replace_occ old new [] = []"
| "replace_occ old new (c # cs) =
     (if old \<noteq> [] \<and> starts_with old (c # cs)
      then new @ replace_occ old new (drop (length old) (c # cs))
      else c # replace_occ old new cs)"
  by pat_completeness auto
termination
  by (relation "measure (\<lambda>(old, new, s). length s)") auto

text \<open>\<open>s.replace(old, new)\<close>: left-to-right, non-overlapping; an empty \<open>old\<close> inserts
  \<open>new\<close> around every character.\<close>

definition py_replace :: "string \<Rightarrow> string \<Rightarrow> string \<Rightarrow> string" where
  "py_replace s old new =
     (if old = [] then concat (map (\<lambda>c. new @ [c]) s) @ new else replace_occ old new s)"

section \<open>str of an integer\<close>

fun nat_digits :: "nat \<Rightarrow> string" where
  "nat_digits n =
     (if n < 10 then [char_of (48 + n)] else nat_digits (n div 10) @ [char_of (48 + n mod 10)])"

declare nat_digits.simps [simp del]

definition py_str_int :: "int \<Rightarrow> string" where
  "py_str_int i = (if i < 0 then CHR ''-'' # nat_digits (nat (- i)) else nat_digits (nat i))"

text \<open>\<open>str(v)\<close> for an \<open>int\<close> that may be \<open>None\<close>.\<close>

definition py_str_opt :: "int option \<Rightarrow> string" where
  "py_str_opt v = (case v of None \<Rightarrow> ''None'' | Some n \<Rightarrow> py_str_int n)"

text \<open>The decimal reading of a digit string, the inverse used to show that \<open>str\<close> is
  injective on naturals, and the digits of Python's \<open>int()\<close>.\<close>

fun parse_digits :: "nat \<Rightarrow> string \<Rightarrow> nat option" where
  "parse_digits acc [] = Some acc"
| "parse_digits acc (c # cs) =
     (if (48::nat) \<le> of_char c \<and> (of_char c :: nat) < 58
      then parse_digits (10 * acc + (of_char c - 48)) cs else None)"

section \<open>format\<close>

text \<open>
  \<open>fmt.format(*args)\<close> for the replacement fields \<open>sub.py\<close> uses: \<open>{{\<close> and
  \<open>}}\<close> are escaped braces, \<open>{n}\<close> is the \<open>n\<close>-th argument (\<open>IndexError\<close>
  past the end), \<open>{}\<close> numbers automatically; switching between the two numberings,
  a lone \<open>}\<close>, an unclosed \<open>{\<close> and every other field (a name, an attribute, a
  conversion or a format spec) are the errors of \<open>format\<close>, here \<open>FormatError\<close>.
\<close>

datatype fmt_mode = FUnset | FAuto nat | FManual

definition field_index :: "fmt_mode \<Rightarrow> string \<Rightarrow> py_exc + nat \<times> fmt_mode" where
  "field_index m name =
     (if name = [] then
        (case m of FManual \<Rightarrow> Inl FormatError | FUnset \<Rightarrow> Inr (0, FAuto 1)
         | FAuto k \<Rightarrow> Inr (k, FAuto (Suc k)))
      else (case parse_digits 0 name of
              None \<Rightarrow> Inl FormatError
            | Some n \<Rightarrow> (case m of FAuto k \<Rightarrow> Inl FormatError | _ \<Rightarrow> Inr (n, FManual))))"

function fmt :: "string list \<Rightarrow> fmt_mode \<Rightarrow> string \<Rightarrow> py_exc + string" where
  "fmt args m [] = Inr []"
| "fmt args m (c # cs) =
     (if c = CHR ''{'' \<and> cs \<noteq> [] \<and> hd cs = CHR ''{'' then map_sum id (Cons c) (fmt args m (tl cs))
      else if c = CHR ''{'' then
        (let name = takeWhile (\<lambda>x. x \<noteq> CHR ''}'') cs;
             rest = dropWhile (\<lambda>x. x \<noteq> CHR ''}'') cs
         in if rest = [] then Inl FormatError
            else (case field_index m name of
                    Inl e \<Rightarrow> Inl e
                  | Inr (i, m') \<Rightarrow>
                      (case py_index args (int i) of
                         Inl e \<Rightarrow> Inl e
                       | Inr a \<Rightarrow> map_sum id ((@) a) (fmt args m' (tl rest)))))
      else if c = CHR ''}'' \<and> cs \<noteq> [] \<and> hd cs = CHR ''}'' then map_sum id (Cons c) (fmt args m (tl cs))
      else if c = CHR ''}'' then Inl FormatError
      else map_sum id (Cons c) (fmt args m cs))"
  by pat_completeness auto
termination
proof (relation "measure (\<lambda>(args, m, s). length s)")
  fix args m c cs name rest
  assume "rest = dropWhile (\<lambda>x. x \<noteq> CHR ''}'') cs"
  then have "length rest \<le> length cs" by (simp add: length_dropWhile_le)
  then show "((args, m', tl rest), args, m, c # cs) \<in> measure (\<lambda>(args, m, s). length s)" for m'
    by simp
qed auto

definition py_format :: "string \<Rightarrow> string list \<Rightarrow> py_exc + string" where
  "py_format s args = fmt args FUnset s"

text \<open>A string in which \<open>format\<close> sees no field.\<close>

definition brace_free :: "string \<Rightarrow> bool" where
  "brace_free t \<longleftrightarrow> CHR ''{'' \<notin> set t \<and> CHR ''}'' \<notin> set t"

section \<open>os.path\<close>

text \<open>\<open>os.path.join(a, b)\<close> on POSIX: an absolute \<open>b\<close> wins; otherwise one slash
  is inserted unless \<open>a\<close> is empty or ends in one.\<close>

definition path_join :: "path \<Rightarrow> path \<Rightarrow> path" where
  "path_join a b =
     (if b \<noteq> [] \<and> hd b = CHR ''/'' then b
      else if a = [] \<or> last a = CHR ''/'' then a @ b else a @ CHR ''/'' # b)"

definition basename :: "path \<Rightarrow> path" where
  "basename p = rev (takeWhile (\<lambda>c. c \<noteq> CHR ''/'') (rev p))"

section \<open>Laws\<close>

subsection \<open>find answers the substring question\<close>

lemma starts_with_prefix: "starts_with sub s \<longleftrightarrow> prefix sub s"
  by (induction sub s rule: starts_with.induct) auto

lemma find_from_sublist: "find_from sub s i \<noteq> -1 \<longleftrightarrow> sublist sub s"
  by (induction sub s i rule: find_from.induct) (auto simp: starts_with_prefix sublist_Cons_right)

lemma find_from_index:
  "find_from sub s i = int j \<Longrightarrow> i \<le> j \<and> prefix sub (drop (j - i) s) \<and> (\<forall>k. i \<le> k \<and> k < j \<longrightarrow> \<not> prefix sub (drop (k - i) s))"
proof (induction sub s i arbitrary: j rule: find_from.induct)
  case (1 sub i)
  then show ?case by (auto split: if_splits)
next
  case (2 sub c cs i)
  show ?case
  proof (cases "starts_with sub (c # cs)")
    case True
    with "2.prems" show ?thesis by (auto simp: starts_with_prefix)
  next
    case False
    with "2.prems" have "find_from sub cs (Suc i) = int j" by simp
    with False "2.IH" have ih: "Suc i \<le> j \<and> prefix sub (drop (j - Suc i) cs) \<and>
        (\<forall>k. Suc i \<le> k \<and> k < j \<longrightarrow> \<not> prefix sub (drop (k - Suc i) cs))" by simp
    then have "j - i = Suc (j - Suc i)" by arith
    then have "drop (j - i) (c # cs) = drop (j - Suc i) cs" by simp
    moreover have "\<not> prefix sub (drop (k - i) (c # cs))" if "i \<le> k" "k < j" for k
    proof (cases "k = i")
      case True
      with False show ?thesis by (simp add: starts_with_prefix)
    next
      case False
      with that ih have "\<not> prefix sub (drop (k - Suc i) cs)" by simp
      moreover have "k - i = Suc (k - Suc i)" using that False by arith
      then have "drop (k - i) (c # cs) = drop (k - Suc i) cs" by simp
      ultimately show ?thesis by simp
    qed
    ultimately show ?thesis using ih by auto
  qed
qed

subsection \<open>split and join\<close>

lemma split_on_not_Nil [simp]: "split_on c s \<noteq> []"
  by (induction s) (auto split: list.splits)

lemma py_join_split_on: "py_join [c] (split_on c s) = s"
proof (induction s)
  case Nil
  then show ?case by simp
next
  case (Cons x xs)
  obtain p ps where sp: "split_on c xs = p # ps"
    by (cases "split_on c xs") auto
  have join_cons: "py_join sep ((x # q) # qs) = x # py_join sep (q # qs)" for sep q qs
    by (cases qs) simp_all
  show ?case
  proof (cases "x = c")
    case True
    with Cons.IH sp show ?thesis by simp
  next
    case False
    with Cons.IH sp join_cons show ?thesis by simp
  qed
qed

lemma split_on_no_sep: "p \<in> set (split_on c s) \<Longrightarrow> c \<notin> set p"
  by (induction s arbitrary: p) (auto split: list.splits if_splits)

lemma split_on_no_sep_self: "c \<notin> set s \<Longrightarrow> split_on c s = [s]"
  by (induction s) auto

lemma split_on_append_sep:
  "c \<notin> set x \<Longrightarrow> split_on c (x @ c # rest) = x # split_on c rest"
proof (induction x)
  case Nil
  then show ?case by simp
next
  case (Cons a x)
  then show ?case by auto
qed

lemma split_on_py_join:
  "ps \<noteq> [] \<Longrightarrow> (\<forall>p \<in> set ps. c \<notin> set p) \<Longrightarrow> split_on c (py_join [c] ps) = ps"
proof (induction ps rule: induct_list012)
  case 1
  then show ?case by simp
next
  case (2 x)
  then show ?case by (simp add: split_on_no_sep_self)
next
  case (3 x y ys)
  then show ?case by (simp add: split_on_append_sep)
qed

lemma hd_split_on: "hd (split_on c s) = takeWhile (\<lambda>x. x \<noteq> c) s"
  by (induction s) (auto split: list.splits)

lemma py_tokens_nonempty: "t \<in> set (py_tokens line) \<Longrightarrow> t \<noteq> []"
  by (simp add: py_tokens_def)

lemma py_find_sublist: "py_find s sub \<noteq> -1 \<longleftrightarrow> sublist sub s"
  by (simp add: py_find_def find_from_sublist)

subsection \<open>str of a natural number\<close>

lemma parse_digits_append:
  "parse_digits acc (xs @ ys) = (case parse_digits acc xs of None \<Rightarrow> None | Some a \<Rightarrow> parse_digits a ys)"
  by (induction acc xs rule: parse_digits.induct) auto

lemma parse_nat_digits: "parse_digits 0 (nat_digits n) = Some n"
proof (induction n rule: nat_digits.induct)
  case (1 n)
  show ?case
  proof (cases "n < 10")
    case True
    then show ?thesis by (subst nat_digits.simps) (simp add: of_char_of)
  next
    case False
    have d: "of_char (char_of (48 + n mod 10)) = 48 + n mod 10"
      by (simp add: of_char_of)
    from False "1.IH" have "parse_digits 0 (nat_digits (n div 10)) = Some (n div 10)" by simp
    with False d show ?thesis
      by (subst nat_digits.simps) (simp add: parse_digits_append)
  qed
qed

lemma nat_digits_digits: "c \<in> set (nat_digits n) \<Longrightarrow> 48 \<le> (of_char c :: nat) \<and> (of_char c :: nat) < 58"
proof (induction n rule: nat_digits.induct)
  case (1 n)
  then show ?case
    by (cases "n < 10") (subst (asm) nat_digits.simps, auto simp: of_char_of)+
qed

lemma nat_digits_not_Nil: "nat_digits n \<noteq> []"
  by (subst nat_digits.simps) simp

lemma py_str_int_nat_inj:
  assumes "py_str_int (int i) = py_str_int (int j)"
  shows "i = j"
proof -
  from assms have "nat_digits i = nat_digits j" by (simp add: py_str_int_def)
  then have "parse_digits 0 (nat_digits i) = parse_digits 0 (nat_digits j)" by (rule arg_cong)
  then show ?thesis by (simp only: parse_nat_digits option.inject)
qed

lemma replace_occ_plain_prefix:
  "CHR ''%'' \<notin> set t \<Longrightarrow> hd old = CHR ''%'' \<Longrightarrow> replace_occ old new (t @ r) = t @ replace_occ old new r"
proof (induction t)
  case (Cons c t)
  then have "\<not> (old \<noteq> [] \<and> starts_with old (c # t @ r))" by (cases old) auto
  then have "replace_occ old new (c # t @ r) = c # replace_occ old new (t @ r)"
    by (simp only: replace_occ.simps(2) if_not_P if_False)
  with Cons show ?case by simp
qed simp

lemma replace_occ_old_prefix:
  "old \<noteq> [] \<Longrightarrow> replace_occ old new (old @ r) = new @ replace_occ old new r"
  by (cases old) (simp_all add: starts_with_prefix)

lemma prefix_snoc_sep:
  "c \<notin> set a \<Longrightarrow> c \<notin> set b \<Longrightarrow> prefix (a @ [c]) (b @ c # r) \<Longrightarrow> a = b"
proof (induction a arbitrary: b)
  case Nil
  then show ?case by (cases b) auto
next
  case (Cons x a)
  then show ?case by (cases b) auto
qed

subsection \<open>format\<close>

lemma fmt_plain_prefix:
  "CHR ''{'' \<notin> set p \<Longrightarrow> CHR ''}'' \<notin> set p \<Longrightarrow> fmt args m (p @ rest) = map_sum id ((@) p) (fmt args m rest)"
proof (induction p)
  case Nil
  then show ?case by (cases "fmt args m rest") simp_all
next
  case (Cons a p)
  then have a: "a \<noteq> CHR ''{''" "a \<noteq> CHR ''}''" by auto
  have "fmt args m ((a # p) @ rest) = map_sum id (Cons a) (fmt args m (p @ rest))"
    using a by simp
  with Cons show ?case by (cases "fmt args m rest") simp_all
qed

lemma fmt_brace_free_prefix:
  "brace_free p \<Longrightarrow> fmt args m (p @ rest) = map_sum id ((@) p) (fmt args m rest)"
  by (simp add: brace_free_def fmt_plain_prefix)

lemma basename_no_slash:
  assumes "CHR ''/'' \<notin> set f"
  shows "basename f = f"
proof -
  have "takeWhile (\<lambda>c. c \<noteq> CHR ''/'') (rev f) = rev f"
    by (rule takeWhile_eq_all_conv [THEN iffD2]) (use assms in auto)
  then show ?thesis unfolding basename_def by (simp only: rev_rev_ident)
qed

lemma fmt_errors: "fmt args m s = Inl e \<Longrightarrow> e = FormatError \<or> e = IndexError"
proof (induction args m s rule: fmt.induct)
  case (1 args m)
  then show ?case by simp
next
  case (2 args m c cs)
  then show ?case
    by (auto simp: Let_def field_index_def py_index_def map_sum_def
        split: if_splits sum.splits option.splits fmt_mode.splits prod.splits)
qed

end
