(* ===== verification/World.thy ===== *)
theory World
  imports Py_Str
begin

text \<open>
  The environment \<open>sub.py\<close> runs in, as one record threaded through every operation:
  the external commands (the compiler, \<open>qsub\<close>, \<open>qstat\<close>, \<open>qdel\<close>) answer from an
  oracle (the field \<open>respond\<close>) indexed by how many commands ran before, so a run of the program is a
  deterministic function of its world; the terminal is the list of printed chunks;
  the file system is a map of regular files and a set of directories; the batch job
  writes its output files while the program waits for them (\<open>writes k\<close> lands in the
  \<open>k\<close>-th slot of time: an existence check of the spin, or the settle delay after it); the user's Ctrl-C is the index of the status query
  before which it arrives. \<open>call_command\<close> is \<open>sub.py\<close>'s own wrapper of
  \<open>subprocess.Popen\<close>; the file operations model the Python library calls the
  program makes.
\<close>

section \<open>Command results and the world\<close>

record cmd_result =
  cr_command :: string
  ret_code :: int
  stdout :: string
  stderr :: string

record world =
  respond :: "nat \<Rightarrow> string \<Rightarrow> int \<times> string \<times> string"
  issued :: "string list"
  interrupt :: "nat option"
  files :: "path \<rightharpoonup> contents"
  dirs :: "path set"
  writes :: "nat \<Rightarrow> path \<rightharpoonup> contents"
  checks :: nat
  screen :: "string list"

section \<open>External commands\<close>

text \<open>\<open>call_command\<close>: run \<open>command\<close> in a shell and return it with its exit code and
  its captured standard output and error.\<close>

definition call_command :: "string \<Rightarrow> world \<Rightarrow> cmd_result \<times> world" where
  "call_command cmd w =
     (case respond w (length (issued w)) cmd of
        (rc, so, se) \<Rightarrow>
          (\<lparr>cr_command = cmd, ret_code = rc, stdout = so, stderr = se\<rparr>, w\<lparr>issued := issued w @ [cmd]\<rparr>))"

section \<open>The terminal\<close>

text \<open>\<open>print(s, end=e)\<close>; \<open>sys.stdout.flush()\<close> and the \<open>time.sleep(0.15)\<close> of the
  poll loop change nothing the model observes.\<close>

definition py_print :: "string \<Rightarrow> string \<Rightarrow> world \<Rightarrow> world" where
  "py_print s e w = w\<lparr>screen := screen w @ [s @ e]\<rparr>"

section \<open>The file system\<close>

definition os_path_exists :: "path \<Rightarrow> world \<Rightarrow> bool" where
  "os_path_exists p w \<longleftrightarrow> p \<in> dom (files w) \<or> p \<in> dirs w"

definition os_path_isfile :: "path \<Rightarrow> world \<Rightarrow> bool" where
  "os_path_isfile p w \<longleftrightarrow> p \<in> dom (files w)"

definition os_path_isdir :: "path \<Rightarrow> world \<Rightarrow> bool" where
  "os_path_isdir p w \<longleftrightarrow> p \<in> dirs w"

text \<open>\<open>os.mkdir\<close>: \<open>EEXIST\<close> (errno 17) when anything is already at the path.\<close>

definition os_mkdir :: "path \<Rightarrow> world \<Rightarrow> nat + world" where
  "os_mkdir p w = (if os_path_exists p w then Inl 17 else Inr (w\<lparr>dirs := insert p (dirs w)\<rparr>))"

text \<open>\<open>open(p).read()\<close> and \<open>open(p, "w").write(c)\<close>.\<close>

definition read_file :: "path \<Rightarrow> world \<Rightarrow> py_exc + contents" where
  "read_file p w = (case files w p of None \<Rightarrow> Inl (IOError p) | Some c \<Rightarrow> Inr c)"

definition write_file :: "path \<Rightarrow> contents \<Rightarrow> world \<Rightarrow> py_exc + world" where
  "write_file p c w = (if p \<in> dirs w then Inl (IOError p) else Inr (w\<lparr>files := (files w)(p \<mapsto> c)\<rparr>))"

text \<open>
  \<open>shutil.move(src, dst)\<close> of Python 2 for a regular file: into a directory \<open>dst\<close>
  it moves to \<open>dst/basename(src)\<close> and refuses when that exists; otherwise it
  renames, replacing a file at \<open>dst\<close>. A missing \<open>src\<close> fails in the copying
  fallback with \<open>IOError\<close>.
\<close>

definition shutil_move :: "path \<Rightarrow> path \<Rightarrow> world \<Rightarrow> py_exc + world" where
  "shutil_move src dst w =
     (let real_dst = (if dst \<in> dirs w then path_join dst (basename src) else dst) in
      if dst \<in> dirs w \<and> os_path_exists real_dst w then Inl (ShutilError real_dst)
      else (case files w src of
              None \<Rightarrow> Inl (IOError src)
            | Some c \<Rightarrow> Inr (w\<lparr>files := (files w)(src := None, real_dst \<mapsto> c)\<rparr>)))"

text \<open>One slot of time while the program waits for the output files (an existence check
  of the spin, or the \<open>time.sleep(1.5)\<close> after it): the files the job writes in it land.\<close>

definition land :: "world \<Rightarrow> world" where
  "land w = w\<lparr>files := files w ++ writes w (checks w), checks := Suc (checks w)\<rparr>"

section \<open>A world to start from\<close>

text \<open>No command run yet, nothing printed, the given files and directories; used to
  state concrete scenarios.\<close>

definition init_world ::
  "(nat \<Rightarrow> string \<Rightarrow> int \<times> string \<times> string) \<Rightarrow> nat option \<Rightarrow> (path \<rightharpoonup> contents) \<Rightarrow> path set \<Rightarrow>
   (nat \<Rightarrow> path \<rightharpoonup> contents) \<Rightarrow> world" where
  "init_world r i fs ds wr =
     \<lparr>respond = r, issued = [], interrupt = i, files = fs, dirs = ds, writes = wr, checks = 0,
      screen = []\<rparr>"

section \<open>The environment's own parts\<close>

text \<open>What the program never changes: the scheduler's answers, the user's Ctrl-C and
  the job's file writes.\<close>

definition env_frame :: "world \<Rightarrow> world \<Rightarrow> bool" where
  "env_frame w w' \<longleftrightarrow> respond w' = respond w \<and> interrupt w' = interrupt w \<and> writes w' = writes w"

section \<open>Frame lemmas\<close>

lemma call_command_world [world_simps]:
  "snd (call_command c w) = w\<lparr>issued := issued w @ [c]\<rparr>"
  by (simp add: call_command_def split: prod.splits)

lemma call_command_result [world_simps]:
  "fst (call_command c w) =
     (let (rc, so, se) = respond w (length (issued w)) c
      in \<lparr>cr_command = c, ret_code = rc, stdout = so, stderr = se\<rparr>)"
  by (simp add: call_command_def split: prod.splits)

lemma call_command_eq:
  "call_command c w = (r, w') \<longleftrightarrow>
     r = fst (call_command c w) \<and> w' = w\<lparr>issued := issued w @ [c]\<rparr>"
  by (metis call_command_world prod.collapse prod.inject)

lemma py_print_frame [world_simps]:
  "issued (py_print s e w) = issued w" "files (py_print s e w) = files w"
  "dirs (py_print s e w) = dirs w" "interrupt (py_print s e w) = interrupt w"
  "respond (py_print s e w) = respond w" "writes (py_print s e w) = writes w"
  "checks (py_print s e w) = checks w" "screen (py_print s e w) = screen w @ [s @ e]"
  by (simp_all add: py_print_def)

lemma os_mkdir_exists:
  "os_path_exists p w \<Longrightarrow> os_mkdir p w = Inl 17"
  by (simp add: os_mkdir_def)

lemma os_mkdir_created:
  "os_mkdir p w = Inr w' \<Longrightarrow> os_path_isdir p w' \<and> files w' = files w \<and> issued w' = issued w"
  by (auto simp: os_mkdir_def os_path_isdir_def split: if_splits)

lemma land_frame [world_simps]:
  "issued (land w) = issued w" "dirs (land w) = dirs w" "interrupt (land w) = interrupt w"
  "screen (land w) = screen w" "respond (land w) = respond w" "writes (land w) = writes w"
  by (simp_all add: land_def)

lemma land_keeps_files:
  "p \<in> dom (files w) \<Longrightarrow> p \<in> dom (files (land w))"
  by (auto simp: land_def)

lemma shutil_move_frame [world_simps]:
  "shutil_move src dst w = Inr w' \<Longrightarrow>
     issued w' = issued w \<and> dirs w' = dirs w \<and> screen w' = screen w \<and> interrupt w' = interrupt w"
  by (auto simp: shutil_move_def Let_def split: if_splits option.splits)

lemma shutil_move_missing:
  "files w src = None \<Longrightarrow> shutil_move src dst w \<noteq> Inr w'"
  by (auto simp: shutil_move_def Let_def split: if_splits)

lemma env_frame_refl: "env_frame w w"
  by (simp add: env_frame_def)

lemma env_frame_trans: "env_frame w1 w2 \<Longrightarrow> env_frame w2 w3 \<Longrightarrow> env_frame w1 w3"
  by (simp add: env_frame_def)

lemma env_frame_print [simp]: "env_frame w (py_print s e w') = env_frame w w'"
  by (simp add: env_frame_def py_print_def)

lemma land_files_checks:
  "files (land w) = files w ++ writes w (checks w)" "checks (land w) = Suc (checks w)"
  by (simp_all add: land_def)

lemma land_effect: "issued (land w) = issued w \<and> env_frame w (land w) \<and> dirs (land w) = dirs w"
  by (simp add: land_def env_frame_def)

end
