(* ===== verification/Gateway.thy ===== *)
theory Gateway
  imports World
begin

text \<open>
  The scheduler gateway of \<open>sub.py\<close>: the terminal colours (class \<open>Colors\<close>), the
  failure report \<open>pretty_return\<close>, the job object's fields (class \<open>Submit\<close>), the
  status table \<open>job_state\<close>, and the scan of one \<open>qstat\<close> listing that
  \<open>Submit.run\<close> performs in each poll (lines 140--148): find the lines that contain
  the job id, decode the second-to-last field, and on status \<open>E\<close> record the
  third-to-last field as the CPU time. The scan is proved equal to a declarative
  reading (the last matching line decides the status, the last matching \<open>E\<close> line
  the CPU time) and its \<open>IndexError\<close> is characterised exactly.
\<close>

section \<open>Colours\<close>

definition HEADER :: string where "HEADER = CHR 0x1B # ''[95m''"
definition OKBLUE :: string where "OKBLUE = CHR 0x1B # ''[94m''"
definition OKGREEN :: string where "OKGREEN = CHR 0x1B # ''[92m''"
definition WARNING :: string where "WARNING = CHR 0x1B # ''[93m''"
definition FAIL :: string where "FAIL = CHR 0x1B # ''[91m''"
definition ENDC :: string where "ENDC = CHR 0x1B # ''[0m''"
definition BOLD :: string where "BOLD = CHR 0x1B # ''[1m''"
definition UNDERLINE :: string where "UNDERLINE = CHR 0x1B # ''[4m''"

lemmas colour_defs [model_defs] = HEADER_def OKBLUE_def OKGREEN_def WARNING_def FAIL_def
  ENDC_def BOLD_def UNDERLINE_def

section \<open>pretty_return\<close>

definition framed_lines :: "string \<Rightarrow> string" where
  "framed_lines s = concat (map (\<lambda>line. ''| '' @ line @ NL) (split_on CHR 0x0A (py_strip s)))"

definition pretty_return :: "string \<Rightarrow> int \<Rightarrow> string \<Rightarrow> string \<Rightarrow> world \<Rightarrow> string \<times> world" where
  "pretty_return command rc out err w =
     (let s = ''|'' @ HEADER @ ''------- CMD ------'' @ ENDC @ NL
            @ ''| '' @ HEADER @ command @ ENDC @ NL @ ''| -> returned: ''
            @ HEADER @ py_str_int rc @ ENDC @ NL
            @ ''|'' @ OKGREEN @ ''----- STDOUT -----'' @ ENDC @ NL
            @ framed_lines out
            @ ''|'' @ FAIL @ ''----- STDERR -----'' @ ENDC @ NL
            @ framed_lines err
            @ ''|------------------'' @ NL
      in (s, py_print s NL w))"

text \<open>The report of a failed command, as \<open>run\<close> prints it: \<open>FAIL\<close> then the frame.\<close>

definition report_failure :: "cmd_result \<Rightarrow> world \<Rightarrow> world" where
  "report_failure r w =
     snd (pretty_return (cr_command r) (ret_code r) (stdout r) (stderr r)
            (py_print (FAIL @ ''FAIL'' @ ENDC) NL w))"

section \<open>The job object\<close>

text \<open>The fields \<open>Submit.__init__\<close> sets; \<open>proc_id\<close> is \<open>None\<close> and no line of
  the class ever assigns it.\<close>

record submit =
  project :: string
  proc_id :: "job_id option"
  num_nodes :: "int option"
  num_processes :: "int option"
  input_args :: "string list"
  cpu_time_used :: string

definition new_submit :: "string \<Rightarrow> int option \<Rightarrow> int option \<Rightarrow> string list \<Rightarrow> submit" where
  "new_submit p n k args =
     \<lparr>project = p, proc_id = None, num_nodes = n, num_processes = k, input_args = args,
      cpu_time_used = []\<rparr>"

section \<open>Status codes\<close>

definition job_state :: "string \<rightharpoonup> string" where
  "job_state = map_of
     [(''C'', ''Job is completed  ''), (''E'', ''Job is exiting    ''),
      (''H'', ''Job is held       ''), (''Q'', ''job is queued     ''),
      (''R'', ''job is running    ''), (''T'', ''job is being moved''),
      (''W'', ''job is waiting    ''), (''S'', ''job is suspend    '')]"

text \<open>\<open>job_state.get(code, "undefined")\<close>.\<close>

definition job_state_get :: "string \<Rightarrow> string" where
  "job_state_get code = (case job_state code of None \<Rightarrow> ''undefined'' | Some t \<Rightarrow> t)"

section \<open>Scanning one queue listing\<close>

record scan_st =
  cur_status :: string
  cpu_time :: string
  ended :: bool

text \<open>The body of \<open>for line in stdout.strip().split("\n")\<close> (lines 142--148).\<close>

definition scan_line :: "job_id \<Rightarrow> scan_st \<Rightarrow> string \<Rightarrow> py_exc + scan_st" where
  "scan_line pid st line =
     (let data = py_tokens line in
      if py_find line pid \<noteq> -1 then
        (case py_index data (-2) of
           Inl e \<Rightarrow> Inl e
         | Inr code \<Rightarrow>
             (let st' = st\<lparr>cur_status := job_state_get code\<rparr> in
              if job_state_get code = the (job_state ''E'') then
                (case py_index data (-3) of
                   Inl e \<Rightarrow> Inl e
                 | Inr c \<Rightarrow> Inr (st'\<lparr>cpu_time := c, ended := True\<rparr>))
              else Inr st'))
      else Inr st)"

fun scan_lines :: "job_id \<Rightarrow> scan_st \<Rightarrow> string list \<Rightarrow> py_exc + scan_st" where
  "scan_lines pid st [] = Inr st"
| "scan_lines pid st (l # ls) =
     (case scan_line pid st l of Inl e \<Rightarrow> Inl e | Inr st' \<Rightarrow> scan_lines pid st' ls)"

text \<open>The listing as the loop splits it.\<close>

definition listing_lines :: "string \<Rightarrow> string list" where
  "listing_lines s = split_on CHR 0x0A (py_strip s)"

section \<open>A declarative reading of the scan\<close>

text \<open>
  A line is the job's when it contains the job id; its status is the second-to-last
  field and its CPU time the third-to-last. The scan's outcome: the status of the
  last job line, the CPU time of the last job line with status \<open>E\<close>, ended when
  there is such a line; \<open>IndexError\<close> when a job line is too short for the fields
  the code reads.
\<close>

definition matches :: "job_id \<Rightarrow> string \<Rightarrow> bool" where
  "matches pid l \<longleftrightarrow> py_find l pid \<noteq> -1"

definition field_from_end :: "nat \<Rightarrow> string \<Rightarrow> string" where
  "field_from_end k l = py_tokens l ! (length (py_tokens l) - k)"

definition line_ok :: "job_id \<Rightarrow> string \<Rightarrow> bool" where
  "line_ok pid l \<longleftrightarrow>
     \<not> matches pid l \<or>
     (2 \<le> length (py_tokens l) \<and> (field_from_end 2 l \<noteq> ''E'' \<or> 3 \<le> length (py_tokens l)))"

definition line_step :: "job_id \<Rightarrow> scan_st \<Rightarrow> string \<Rightarrow> scan_st" where
  "line_step pid st l =
     (if matches pid l then
        (if field_from_end 2 l = ''E''
         then st\<lparr>cur_status := job_state_get ''E'', cpu_time := field_from_end 3 l, ended := True\<rparr>
         else st\<lparr>cur_status := job_state_get (field_from_end 2 l)\<rparr>)
      else st)"

definition scan_spec :: "job_id \<Rightarrow> scan_st \<Rightarrow> string list \<Rightarrow> scan_st" where
  "scan_spec pid st ls =
     (let ms = filter (matches pid) ls; es = filter (\<lambda>l. field_from_end 2 l = ''E'') ms
      in \<lparr>cur_status = (if ms = [] then cur_status st else job_state_get (field_from_end 2 (last ms))),
          cpu_time = (if es = [] then cpu_time st else field_from_end 3 (last es)),
          ended = (ended st \<or> es \<noteq> [])\<rparr>)"

section \<open>Lemmas\<close>

lemma job_state_get_E_iff: "job_state_get code = the (job_state ''E'') \<longleftrightarrow> code = ''E''"
  by (auto simp: job_state_get_def job_state_def split: option.splits if_splits)

lemma py_index_minus2:
  "py_index xs (-2) = (if 2 \<le> length xs then Inr (xs ! (length xs - 2)) else Inl IndexError)"
  by (auto simp: py_index_def Let_def nat_diff_distrib)

lemma py_index_minus3:
  "py_index xs (-3) = (if 3 \<le> length xs then Inr (xs ! (length xs - 3)) else Inl IndexError)"
  by (auto simp: py_index_def Let_def nat_diff_distrib)

lemma scan_line_eq:
  "scan_line pid st l = (if line_ok pid l then Inr (line_step pid st l) else Inl IndexError)"
proof (cases "length (py_tokens l) = 2")
  case True
  then show ?thesis
    by (auto simp: scan_line_def line_ok_def line_step_def matches_def field_from_end_def Let_def
        py_index_minus2 py_index_minus3 job_state_get_E_iff)
next
  case False
  then show ?thesis
    by (auto simp: scan_line_def line_ok_def line_step_def matches_def field_from_end_def Let_def
        py_index_minus2 py_index_minus3 job_state_get_E_iff)
qed

lemma scan_spec_Nil: "scan_spec pid st [] = st"
  by (simp add: scan_spec_def)

lemma scan_spec_Cons: "scan_spec pid st (l # ls) = scan_spec pid (line_step pid st l) ls"
  by (cases "filter (matches pid) ls = []"; cases "filter (\<lambda>l. field_from_end 2 l = ''E'') (filter (matches pid) ls) = []")
     (auto simp: scan_spec_def line_step_def Let_def)

lemma scan_lines_eq:
  "scan_lines pid st ls = (if list_all (line_ok pid) ls then Inr (scan_spec pid st ls) else Inl IndexError)"
proof (induction ls arbitrary: st)
  case Nil
  then show ?case by (simp add: scan_spec_Nil)
next
  case (Cons l ls)
  then show ?case by (simp add: scan_line_eq scan_spec_Cons)
qed

lemma field_from_end_in_tokens:
  "k \<le> length (py_tokens l) \<Longrightarrow> 0 < k \<Longrightarrow> field_from_end k l \<in> set (py_tokens l)"
  by (simp add: field_from_end_def)

lemma field_from_end_nonempty:
  "k \<le> length (py_tokens l) \<Longrightarrow> 0 < k \<Longrightarrow> field_from_end k l \<noteq> []"
  using field_from_end_in_tokens py_tokens_nonempty by blast

lemma scan_spec_no_match:
  "\<forall>l \<in> set ls. \<not> matches pid l \<Longrightarrow> scan_spec pid st ls = st"
  by (simp add: scan_spec_def filter_False)

lemma report_failure_frame [world_simps]:
  "issued (report_failure r w) = issued w" "files (report_failure r w) = files w"
  "dirs (report_failure r w) = dirs w" "respond (report_failure r w) = respond w"
  "interrupt (report_failure r w) = interrupt w" "writes (report_failure r w) = writes w"
  "checks (report_failure r w) = checks w"
  by (simp_all add: report_failure_def pretty_return_def Let_def py_print_def)

lemma job_state_get_not_Nil: "job_state_get code \<noteq> []"
  by (auto simp: job_state_get_def job_state_def split: option.splits if_splits)

lemma env_frame_report [simp]: "env_frame w (report_failure r w') = env_frame w w'"
  by (simp add: env_frame_def world_simps)

lemmas scan_eval = scan_lines_eq line_ok_def matches_def py_find_def field_from_end_def py_tokens_def
  listing_lines_def py_strip_def is_py_space_def scan_spec_def job_state_get_def job_state_def


section \<open>Properties of the scan\<close>

text \<open>C16: The scan of one qstat listing (the for-line loop of Submit.run) succeeds exactly when every line containing the job id has the fields the code reads, and then its result is the declarative reading: the status of the last job line, the CPU time of the last job line with status E, ended when there is such a line.\<close>

theorem scan_lines_refines_spec:
  "scan_lines pid st ls = Inr st' \<longleftrightarrow> list_all (line_ok pid) ls \<and> st' = scan_spec pid st ls"
  by (auto simp: scan_lines_eq)

text \<open>C17: The scan raises IndexError exactly when some line containing the job id has fewer than two fields, or fewer than three with status E; no other exception comes out of it.\<close>

theorem scan_lines_index_error:
  "scan_lines pid st ls = Inl e \<longleftrightarrow>
     e = IndexError \<and> (\<exists>l \<in> set ls. matches pid l \<and>
        (length (py_tokens l) < 2 \<or> (length (py_tokens l) < 3 \<and> field_from_end 2 l = ''E'')))"
  by (auto simp: scan_lines_eq list_all_iff line_ok_def)

text \<open>C18: After a scan, the job is marked ended exactly when it was already or some job line has status E, and a changed CPU time is the third-to-last field of such a line.\<close>

theorem cpu_time_iff_exiting:
  assumes "scan_lines pid st ls = Inr st'"
  shows "(ended st' \<longleftrightarrow> ended st \<or> (\<exists>l \<in> set ls. matches pid l \<and> field_from_end 2 l = ''E'')) \<and>
         (cpu_time st' \<noteq> cpu_time st \<longrightarrow>
           (\<exists>l \<in> set ls. matches pid l \<and> field_from_end 2 l = ''E'' \<and> cpu_time st' = field_from_end 3 l))"
proof (intro conjI impI)
  let ?es = "filter (\<lambda>l. field_from_end 2 l = ''E'') (filter (matches pid) ls)"
  from assms have st': "st' = scan_spec pid st ls" by (simp add: scan_lines_eq split: if_splits)
  have es: "?es = [] \<longleftrightarrow> \<not> (\<exists>l \<in> set ls. matches pid l \<and> field_from_end 2 l = ''E'')"
    by (auto simp: filter_empty_conv)
  show "ended st' \<longleftrightarrow> ended st \<or> (\<exists>l \<in> set ls. matches pid l \<and> field_from_end 2 l = ''E'')"
    using es by (simp add: st' scan_spec_def Let_def)
  assume "cpu_time st' \<noteq> cpu_time st"
  then have ne: "?es \<noteq> []" and cpu: "cpu_time st' = field_from_end 3 (last ?es)"
    by (simp_all add: st' scan_spec_def Let_def split: if_splits)
  from last_filter [OF ne] cpu show "\<exists>l \<in> set ls. matches pid l \<and> field_from_end 2 l = ''E'' \<and> cpu_time st' = field_from_end 3 l"
    by auto
qed

theorem scan_lines_refines_spec_witness:
  "scan_lines ''123.host'' \<lparr>cur_status = [], cpu_time = [], ended = False\<rparr>
     [''123.host demo.run bob 00:01 R batch'', ''124.host x.run amy 00:02 Q batch''] =
   Inr \<lparr>cur_status = ''job is running    '', cpu_time = [], ended = False\<rparr>"
  using scan_lines_refines_spec [of "''123.host''" "\<lparr>cur_status = [], cpu_time = [], ended = False\<rparr>"
      "[''123.host demo.run bob 00:01 R batch'', ''124.host x.run amy 00:02 Q batch'']"
      "\<lparr>cur_status = ''job is running    '', cpu_time = [], ended = False\<rparr>"]
  by (simp add: scan_eval)

theorem scan_lines_index_error_witness:
  "scan_lines ''123.host'' \<lparr>cur_status = [], cpu_time = [], ended = False\<rparr> [''123.host''] = Inl IndexError"
  using scan_lines_index_error [of "''123.host''" "\<lparr>cur_status = [], cpu_time = [], ended = False\<rparr>"
      "[''123.host'']" IndexError]
  by (simp add: scan_eval)

theorem cpu_time_iff_exiting_witness:
  "ended \<lparr>cur_status = ''Job is exiting    '', cpu_time = ''00:05'', ended = True\<rparr> \<and>
   (\<exists>l \<in> set [''123.host demo.run bob 00:05 E batch'']. matches ''123.host'' l \<and> field_from_end 2 l = ''E'' \<and>
       ''00:05'' = field_from_end 3 l)"
proof -
  have r: "scan_lines ''123.host'' \<lparr>cur_status = [], cpu_time = [], ended = False\<rparr>
      [''123.host demo.run bob 00:05 E batch''] = Inr \<lparr>cur_status = ''Job is exiting    '', cpu_time = ''00:05'', ended = True\<rparr>"
    by (simp add: scan_eval)
  from cpu_time_iff_exiting [OF r] show ?thesis by simp
qed


end
