(* ===== verification/Watch.thy ===== *)
theory Watch
  imports Gateway
begin

text \<open>
  The job lifecycle controller's polling phase, lines 119--179 of \<open>Submit.run\<close>:
  the initial \<open>qstat\<close>, the \<open>while\<close> loop that re-queries, scans, renders the
  status line with its spinner and prints it, the check of the last exit code after
  the loop, and the \<open>KeyboardInterrupt\<close> handler that cancels the job with
  \<open>qdel\<close>. The loop depends on the scheduler's answers and may poll forever, so it
  is a \<open>partial_function (option)\<close>: \<open>None\<close> is a run that never leaves it.
\<close>

section \<open>How a run of Submit.run ends\<close>

text \<open>Each \<open>return\<close> of \<open>run\<close>, falling off its end after the output is shown
  (\<open>Collected\<close>), or an exception escaping it.\<close>

datatype run_end =
    BuildFailed | TemplateFailed | SubmitFailed | QueryFailed | CancelFailed | Aborted | Collected

datatype outcome = Returned run_end | Raised py_exc

section \<open>The loop's locals\<close>

text \<open>\<open>command, ret_code, stdout, stderr\<close> of the last \<open>qstat\<close>, \<open>last_string\<close>,
  \<open>proc_pass\<close>, \<open>ended\<close>; \<open>polls\<close> counts the status queries of this phase and
  places the user's Ctrl-C.\<close>

record watch =
  last_result :: cmd_result
  last_string :: string
  proc_pass :: nat
  finished :: bool
  polls :: nat

definition bar :: "string list" where
  "bar = [[CHR 0xE2, CHR 0x96, CHR 0x8C], [CHR 0xE2, CHR 0x96, CHR 0x80],
          [CHR 0xE2, CHR 0x96, CHR 0x90], [CHR 0xE2, CHR 0x96, CHR 0x84]]"

definition status_line :: "string \<Rightarrow> string" where
  "status_line cur = WARNING @ ''  - status: '' @ cur @ ENDC"

text \<open>Lines 151--158: a status line equal to the last one gets the next spinner glyph.\<close>

definition render :: "string \<Rightarrow> watch \<Rightarrow> py_exc + string \<times> watch" where
  "render cur st =
     (let new_string = status_line cur in
      if new_string \<noteq> last_string st then Inr (new_string, st\<lparr>last_string := new_string\<rparr>)
      else (case py_index bar (int (proc_pass st)) of
              Inl e \<Rightarrow> Inl e
            | Inr g \<Rightarrow> Inr (new_string @ g, st\<lparr>proc_pass := (proc_pass st + 1) mod 4\<rparr>)))"

section \<open>One iteration and the loop\<close>

text \<open>Lines 139--161: query, scan, end the loop when the job was not seen, render, print.\<close>

definition watch_iteration ::
  "job_id \<Rightarrow> submit \<Rightarrow> watch \<Rightarrow> world \<Rightarrow> (py_exc \<times> submit \<times> world) + (submit \<times> watch \<times> world)" where
  "watch_iteration pid s st w =
     (let (r, w1) = call_command ''qstat'' w;
          st1 = st\<lparr>last_result := r, polls := Suc (polls st)\<rparr>
      in case scan_lines pid \<lparr>cur_status = [], cpu_time = cpu_time_used s, ended = finished st\<rparr>
                (listing_lines (stdout r)) of
           Inl e \<Rightarrow> Inl (e, s, w1)
         | Inr sc \<Rightarrow>
             (let s' = s\<lparr>cpu_time_used := cpu_time sc\<rparr>;
                  st2 = st1\<lparr>finished := (ended sc \<or> cur_status sc = [])\<rparr>
              in case render (cur_status sc) st2 of
                   Inl e \<Rightarrow> Inl (e, s', w1)
                 | Inr (line, st3) \<Rightarrow> Inr (s', st3, py_print line CR w1)))"

definition loop_guard :: "watch \<Rightarrow> bool" where
  "loop_guard st \<longleftrightarrow>
     py_strip (stdout (last_result st)) \<noteq> [] \<and> ret_code (last_result st) = 0 \<and> \<not> finished st"

datatype watch_end =
    W_Done submit watch world
  | W_Interrupted submit world
  | W_Raised py_exc submit world

partial_function (option) watch_loop :: "job_id \<Rightarrow> submit \<Rightarrow> watch \<Rightarrow> world \<Rightarrow> watch_end option" where
  "watch_loop pid s st w =
     (if loop_guard st then
        (if interrupt w = Some (polls st) then Some (W_Interrupted s w)
         else (case watch_iteration pid s st w of
                 Inl (e, s', w') \<Rightarrow> Some (W_Raised e s' w')
               | Inr (s', st', w') \<Rightarrow> watch_loop pid s' st' w'))
      else Some (W_Done s st w))"

section \<open>Cancellation\<close>

text \<open>The \<open>except KeyboardInterrupt\<close> handler, lines 167--179.\<close>

definition qdel_command :: "job_id \<Rightarrow> string" where
  "qdel_command pid = ''qdel '' @ hd (split_on CHR ''.'' pid)"

definition cancel_job :: "job_id \<Rightarrow> submit \<Rightarrow> world \<Rightarrow> outcome \<times> submit \<times> world" where
  "cancel_job pid s w =
     (let w1 = py_print (CR @ HEADER @ ''!!! REQUESTED INTERRUPT !!!'' @ ENDC) NL w;
          (r, w2) = call_command (qdel_command pid) w1
      in if ret_code r \<noteq> 0 then (Returned CancelFailed, s, report_failure r w2)
         else (Returned Aborted, s,
               py_print (HEADER @ ''!!! JOB successful aborted !!!'' @ ENDC) NL w2))"

section \<open>The watch phase\<close>

text \<open>Lines 119--179: \<open>Inl\<close> is a \<open>return\<close> or an exception of \<open>run\<close>, \<open>Inr\<close> goes
  on to the output collection with the job object as the loop left it.\<close>

definition watch_job ::
  "job_id \<Rightarrow> submit \<Rightarrow> world \<Rightarrow> ((outcome \<times> submit \<times> world) + (submit \<times> world)) option" where
  "watch_job pid s w =
     (let w1 = py_print (WARNING @ ''- Processing job -> '' @ pid @ ENDC) NL w in
      if interrupt w1 = Some 0 then Some (Inl (cancel_job pid s w1))
      else
        (let (r, w2) = call_command ''qstat'' w1;
             st0 = \<lparr>last_result = r, last_string = [], proc_pass = 0, finished = False, polls = 1\<rparr>
         in case watch_loop pid s st0 w2 of
              None \<Rightarrow> None
            | Some (W_Done s' st w3) \<Rightarrow>
                (let w4 = py_print (WARNING @ NL @ ''  - done'' @ ENDC) NL w3 in
                 if ret_code (last_result st) \<noteq> 0
                 then Some (Inl (Returned QueryFailed, s', report_failure (last_result st) w4))
                 else Some (Inr (s', w4)))
            | Some (W_Interrupted s' w3) \<Rightarrow> Some (Inl (cancel_job pid s' w3))
            | Some (W_Raised e s' w3) \<Rightarrow> Some (Inl (Raised e, s', w3))))"

section \<open>Observations on the loop\<close>

text \<open>The world and job object a loop exit carries; the extension of the world by
  status queries only; a scheduler answer after which the loop stops.\<close>

definition end_world :: "watch_end \<Rightarrow> world" where
  "end_world r = (case r of W_Done s st w \<Rightarrow> w | W_Interrupted s w \<Rightarrow> w | W_Raised e s w \<Rightarrow> w)"

definition end_submit :: "watch_end \<Rightarrow> submit" where
  "end_submit r = (case r of W_Done s st w \<Rightarrow> s | W_Interrupted s w \<Rightarrow> s | W_Raised e s w \<Rightarrow> s)"

definition qstat_ext :: "world \<Rightarrow> world \<Rightarrow> bool" where
  "qstat_ext w w' \<longleftrightarrow>
     (\<exists>n. issued w' = issued w @ replicate n ''qstat'') \<and> files w' = files w \<and> dirs w' = dirs w \<and>
     respond w' = respond w \<and> interrupt w' = interrupt w \<and> writes w' = writes w \<and> checks w' = checks w"

definition stop_response :: "job_id \<Rightarrow> int \<times> string \<times> string \<Rightarrow> bool" where
  "stop_response pid r \<longleftrightarrow>
     (case r of (rc, so, se) \<Rightarrow>
        rc \<noteq> 0 \<or> (\<forall>l \<in> set (listing_lines so). \<not> matches pid l) \<or>
        (\<exists>l \<in> set (listing_lines so). matches pid l \<and> field_from_end 2 l = ''E''))"

text \<open>A scheduler answer after which the loop keeps polling: the query succeeds and
  lists the job, every line of the job has a status field and none is exiting.\<close>

definition keeps_polling :: "job_id \<Rightarrow> int \<times> string \<times> string \<Rightarrow> bool" where
  "keeps_polling pid r \<longleftrightarrow>
     (case r of (rc, so, se) \<Rightarrow>
        rc = 0 \<and> (\<exists>l \<in> set (listing_lines so). matches pid l) \<and>
        (\<forall>l \<in> set (listing_lines so). matches pid l \<longrightarrow>
           2 \<le> length (py_tokens l) \<and> field_from_end 2 l \<noteq> ''E''))"

section \<open>Well-formed loop states\<close>

text \<open>What every loop state satisfies: the spinner index selects one of the four
  glyphs, at least the initial query has been made, and the last rendered string is
  empty or a status line.\<close>

definition is_status_line :: "string \<Rightarrow> bool" where
  "is_status_line l \<longleftrightarrow>
     starts_with (WARNING @ ''  - status: '') l \<and> starts_with (rev ENDC) (rev l) \<and>
     length (WARNING @ ''  - status: '' @ ENDC) \<le> length l"

definition wf_watch :: "watch \<Rightarrow> bool" where
  "wf_watch st \<longleftrightarrow> proc_pass st < 4 \<and> 0 < polls st \<and> (last_string st = [] \<or> is_status_line (last_string st))"

text \<open>A loop state right after the initial query, for the scenarios below.\<close>

abbreviation st_fixture :: watch where
  "st_fixture \<equiv> \<lparr>last_result = \<lparr>cr_command = ''qstat'', ret_code = 0, stdout = ''q'', stderr = []\<rparr>,
      last_string = [], proc_pass = 0, finished = False, polls = 1\<rparr>"

section \<open>Lemmas\<close>

lemma render_Inr:
  "render cur st = Inr (line, st') \<Longrightarrow>
     last_result st' = last_result st \<and> finished st' = finished st \<and> polls st' = polls st \<and>
     (proc_pass st < 4 \<longrightarrow> proc_pass st' < 4)"
  by (auto simp: render_def Let_def split: if_splits sum.splits)

lemma render_ok: "proc_pass st < 4 \<Longrightarrow> \<exists>line st'. render cur st = Inr (line, st')"
  by (auto simp: render_def Let_def py_index_def bar_def)

lemma qstat_ext_refl: "qstat_ext w w"
  by (auto simp: qstat_ext_def intro: exI [of _ 0])

lemma qstat_ext_trans: "qstat_ext w1 w2 \<Longrightarrow> qstat_ext w2 w3 \<Longrightarrow> qstat_ext w1 w3"
  by (auto simp: qstat_ext_def replicate_add [symmetric])

lemma respond_triple: obtains rc so se where "respond w (length (issued w)) c = (rc, so, se)"
  by (cases "respond w (length (issued w)) c") auto

lemma watch_iteration_Inr:
  assumes "watch_iteration pid s st w = Inr (s', st', w')"
  shows "\<exists>sc line. scan_lines pid \<lparr>cur_status = [], cpu_time = cpu_time_used s, ended = finished st\<rparr>
                      (listing_lines (stdout (fst (call_command ''qstat'' w)))) = Inr sc \<and>
           s' = s\<lparr>cpu_time_used := cpu_time sc\<rparr> \<and> finished st' = (ended sc \<or> cur_status sc = []) \<and>
           last_result st' = fst (call_command ''qstat'' w) \<and> polls st' = Suc (polls st) \<and>
           w' = py_print line CR (w\<lparr>issued := issued w @ [''qstat'']\<rparr>) \<and>
           (proc_pass st < 4 \<longrightarrow> proc_pass st' < 4)"
proof -
  obtain rc so se where resp: "respond w (length (issued w)) ''qstat'' = (rc, so, se)"
    by (rule respond_triple)
  from assms show ?thesis
    by (auto simp: watch_iteration_def call_command_def resp Let_def split: sum.splits
        dest!: render_Inr)
qed

lemma watch_iteration_Inl:
  "watch_iteration pid s st w = Inl (e, s', w') \<Longrightarrow> w' = w\<lparr>issued := issued w @ [''qstat'']\<rparr>"
proof -
  assume a: "watch_iteration pid s st w = Inl (e, s', w')"
  obtain rc so se where resp: "respond w (length (issued w)) ''qstat'' = (rc, so, se)"
    by (rule respond_triple)
  from a show ?thesis
    by (auto simp: watch_iteration_def call_command_def resp Let_def split: sum.splits)
qed

lemma watch_iteration_qstat_ext:
  "watch_iteration pid s st w = Inr (s', st', w') \<Longrightarrow> qstat_ext w w'"
  by (drule watch_iteration_Inr) (auto simp: qstat_ext_def py_print_def intro: exI [of _ 1])

lemma watch_loop_frame:
  assumes ret: "watch_loop pid s st w = Some r"
  shows "qstat_ext w (end_world r)"
proof (rule watch_loop.raw_induct [where P = "\<lambda>pid s st w r. qstat_ext w (end_world r)", OF _ ret])
  fix loop pid s st w r
  assume IH: "\<And>pid s st w r. loop pid s st w = Some r \<Longrightarrow> qstat_ext w (end_world r)"
    and body: "(if loop_guard st then
        (if interrupt w = Some (polls st) then Some (W_Interrupted s w)
         else (case watch_iteration pid s st w of
                 Inl (e, s', w') \<Rightarrow> Some (W_Raised e s' w')
               | Inr (s', st', w') \<Rightarrow> loop pid s' st' w'))
      else Some (W_Done s st w)) = Some r"
  show "qstat_ext w (end_world r)"
  proof (cases "loop_guard st \<and> interrupt w \<noteq> Some (polls st)")
    case False
    with body show ?thesis by (auto simp: end_world_def qstat_ext_refl split: if_splits)
  next
    case True
    show ?thesis
    proof (cases "watch_iteration pid s st w")
      case (Inl a)
      then obtain e s' w' where it: "watch_iteration pid s st w = Inl (e, s', w')"
        by (cases a) auto
      with True body have "r = W_Raised e s' w'" by simp
      with it show ?thesis
        by (auto simp: end_world_def qstat_ext_def dest!: watch_iteration_Inl intro: exI [of _ 1])
    next
      case (Inr b)
      then obtain s' st' w' where it: "watch_iteration pid s st w = Inr (s', st', w')"
        by (cases b) auto
      with True body have "loop pid s' st' w' = Some r" by simp
      then have "qstat_ext w' (end_world r)" by (rule IH)
      with it show ?thesis by (blast intro: qstat_ext_trans watch_iteration_qstat_ext)
    qed
  qed
qed

lemma watch_iteration_ok:
  assumes "proc_pass st < 4"
    and "scan_lines pid \<lparr>cur_status = [], cpu_time = cpu_time_used s, ended = finished st\<rparr>
           (listing_lines (stdout (fst (call_command ''qstat'' w)))) = Inr sc"
  shows "\<exists>x. watch_iteration pid s st w = Inr x"
proof -
  obtain rc so se where resp: "respond w (length (issued w)) ''qstat'' = (rc, so, se)"
    by (rule respond_triple)
  let ?st2 = "st\<lparr>last_result := \<lparr>cr_command = ''qstat'', ret_code = rc, stdout = so, stderr = se\<rparr>,
                  polls := Suc (polls st), finished := (ended sc \<or> cur_status sc = [])\<rparr>"
  from assms(1) have "proc_pass ?st2 < 4" by simp
  then obtain line st3 where "render (cur_status sc) ?st2 = Inr (line, st3)"
    using render_ok by blast
  with assms(2) show ?thesis
    by (simp add: watch_iteration_def call_command_def resp Let_def)
qed

lemma stop_response_ends:
  assumes it: "watch_iteration pid s st w = Inr (s', st', w')"
    and stop: "stop_response pid (respond w (length (issued w)) ''qstat'')"
  shows "\<not> loop_guard st'"
proof -
  obtain rc so se where resp: "respond w (length (issued w)) ''qstat'' = (rc, so, se)"
    by (rule respond_triple)
  from watch_iteration_Inr [OF it] obtain sc where
    scan: "scan_lines pid \<lparr>cur_status = [], cpu_time = cpu_time_used s, ended = finished st\<rparr>
             (listing_lines so) = Inr sc"
    and fin: "finished st' = (ended sc \<or> cur_status sc = [])"
    and res: "last_result st' = \<lparr>cr_command = ''qstat'', ret_code = rc, stdout = so, stderr = se\<rparr>"
    by (auto simp: call_command_def resp)
  from scan have sc: "sc = scan_spec pid \<lparr>cur_status = [], cpu_time = cpu_time_used s, ended = finished st\<rparr>
             (listing_lines so)"
    by (simp add: scan_lines_eq split: if_splits)
  from stop resp consider "rc \<noteq> 0" | "\<forall>l \<in> set (listing_lines so). \<not> matches pid l"
    | "\<exists>l \<in> set (listing_lines so). matches pid l \<and> field_from_end 2 l = ''E''"
    by (auto simp: stop_response_def)
  then show ?thesis
  proof cases
    case 1
    with res show ?thesis by (simp add: loop_guard_def)
  next
    case 2
    then have "cur_status sc = []" by (simp add: sc scan_spec_no_match)
    with fin show ?thesis by (simp add: loop_guard_def)
  next
    case 3
    then have "ended sc" by (auto simp: sc scan_spec_def Let_def filter_empty_conv)
    with fin show ?thesis by (simp add: loop_guard_def)
  qed
qed

lemma py_index_bar: "k < 4 \<Longrightarrow> py_index bar (int k) = Inr (bar ! k)"
  by (simp add: py_index_def bar_def)

lemma listing_lines_strip_empty: "py_strip so = [] \<Longrightarrow> listing_lines so = [[]]"
  by (simp add: listing_lines_def)

lemma py_tokens_Nil: "py_tokens [] = []"
  by (simp add: py_tokens_def)

lemma qdel_command_stripped:
  "qdel_command pid = ''qdel '' @ takeWhile (\<lambda>c. c \<noteq> CHR ''.'') pid"
  by (simp add: qdel_command_def hd_split_on)

lemma cancel_job_effect:
  assumes "cancel_job pid s w = (oc, s', w')"
  shows "issued w' = issued w @ [qdel_command pid] \<and> s' = s \<and> files w' = files w \<and>
         dirs w' = dirs w \<and> respond w' = respond w \<and> interrupt w' = interrupt w \<and> writes w' = writes w \<and>
         (oc = Returned Aborted \<or> oc = Returned CancelFailed)"
proof -
  obtain rc so se where resp: "respond w (length (issued w)) (qdel_command pid) = (rc, so, se)"
    by (rule respond_triple)
  from assms show ?thesis
    by (auto simp: cancel_job_def call_command_def resp Let_def world_simps split: if_splits)
qed

lemma env_frame_qstat_ext: "qstat_ext w w' \<Longrightarrow> env_frame w w'"
  by (simp add: qstat_ext_def env_frame_def)

lemma watch_job_effect:
  assumes "watch_job pid s w = Some r"
  shows "case r of
           Inl (oc, s', w') \<Rightarrow> env_frame w w' \<and> files w' = files w \<and> dirs w' = dirs w \<and>
              ((\<exists>n. issued w' = issued w @ replicate n ''qstat'' @ [qdel_command pid] \<and>
                    (oc = Returned Aborted \<or> oc = Returned CancelFailed)) \<or>
               (\<exists>n. issued w' = issued w @ replicate n ''qstat'' \<and>
                    (oc = Returned QueryFailed \<or> (\<exists>e. oc = Raised e))))
         | Inr (s', w') \<Rightarrow> env_frame w w' \<and> files w' = files w \<and> dirs w' = dirs w \<and>
              (\<exists>n. issued w' = issued w @ replicate n ''qstat'')"
proof (cases "interrupt w = Some 0")
  case True
  obtain oc s' w' where c: "cancel_job pid s (py_print (WARNING @ ''- Processing job -> '' @ pid @ ENDC) NL w) = (oc, s', w')"
    by (cases "cancel_job pid s (py_print (WARNING @ ''- Processing job -> '' @ pid @ ENDC) NL w)") auto
  from cancel_job_effect [OF c] have "issued w' = issued w @ replicate 0 ''qstat'' @ [qdel_command pid]"
    by (simp add: world_simps)
  with True assms c cancel_job_effect [OF c] show ?thesis
    by (auto simp: watch_job_def env_frame_def world_simps)
next
  case False
  let ?w1 = "py_print (WARNING @ ''- Processing job -> '' @ pid @ ENDC) NL w"
  let ?w2 = "?w1\<lparr>issued := issued ?w1 @ [''qstat'']\<rparr>"
  let ?st0 = "\<lparr>last_result = fst (call_command ''qstat'' ?w1), last_string = [], proc_pass = 0,
               finished = False, polls = 1\<rparr>"
  from False assms obtain r' where loop: "watch_loop pid s ?st0 ?w2 = Some r'"
    by (auto simp: watch_job_def world_simps call_command_eq split: prod.splits option.splits)
  have w2: "qstat_ext w ?w2"
    by (auto simp: qstat_ext_def world_simps intro: exI [of _ 1])
  from w2 watch_loop_frame [OF loop] have ext: "qstat_ext w (end_world r')"
    by (rule qstat_ext_trans)
  show ?thesis
  proof (cases r')
    case (W_Done s' st w3)
    with ext False assms loop show ?thesis
      by (auto simp: watch_job_def Let_def end_world_def qstat_ext_def env_frame_def world_simps call_command_eq
          split: prod.splits if_splits)
  next
    case (W_Interrupted s' w3)
    obtain oc s'' w' where c: "cancel_job pid s' w3 = (oc, s'', w')"
      by (cases "cancel_job pid s' w3") auto
    from ext W_Interrupted obtain n where "issued w3 = issued w @ replicate n ''qstat''"
      by (auto simp: qstat_ext_def end_world_def)
    with cancel_job_effect [OF c] have "issued w' = issued w @ replicate n ''qstat'' @ [qdel_command pid]"
      by simp
    with ext W_Interrupted False assms loop c cancel_job_effect [OF c] show ?thesis
      by (auto simp: watch_job_def Let_def end_world_def qstat_ext_def env_frame_def world_simps call_command_eq
          split: prod.splits)
  next
    case (W_Raised e s' w3)
    with ext False assms loop show ?thesis
      by (auto simp: watch_job_def Let_def end_world_def qstat_ext_def env_frame_def world_simps call_command_eq
          split: prod.splits)
  qed
qed

section \<open>Properties of the watch phase\<close>

lemma watch_iteration_job:
  "watch_iteration pid s st w = Inl (e, s', w') \<Longrightarrow> s'\<lparr>cpu_time_used := cpu_time_used s\<rparr> = s"
  "watch_iteration pid s st w = Inr (s', st', w') \<Longrightarrow> s'\<lparr>cpu_time_used := cpu_time_used s\<rparr> = s"
  by (auto simp: watch_iteration_def Let_def split: prod.splits sum.splits)

lemma job_update_trans:
  "a\<lparr>cpu_time_used := c\<rparr> = b \<Longrightarrow> b\<lparr>cpu_time_used := d\<rparr> = e \<Longrightarrow> a\<lparr>cpu_time_used := d\<rparr> = e"
  by auto

lemma watch_loop_job:
  assumes ret: "watch_loop pid s st w = Some r"
  shows "(end_submit r)\<lparr>cpu_time_used := cpu_time_used s\<rparr> = s"
proof (rule watch_loop.raw_induct [where P = "\<lambda>pid s st w r. (end_submit r)\<lparr>cpu_time_used := cpu_time_used s\<rparr> = s", OF _ ret])
  fix loop pid s st w r
  assume IH: "\<And>pid s st w r. loop pid s st w = Some r \<Longrightarrow> (end_submit r)\<lparr>cpu_time_used := cpu_time_used s\<rparr> = s"
    and body: "(if loop_guard st then
        (if interrupt w = Some (polls st) then Some (W_Interrupted s w)
         else (case watch_iteration pid s st w of
                 Inl (e, s', w') \<Rightarrow> Some (W_Raised e s' w')
               | Inr (s', st', w') \<Rightarrow> loop pid s' st' w'))
      else Some (W_Done s st w)) = Some r"
  show "(end_submit r)\<lparr>cpu_time_used := cpu_time_used s\<rparr> = s"
  proof (cases "loop_guard st \<and> interrupt w \<noteq> Some (polls st)")
    case False
    with body show ?thesis by (auto simp: end_submit_def split: if_splits)
  next
    case True
    show ?thesis
    proof (cases "watch_iteration pid s st w")
      case (Inl a)
      then obtain e s' w' where it: "watch_iteration pid s st w = Inl (e, s', w')"
        by (cases a) auto
      with True body have "r = W_Raised e s' w'" by simp
      with watch_iteration_job(1) [OF it] show ?thesis by (simp add: end_submit_def)
    next
      case (Inr b)
      then obtain s' st' w' where it: "watch_iteration pid s st w = Inr (s', st', w')"
        by (cases b) auto
      with True body have "loop pid s' st' w' = Some r" by simp
      from IH [OF this] watch_iteration_job(2) [OF it] show ?thesis by (rule job_update_trans)
    qed
  qed
qed

lemma watch_job_job:
  assumes "watch_job pid s w = Some r"
  shows "case r of Inl (oc, s', w') \<Rightarrow> s'\<lparr>cpu_time_used := cpu_time_used s\<rparr> = s
                 | Inr (s', w') \<Rightarrow> s'\<lparr>cpu_time_used := cpu_time_used s\<rparr> = s"
  using assms watch_loop_job
  by (fastforce simp: watch_job_def cancel_job_def Let_def end_submit_def
      split: prod.splits option.splits if_splits watch_end.splits)

lemma watch_loop_returns_step:
  assumes "\<And>s' st' w'. loop_guard st \<Longrightarrow> interrupt w \<noteq> Some (polls st) \<Longrightarrow>
             watch_iteration pid s st w = Inr (s', st', w') \<Longrightarrow> \<exists>r. watch_loop pid s' st' w' = Some r"
  shows "\<exists>r. watch_loop pid s st w = Some r"
proof (cases "loop_guard st \<and> interrupt w \<noteq> Some (polls st)")
  case False
  then show ?thesis by (auto simp: watch_loop.simps [of pid s st w])
next
  case True
  show ?thesis
  proof (cases "watch_iteration pid s st w")
    case (Inl a)
    with True show ?thesis by (auto simp: watch_loop.simps [of pid s st w] split: prod.splits)
  next
    case (Inr b)
    then obtain s' st' w' where it: "watch_iteration pid s st w = Inr (s', st', w')"
      by (cases b) auto
    with True assms obtain r where "watch_loop pid s' st' w' = Some r" by blast
    with True it show ?thesis by (simp add: watch_loop.simps [of pid s st w])
  qed
qed

lemma watch_loop_returns:
  assumes "proc_pass st < 4"
    and "stop_response pid (respond w (length (issued w) + k) ''qstat'')"
  shows "\<exists>r. watch_loop pid s st w = Some r"
  using assms
proof (induction k arbitrary: s st w)
  case 0
  show ?case
  proof (rule watch_loop_returns_step)
    fix s' st' w'
    assume "watch_iteration pid s st w = Inr (s', st', w')"
    with "0.prems"(2) have "\<not> loop_guard st'"
      using stop_response_ends by simp
    then show "\<exists>r. watch_loop pid s' st' w' = Some r"
      by (simp add: watch_loop.simps)
  qed
next
  case (Suc k)
  show ?case
  proof (rule watch_loop_returns_step)
    fix s' st' w'
    assume it: "watch_iteration pid s st w = Inr (s', st', w')"
    from watch_iteration_Inr [OF it] Suc.prems(1)
    have pp: "proc_pass st' < 4" and w': "issued w' = issued w @ [''qstat'']"
      and r': "respond w' = respond w"
      by (auto simp: py_print_def)
    from Suc.prems(2) w' r'
    have "stop_response pid (respond w' (length (issued w') + k) ''qstat'')" by simp
    with pp show "\<exists>r. watch_loop pid s' st' w' = Some r"
      using Suc.IH by blast
  qed
qed

lemma watch_job_returns:
  assumes "stop_response pid (respond w (Suc (length (issued w)) + k) ''qstat'')"
  shows "\<exists>r. watch_job pid s w = Some r"
proof (cases "interrupt w = Some 0")
  case True
  then show ?thesis by (simp add: watch_job_def Let_def world_simps)
next
  case False
  define w1 where "w1 = py_print (WARNING @ ''- Processing job -> '' @ pid @ ENDC) NL w"
  define r0 where "r0 = fst (call_command ''qstat'' w1)"
  let ?w2 = "w1\<lparr>issued := issued w1 @ [''qstat'']\<rparr>"
  let ?st0 = "\<lparr>last_result = r0, last_string = [], proc_pass = 0, finished = False, polls = 1\<rparr>"
  have cc: "call_command ''qstat'' w1 = (r0, ?w2)"
    unfolding r0_def by (simp add: call_command_eq)
  have "stop_response pid (respond ?w2 (length (issued ?w2) + k) ''qstat'')"
    using assms by (simp add: w1_def world_simps)
  then obtain r where loop: "watch_loop pid s ?st0 ?w2 = Some r"
    using watch_loop_returns [of ?st0 pid ?w2 k s] by auto
  from False have i1: "interrupt w1 \<noteq> Some 0" by (simp add: w1_def world_simps)
  show ?thesis
    unfolding watch_job_def Let_def w1_def [symmetric] using i1 loop by (cases r) (simp_all add: cc)
qed

lemma watch_job_checks:
  assumes "watch_job pid s w = Some (Inr (s', w'))"
  shows "checks w' = checks w"
proof -
  let ?w1 = "py_print (WARNING @ ''- Processing job -> '' @ pid @ ENDC) NL w"
  let ?w2 = "?w1\<lparr>issued := issued ?w1 @ [''qstat'']\<rparr>"
  let ?st0 = "\<lparr>last_result = fst (call_command ''qstat'' ?w1), last_string = [], proc_pass = 0,
               finished = False, polls = 1\<rparr>"
  have False0: "interrupt w \<noteq> Some 0"
    using assms by (auto simp: watch_job_def world_simps)
  with assms obtain r' where loop: "watch_loop pid s ?st0 ?w2 = Some r'"
    by (auto simp: watch_job_def world_simps call_command_eq split: prod.splits option.splits)
  have "qstat_ext w ?w2"
    by (auto simp: qstat_ext_def world_simps intro: exI [of _ 1])
  from this watch_loop_frame [OF loop] have ext: "qstat_ext w (end_world r')"
    by (rule qstat_ext_trans)
  show ?thesis
  proof (cases r')
    case (W_Done s'' st w3)
    with ext False0 assms loop show ?thesis
      by (auto simp: watch_job_def Let_def end_world_def qstat_ext_def world_simps call_command_eq
          split: prod.splits if_splits)
  next
    case (W_Interrupted s'' w3)
    with False0 assms loop show ?thesis
      by (auto simp: watch_job_def Let_def world_simps call_command_eq split: prod.splits)
  next
    case (W_Raised e s'' w3)
    with False0 assms loop show ?thesis
      by (auto simp: watch_job_def Let_def world_simps call_command_eq split: prod.splits)
  qed
qed

lemma is_status_line_status_line: "is_status_line (status_line cur)"
  by (simp add: is_status_line_def status_line_def starts_with_prefix)

lemma watch_iteration_wf:
  "watch_iteration pid s st w = Inr (s', st', w') \<Longrightarrow> wf_watch st \<Longrightarrow> wf_watch st'"
  by (auto simp: watch_iteration_def Let_def wf_watch_def render_def is_status_line_status_line
      split: prod.splits sum.splits if_splits)

lemma watch_iteration_Inl_wf:
  assumes "watch_iteration pid s st w = Inl (e, s', w')" and "wf_watch st"
  shows "scan_lines pid \<lparr>cur_status = [], cpu_time = cpu_time_used s, ended = finished st\<rparr>
           (listing_lines (stdout (fst (call_command ''qstat'' w)))) = Inl e"
proof (cases "scan_lines pid \<lparr>cur_status = [], cpu_time = cpu_time_used s, ended = finished st\<rparr>
                (listing_lines (stdout (fst (call_command ''qstat'' w))))")
  case (Inl e')
  with assms(1) show ?thesis
    by (simp add: watch_iteration_def Let_def split: prod.splits)
next
  case (Inr sc)
  let ?st2 = "st\<lparr>last_result := fst (call_command ''qstat'' w), polls := Suc (polls st),
                 finished := (ended sc \<or> cur_status sc = [])\<rparr>"
  from assms(2) obtain line st3 where "render (cur_status sc) ?st2 = Inr (line, st3)"
    using render_ok [of ?st2 "cur_status sc"] by (auto simp: wf_watch_def)
  with Inr assms(1) show ?thesis
    by (simp add: watch_iteration_def Let_def split: prod.splits)
qed


lemma watch_loop_invariant:
  assumes ret: "watch_loop pid s st w = Some r" and start: "P s st w"
    and step: "\<And>s st w s' st' w'. P s st w \<Longrightarrow> loop_guard st \<Longrightarrow>
                 watch_iteration pid s st w = Inr (s', st', w') \<Longrightarrow> P s' st' w'"
  shows "case r of
           W_Done s' st' w' \<Rightarrow> P s' st' w'
         | W_Interrupted s' w' \<Rightarrow> (\<exists>st'. P s' st' w')
         | W_Raised e s' w' \<Rightarrow> (\<exists>s0 st0 w0. P s0 st0 w0 \<and> watch_iteration pid s0 st0 w0 = Inl (e, s', w'))"
  (is "?Q r")
proof -
  have "pid = pid \<longrightarrow> P s st w \<longrightarrow> ?Q r"
  proof (rule watch_loop.raw_induct [where P = "\<lambda>q s st w r. q = pid \<longrightarrow> P s st w \<longrightarrow> ?Q r", OF _ ret])
    fix loop q s st w r
    assume IH: "\<And>q s st w r. loop q s st w = Some r \<Longrightarrow> q = pid \<longrightarrow> P s st w \<longrightarrow> ?Q r"
      and body: "(if loop_guard st then
        (if interrupt w = Some (polls st) then Some (W_Interrupted s w)
         else (case watch_iteration q s st w of
                 Inl (e, s', w') \<Rightarrow> Some (W_Raised e s' w')
               | Inr (s', st', w') \<Rightarrow> loop q s' st' w'))
      else Some (W_Done s st w)) = Some r"
    show "q = pid \<longrightarrow> P s st w \<longrightarrow> ?Q r"
    proof (intro impI)
      assume q: "q = pid" and p: "P s st w"
      show "?Q r"
      proof (cases "loop_guard st \<and> interrupt w \<noteq> Some (polls st)")
        case False
        with body p show ?thesis by (auto split: if_splits)
      next
        case True
        show ?thesis
        proof (cases "watch_iteration pid s st w")
          case (Inl a)
          then obtain e s' w' where it: "watch_iteration pid s st w = Inl (e, s', w')" by (cases a) auto
          with True body q have "r = W_Raised e s' w'" by simp
          with it p show ?thesis by auto
        next
          case (Inr b)
          then obtain s' st' w' where it: "watch_iteration pid s st w = Inr (s', st', w')" by (cases b) auto
          with True body q have "loop pid s' st' w' = Some r" by simp
          with IH step [OF p _ it] True show ?thesis by blast
        qed
      qed
    qed
  qed
  with start show ?thesis by blast
qed

lemma watch_loop_raised:
  assumes "watch_loop pid s st w = Some (W_Raised e s' w')" and "wf_watch st"
  shows "e = IndexError"
proof -
  from watch_loop_invariant [OF assms(1), of "\<lambda>s st w. wf_watch st"] assms(2) watch_iteration_wf
  obtain s0 st0 w0 where "wf_watch st0" "watch_iteration pid s0 st0 w0 = Inl (e, s', w')" by auto
  from watch_iteration_Inl_wf [OF this(2,1)] show ?thesis
    by (simp add: scan_lines_eq split: if_splits)
qed

lemma watch_job_raised:
  assumes "watch_job pid s w = Some (Inl (Raised e, s', w'))"
  shows "e = IndexError"
proof -
  let ?w1 = "py_print (WARNING @ ''- Processing job -> '' @ pid @ ENDC) NL w"
  let ?w2 = "?w1\<lparr>issued := issued ?w1 @ [''qstat'']\<rparr>"
  let ?st0 = "\<lparr>last_result = fst (call_command ''qstat'' ?w1), last_string = [], proc_pass = 0,
               finished = False, polls = 1\<rparr>"
  have ni: "interrupt w \<noteq> Some 0"
    using assms by (auto simp: watch_job_def cancel_job_def Let_def world_simps split: prod.splits if_splits)
  with assms obtain r where loop: "watch_loop pid s ?st0 ?w2 = Some r"
    by (auto simp: watch_job_def world_simps call_command_eq split: prod.splits option.splits)
  have wf0: "wf_watch ?st0" by (simp add: wf_watch_def)
  show ?thesis
  proof (cases r)
    case (W_Raised e' s'' w'')
    with ni assms loop have "e' = e"
      by (auto simp: watch_job_def Let_def world_simps call_command_eq split: prod.splits)
    with watch_loop_raised [OF loop [unfolded W_Raised] wf0] show ?thesis by simp
  qed (use ni assms loop in \<open>auto simp: watch_job_def cancel_job_def Let_def world_simps call_command_eq
        split: prod.splits if_splits\<close>)
qed

section \<open>Interrupted polling\<close>

lemma keeps_polling_strip:
  "keeps_polling pid (rc, so, se) \<Longrightarrow> py_strip so \<noteq> []"
  by (auto simp: keeps_polling_def listing_lines_strip_empty py_tokens_Nil)

lemma keeps_polling_iteration:
  assumes "proc_pass st < 4" and "\<not> finished st"
    and kp: "keeps_polling pid (respond w (length (issued w)) ''qstat'')"
  shows "\<exists>st' w'. watch_iteration pid s st w = Inr (s, st', w') \<and> loop_guard st' \<and>
           proc_pass st' < 4 \<and> polls st' = Suc (polls st) \<and> qstat_ext w w' \<and>
           issued w' = issued w @ [''qstat'']"
proof -
  obtain rc so se where resp: "respond w (length (issued w)) ''qstat'' = (rc, so, se)"
    by (rule respond_triple)
  let ?sc0 = "\<lparr>cur_status = [], cpu_time = cpu_time_used s, ended = finished st\<rparr>"
  let ?ls = "listing_lines so"
  from kp resp have rc: "rc = 0" and listed: "\<exists>l \<in> set ?ls. matches pid l"
    and no_exit: "\<forall>l \<in> set ?ls. matches pid l \<longrightarrow> 2 \<le> length (py_tokens l) \<and> field_from_end 2 l \<noteq> ''E''"
    by (auto simp: keeps_polling_def)
  have "list_all (line_ok pid) ?ls"
    using no_exit by (auto simp: list_all_iff line_ok_def)
  then have scan: "scan_lines pid ?sc0 ?ls = Inr (scan_spec pid ?sc0 ?ls)"
    by (simp add: scan_lines_eq)
  have es: "filter (\<lambda>l. field_from_end 2 l = ''E'') (filter (matches pid) ?ls) = []"
    using no_exit by (auto simp: filter_empty_conv)
  from listed have ms: "filter (matches pid) ?ls \<noteq> []"
    by (auto simp: filter_empty_conv)
  with es assms(2) have spec: "cur_status (scan_spec pid ?sc0 ?ls) \<noteq> [] \<and>
      \<not> ended (scan_spec pid ?sc0 ?ls) \<and> cpu_time (scan_spec pid ?sc0 ?ls) = cpu_time_used s"
    by (simp add: scan_spec_def Let_def job_state_get_not_Nil)
  from scan assms(1) resp obtain x where it: "watch_iteration pid s st w = Inr x"
    using watch_iteration_ok [of st pid s w] by (auto simp: call_command_def)
  obtain s' st' w' where x: "x = (s', st', w')" by (cases x) auto
  from kp resp have strip: "py_strip so \<noteq> []" by (simp add: keeps_polling_strip)
  from watch_iteration_Inr [OF it [unfolded x]] scan spec resp strip rc assms(1)
  have "s' = s" and "loop_guard st'" and "proc_pass st' < 4" and "polls st' = Suc (polls st)"
    and "issued w' = issued w @ [''qstat'']" and "qstat_ext w w'"
    by (auto simp: call_command_def loop_guard_def qstat_ext_def world_simps intro: exI [of _ 1])
  with it x show ?thesis by auto
qed

lemma watch_loop_interrupted:
  assumes "interrupt w = Some (polls st + k)" and "loop_guard st" and "proc_pass st < 4"
    and "\<forall>j<k. keeps_polling pid (respond w (length (issued w) + j) ''qstat'')"
  shows "\<exists>w'. watch_loop pid s st w = Some (W_Interrupted s w') \<and> qstat_ext w w' \<and>
           issued w' = issued w @ replicate k ''qstat''"
  using assms
proof (induction k arbitrary: st w)
  case 0
  then show ?case by (auto simp: watch_loop.simps [of pid s st w] intro: qstat_ext_refl)
next
  case (Suc k)
  from Suc.prems(2) have nf: "\<not> finished st" by (simp add: loop_guard_def)
  from Suc.prems(4) have "keeps_polling pid (respond w (length (issued w)) ''qstat'')"
    by (metis add_0_right zero_less_Suc)
  from keeps_polling_iteration [OF Suc.prems(3) nf this] obtain st' w' where
    it: "watch_iteration pid s st w = Inr (s, st', w')" and g: "loop_guard st'" and pp: "proc_pass st' < 4"
    and ps: "polls st' = Suc (polls st)" and ext: "qstat_ext w w'" and iw: "issued w' = issued w @ [''qstat'']"
    by blast
  from ext have env: "interrupt w' = interrupt w" "respond w' = respond w" by (simp_all add: qstat_ext_def)
  have "interrupt w' = Some (polls st' + k)" using Suc.prems(1) env ps by simp
  moreover have "\<forall>j<k. keeps_polling pid (respond w' (length (issued w') + j) ''qstat'')"
    using Suc.prems(4) env iw by auto
  ultimately obtain w'' where loop: "watch_loop pid s st' w' = Some (W_Interrupted s w'')"
    and ext': "qstat_ext w' w''" and iw': "issued w'' = issued w' @ replicate k ''qstat''"
    using Suc.IH [OF _ g pp] by blast
  have "interrupt w \<noteq> Some (polls st)" using Suc.prems(1) by simp
  with Suc.prems(2) it loop have "watch_loop pid s st w = Some (W_Interrupted s w'')"
    by (simp add: watch_loop.simps [of pid s st w])
  moreover have "qstat_ext w w''" using ext ext' by (rule qstat_ext_trans)
  moreover have "issued w'' = issued w @ replicate (Suc k) ''qstat''"
    using iw iw' by (simp add: replicate_append_same)
  ultimately show ?case by blast
qed

lemma watch_job_interrupted:
  assumes "interrupt w = Some k"
    and "\<forall>j<k. keeps_polling pid (respond w (length (issued w) + j) ''qstat'')"
  shows "\<exists>w'. watch_job pid s w = Some (Inl (cancel_job pid s w')) \<and> qstat_ext w w' \<and>
           issued w' = issued w @ replicate k ''qstat''"
proof (cases k)
  case 0
  with assms(1) show ?thesis
    by (auto simp: watch_job_def Let_def world_simps qstat_ext_def intro: exI [of _ 0])
next
  case (Suc k')
  define w1 where "w1 = py_print (WARNING @ ''- Processing job -> '' @ pid @ ENDC) NL w"
  define r0 where "r0 = fst (call_command ''qstat'' w1)"
  let ?w2 = "w1\<lparr>issued := issued w1 @ [''qstat'']\<rparr>"
  let ?st0 = "\<lparr>last_result = r0, last_string = [], proc_pass = 0, finished = False, polls = 1\<rparr>"
  have cc: "call_command ''qstat'' w1 = (r0, ?w2)"
    unfolding r0_def by (simp add: call_command_eq)
  obtain rc so se where resp: "respond w (length (issued w)) ''qstat'' = (rc, so, se)"
    by (rule respond_triple)
  from assms(2) Suc have "keeps_polling pid (respond w (length (issued w)) ''qstat'')"
    by (metis add_0_right zero_less_Suc)
  with resp have "rc = 0" and "py_strip so \<noteq> []"
    by (auto simp: keeps_polling_def keeps_polling_strip)
  with resp have g: "loop_guard ?st0"
    by (simp add: r0_def loop_guard_def w1_def world_simps)
  have "interrupt ?w2 = Some (polls ?st0 + k')" using assms(1) Suc by (simp add: w1_def world_simps)
  moreover have "\<forall>j<k'. keeps_polling pid (respond ?w2 (length (issued ?w2) + j) ''qstat'')"
    using assms(2) Suc by (auto simp: w1_def world_simps)
  ultimately obtain w' where loop: "watch_loop pid s ?st0 ?w2 = Some (W_Interrupted s w')"
    and ext: "qstat_ext ?w2 w'" and iw: "issued w' = issued ?w2 @ replicate k' ''qstat''"
    using watch_loop_interrupted [OF _ g] by fastforce
  have i1: "interrupt w1 \<noteq> Some 0" using assms(1) Suc by (simp add: w1_def world_simps)
  have "watch_job pid s w = Some (Inl (cancel_job pid s w'))"
    unfolding watch_job_def Let_def w1_def [symmetric] using i1 loop by (simp add: cc)
  moreover have "qstat_ext w w'"
    using ext by (auto simp: qstat_ext_def w1_def world_simps intro: exI [of _ "Suc _"])
  moreover have "issued w' = issued w @ replicate k ''qstat''"
    using iw Suc by (simp add: w1_def world_simps replicate_append_same)
  ultimately show ?thesis by blast
qed

lemma cancel_job_outcome:
  "fst (cancel_job pid s w) =
     Returned (if fst (respond w (length (issued w)) (qdel_command pid)) = 0 then Aborted else CancelFailed)"
  by (cases "respond w (length (issued w)) (qdel_command pid)")
     (simp add: cancel_job_def call_command_def Let_def world_simps)

lemmas eval_defs = init_world_def call_command_def watch_iteration_def scan_lines_eq line_ok_def
  matches_def py_find_def field_from_end_def py_tokens_def listing_lines_def py_strip_def
  is_py_space_def scan_spec_def render_def status_line_def py_index_def bar_def loop_guard_def
  py_print_def job_state_get_def job_state_def Let_def


text \<open>C13: Implicit exit: when the job is still polled and the next status query succeeds with a listing in which no line contains the job id, the loop ends after that one query, with the job object unchanged.\<close>

theorem implicit_exit:
  assumes "loop_guard st" and "interrupt w \<noteq> Some (polls st)" and "proc_pass st < 4"
    and resp: "respond w (length (issued w)) ''qstat'' = (0, so, se)"
    and gone: "\<forall>l \<in> set (listing_lines so). \<not> matches pid l"
  shows "\<exists>st' w'. watch_loop pid s st w = Some (W_Done s st' w') \<and> issued w' = issued w @ [''qstat'']"
proof -
  let ?sc = "\<lparr>cur_status = [], cpu_time = cpu_time_used s, ended = finished st\<rparr>"
  from gone have "list_all (line_ok pid) (listing_lines so)"
    by (simp add: list_all_iff line_ok_def)
  with gone have scan: "scan_lines pid ?sc (listing_lines so) = Inr ?sc"
    by (simp add: scan_lines_eq scan_spec_no_match)
  with assms(3) resp obtain x where it: "watch_iteration pid s st w = Inr x"
    using watch_iteration_ok [of st pid s w ?sc] by (auto simp: call_command_def)
  obtain s' st' w' where x: "x = (s', st', w')" by (cases x) auto
  from watch_iteration_Inr [OF it [unfolded x]] scan resp
  have s': "s' = s" and fin: "finished st'" and w': "issued w' = issued w @ [''qstat'']"
    by (auto simp: call_command_def world_simps)
  from fin have "watch_loop pid s' st' w' = Some (W_Done s' st' w')"
    by (simp add: watch_loop.simps loop_guard_def)
  with assms(1,2) it x s' w' show ?thesis
    by (auto simp: watch_loop.simps [of pid s st w])
qed

theorem implicit_exit_witness:
  "\<exists>st' w'. watch_loop ''123.host'' (new_submit ''demo'' (Some 4) (Some 1) []) st_fixture
       (init_world (\<lambda>n c. (0, ''99.host other.run bob 00:01 R batch'', [])) None Map.empty {} (\<lambda>_. Map.empty))
     = Some (W_Done (new_submit ''demo'' (Some 4) (Some 1) []) st' w') \<and> issued w' = [''qstat'']"
  using implicit_exit [of st_fixture "init_world (\<lambda>n c. (0, ''99.host other.run bob 00:01 R batch'', [])) None Map.empty {} (\<lambda>_. Map.empty)"
      "''99.host other.run bob 00:01 R batch''" "[]" "''123.host''" "new_submit ''demo'' (Some 4) (Some 1) []"]
  by (simp add: eval_defs)

text \<open>Spinner: two consecutive renders of the same status print the status line, then the same line followed by one of the four spinner glyphs.\<close>

theorem spinner_on_repeat:
  assumes "proc_pass st < 4" and "last_string st \<noteq> status_line cur"
  shows "\<exists>st1 st2 g. render cur st = Inr (status_line cur, st1) \<and>
           render cur st1 = Inr (status_line cur @ g, st2) \<and> g \<in> set bar"
proof -
  let ?st1 = "st\<lparr>last_string := status_line cur\<rparr>"
  have first: "render cur st = Inr (status_line cur, ?st1)"
    using assms(2) by (simp add: render_def Let_def)
  have "render cur ?st1 = Inr (status_line cur @ bar ! proc_pass st,
                               ?st1\<lparr>proc_pass := (proc_pass st + 1) mod 4\<rparr>)"
    using assms(1) by (simp add: render_def Let_def py_index_bar)
  moreover have "bar ! proc_pass st \<in> set bar"
    using assms(1) by (intro nth_mem) (simp add: bar_def)
  ultimately show ?thesis using first by blast
qed

theorem spinner_on_repeat_witness:
  "\<exists>st1 st2 g. render ''job is running    '' st_fixture = Inr (status_line ''job is running    '', st1) \<and>
     render ''job is running    '' st1 = Inr (status_line ''job is running    '' @ g, st2) \<and> g \<in> set bar"
  using spinner_on_repeat [of st_fixture "''job is running    ''"]
  by (simp add: status_line_def)

text \<open>C14: The CPU time of the job object changes only in an iteration after which the loop stops, so it is recorded once, at the exiting observation, and never overwritten by a later poll.\<close>

theorem cpu_time_recorded_only_at_exit:
  assumes it: "watch_iteration pid s st w = Inr (s', st', w')"
    and changed: "cpu_time_used s' \<noteq> cpu_time_used s"
  shows "\<not> loop_guard st'"
proof -
  from watch_iteration_Inr [OF it] obtain sc where
    scan: "scan_lines pid \<lparr>cur_status = [], cpu_time = cpu_time_used s, ended = finished st\<rparr>
             (listing_lines (stdout (fst (call_command ''qstat'' w)))) = Inr sc"
    and s': "s' = s\<lparr>cpu_time_used := cpu_time sc\<rparr>"
    and fin: "finished st' = (ended sc \<or> cur_status sc = [])"
    by blast
  from scan have "sc = scan_spec pid \<lparr>cur_status = [], cpu_time = cpu_time_used s, ended = finished st\<rparr>
             (listing_lines (stdout (fst (call_command ''qstat'' w))))"
    by (simp add: scan_lines_eq split: if_splits)
  with changed s' have "ended sc"
    by (auto simp: scan_spec_def Let_def split: if_splits)
  with fin show ?thesis by (simp add: loop_guard_def)
qed

theorem cpu_time_recorded_only_at_exit_witness:
  "\<exists>s' st' w'. watch_iteration ''123.host'' (new_submit ''demo'' (Some 4) (Some 1) []) st_fixture
       (init_world (\<lambda>n c. (0, ''123.host demo.run bob 00:05 E batch'', [])) None Map.empty {} (\<lambda>_. Map.empty))
     = Inr (s', st', w') \<and> cpu_time_used s' = ''00:05'' \<and> \<not> loop_guard st'"
proof -
  have "\<exists>x. watch_iteration ''123.host'' (new_submit ''demo'' (Some 4) (Some 1) []) st_fixture
       (init_world (\<lambda>n c. (0, ''123.host demo.run bob 00:05 E batch'', [])) None Map.empty {} (\<lambda>_. Map.empty))
     = Inr x"
    by (simp add: eval_defs)
  then obtain s' st' w' where it: "watch_iteration ''123.host'' (new_submit ''demo'' (Some 4) (Some 1) []) st_fixture
       (init_world (\<lambda>n c. (0, ''123.host demo.run bob 00:05 E batch'', [])) None Map.empty {} (\<lambda>_. Map.empty))
     = Inr (s', st', w')"
    by auto
  from watch_iteration_Inr [OF it] have cpu: "cpu_time_used s' = ''00:05''"
    by (auto simp: eval_defs)
  then have "cpu_time_used s' \<noteq> cpu_time_used (new_submit ''demo'' (Some 4) (Some 1) [])"
    by (simp add: new_submit_def)
  with it cpu show ?thesis
    using cpu_time_recorded_only_at_exit [OF it] by blast
qed

text \<open>C15: A listing in which the job still appears, with well-formed lines and no exiting status (queued, running, completed, or an unknown code decoded as undefined), keeps the loop polling and leaves the CPU time alone.\<close>

theorem non_exit_status_keeps_polling:
  assumes "proc_pass st < 4" and "\<not> finished st"
    and resp: "respond w (length (issued w)) ''qstat'' = (0, so, se)"
    and listed: "\<exists>l \<in> set (listing_lines so). matches pid l"
    and no_exit: "\<forall>l \<in> set (listing_lines so). matches pid l \<longrightarrow>
                    2 \<le> length (py_tokens l) \<and> field_from_end 2 l \<noteq> ''E''"
  shows "\<exists>st' w'. watch_iteration pid s st w = Inr (s, st', w') \<and> loop_guard st'"
proof -
  from resp listed no_exit have "keeps_polling pid (respond w (length (issued w)) ''qstat'')"
    by (simp add: keeps_polling_def)
  from keeps_polling_iteration [OF assms(1,2) this] show ?thesis by blast
qed


theorem non_exit_status_keeps_polling_witness:
  "\<exists>st' w'. watch_iteration ''123.host'' (new_submit ''demo'' (Some 4) (Some 1) []) st_fixture
       (init_world (\<lambda>n c. (0, ''123.host demo.run bob 00:09 C batch'', [])) None Map.empty {} (\<lambda>_. Map.empty))
     = Inr (new_submit ''demo'' (Some 4) (Some 1) [], st', w') \<and> loop_guard st'"
  using non_exit_status_keeps_polling [of st_fixture
      "init_world (\<lambda>n c. (0, ''123.host demo.run bob 00:09 C batch'', [])) None Map.empty {} (\<lambda>_. Map.empty)"
      "''123.host demo.run bob 00:09 C batch''" "[]" "''123.host''" "new_submit ''demo'' (Some 4) (Some 1) []"]
  by (simp add: eval_defs)

text \<open>C12: Well-formedness of the loop state is an invariant of the poll loop: from a state whose spinner index is below 4, with the initial query made and the last rendered string empty or a status line, every normal exit of the loop is in such a state; so indexing the spinner glyphs never fails.\<close>

theorem wf_watch_invariant:
  assumes "watch_loop pid s st w = Some (W_Done s' st' w')" and "wf_watch st"
  shows "wf_watch st'"
  using watch_loop_invariant [OF assms(1), of "\<lambda>s st w. wf_watch st"] assms(2) watch_iteration_wf
  by auto

text \<open>Witness: the loop leaving at once on a listing without the job.\<close>

theorem wf_watch_invariant_witness:
  "\<exists>s' st' w'. watch_loop ''123.host'' (new_submit ''demo'' (Some 4) (Some 1) []) st_fixture
       (init_world (\<lambda>n c. (0, ''99.host other.run bob 00:01 R batch'', [])) None Map.empty {} (\<lambda>_. Map.empty))
     = Some (W_Done s' st' w') \<and> wf_watch st_fixture \<and> wf_watch st'"
proof -
  let ?w = "init_world (\<lambda>n c. (0, ''99.host other.run bob 00:01 R batch'', [])) None Map.empty {} (\<lambda>_. Map.empty)"
  have "\<exists>x. watch_iteration ''123.host'' (new_submit ''demo'' (Some 4) (Some 1) []) st_fixture ?w = Inr x"
    by (simp add: eval_defs)
  then obtain s1 st1 w1 where it: "watch_iteration ''123.host'' (new_submit ''demo'' (Some 4) (Some 1) []) st_fixture ?w = Inr (s1, st1, w1)"
    by auto
  from watch_iteration_Inr [OF it] have "finished st1" by (auto simp: eval_defs)
  then have done1: "watch_loop ''123.host'' s1 st1 w1 = Some (W_Done s1 st1 w1)"
    by (simp add: watch_loop.simps loop_guard_def)
  have ni: "interrupt ?w = None" by (simp add: init_world_def)
  have r: "watch_loop ''123.host'' (new_submit ''demo'' (Some 4) (Some 1) []) st_fixture ?w = Some (W_Done s1 st1 w1)"
    by (subst watch_loop.simps, simp only: it ni done1 sum.case prod.case)
       (simp add: loop_guard_def py_strip_def is_py_space_def)
  have wf: "wf_watch st_fixture" by (simp add: wf_watch_def)
  from r wf wf_watch_invariant [OF r wf] show ?thesis by blast
qed

end
