(* ===== verification/Collect.thy ===== *)
theory Collect
  imports Watch
begin

text \<open>
  The output collector, lines 181--209 of \<open>Submit.run\<close>: print the CPU time, name
  the job's output files \<open><project>.o<id>\<close> and \<open><project>.e<id>\<close> from the
  part of the job id before the first dot, create \<open>log\<close> (an existing one is
  fine), spin until an output file exists, move both files into \<open>log\<close> and print
  their contents. The spin has no bound, so it is a \<open>partial_function (option)\<close>.
  This code is also reached when the project does not exist, with \<open>process_id\<close>
  never assigned: that path is the \<open>None\<close> job id below.
\<close>

section \<open>The output file names\<close>

definition id_prefix :: "job_id \<Rightarrow> string" where
  "id_prefix pid = hd (split_on CHR ''.'' pid)"

definition output_files :: "string \<Rightarrow> job_id \<Rightarrow> path \<times> path" where
  "output_files proj pid = (proj @ ''.o'' @ id_prefix pid, proj @ ''.e'' @ id_prefix pid)"

section \<open>The log directory\<close>

text \<open>Lines 187--193: \<open>EEXIST\<close> (errno 17) is ignored, any other errno re-raised.\<close>

definition make_log_dir :: "world \<Rightarrow> (py_exc \<times> world) + world" where
  "make_log_dir w =
     (case os_mkdir ''log'' w of
        Inl errno \<Rightarrow> (if errno = 17 then Inr w else Inl (OSError errno, w))
      | Inr w' \<Rightarrow> Inr w')"

section \<open>Waiting for the output files\<close>

text \<open>Line 194: \<open>while not isfile(f_stdout) and not isfile(f_stderr): pass\<close>.\<close>

partial_function (option) wait_files :: "path \<Rightarrow> path \<Rightarrow> world \<Rightarrow> world option" where
  "wait_files f1 f2 w =
     (let w' = land w in
      if \<not> os_path_isfile f1 w' \<and> \<not> os_path_isfile f2 w' then wait_files f1 f2 w' else Some w')"

section \<open>Moving and showing the files\<close>

text \<open>Lines 197--209; the \<open>time.sleep(1.5)\<close> of line 196 before them is one more
  slot in which the job's writes land (\<open>land\<close> in \<open>collect\<close>).\<close>

definition show_file :: "path \<Rightarrow> world \<Rightarrow> (py_exc \<times> world) + world" where
  "show_file p w = (case read_file p w of Inl e \<Rightarrow> Inl (e, w) | Inr c \<Rightarrow> Inr (py_print c NL w))"

definition move_and_show :: "path \<Rightarrow> path \<Rightarrow> world \<Rightarrow> outcome \<times> world" where
  "move_and_show f_out f_err w =
     (case shutil_move f_out ''log'' w of
        Inl e \<Rightarrow> (Raised e, w)
      | Inr w1 \<Rightarrow>
     (case shutil_move f_err ''log'' w1 of
        Inl e \<Rightarrow> (Raised e, w1)
      | Inr w2 \<Rightarrow>
     (let w3 = py_print (OKGREEN @ ''!!! Output files moved in log folder !!!'' @ ENDC) NL w2;
          w4 = py_print (OKGREEN @ ''@ Results: '' @ ENDC) (NL @ NL) w3;
          w5 = py_print (OKGREEN @ ''----- STDOUT -----'' @ ENDC) NL w4
      in case show_file (''log/'' @ f_out) w5 of
           Inl (e, w6) \<Rightarrow> (Raised e, w6)
         | Inr w6 \<Rightarrow>
     (let w7 = py_print (OKGREEN @ ''----- END STDOUT -----'' @ ENDC) NL w6;
          w8 = py_print (FAIL @ ''----- STDERR -----'' @ ENDC) NL w7
      in case show_file (''log/'' @ f_err) w8 of
           Inl (e, w9) \<Rightarrow> (Raised e, w9)
         | Inr w9 \<Rightarrow>
             (Returned Collected, py_print (FAIL @ ''----- END STDERR -----'' @ ENDC) NL w9)))))"

section \<open>The collector\<close>

definition collect :: "submit \<Rightarrow> job_id option \<Rightarrow> world \<Rightarrow> (outcome \<times> submit \<times> world) option" where
  "collect s pid w =
     (let w1 = py_print (OKGREEN @ ''-> CPU USED: '' @ cpu_time_used s @ '' <-'' @ ENDC) NL w;
          w2 = py_print (OKGREEN @ ''------ End submit ------'' @ ENDC) (NL @ NL) w1
      in case pid of
           None \<Rightarrow> Some (Raised (UnboundLocalError ''process_id''), s, w2)
         | Some p \<Rightarrow>
             (let (f_out, f_err) = output_files (project s) p
              in case make_log_dir w2 of
                   Inl (e, w3) \<Rightarrow> Some (Raised e, s, w3)
                 | Inr w3 \<Rightarrow>
                     (case wait_files f_out f_err w3 of
                        None \<Rightarrow> None
                      | Some w4 \<Rightarrow>
                          (case move_and_show f_out f_err (land w4) of (oc, w5) \<Rightarrow> Some (oc, s, w5)))))"

section \<open>Lemmas\<close>

lemma collect_None:
  "collect s None w = Some (oc, s', w') \<Longrightarrow> oc = Raised (UnboundLocalError ''process_id'') \<and> issued w' = issued w"
  by (auto simp: collect_def Let_def world_simps)

lemma wait_files_frame:
  assumes ret: "wait_files f1 f2 w = Some w'"
  shows "issued w' = issued w \<and> env_frame w w' \<and> dirs w' = dirs w"
proof (rule wait_files.raw_induct [where P = "\<lambda>f1 f2 w w'. issued w' = issued w \<and> env_frame w w' \<and> dirs w' = dirs w", OF _ ret])
  fix wait f1 f2 w w'
  assume IH: "\<And>f1 f2 w w'. wait f1 f2 w = Some w' \<Longrightarrow> issued w' = issued w \<and> env_frame w w' \<and> dirs w' = dirs w"
    and body: "(let w' = land w in
        if \<not> os_path_isfile f1 w' \<and> \<not> os_path_isfile f2 w' then wait f1 f2 w' else Some w') = Some w'"
  show "issued w' = issued w \<and> env_frame w w' \<and> dirs w' = dirs w"
  proof (cases "\<not> os_path_isfile f1 (land w) \<and> \<not> os_path_isfile f2 (land w)")
    case True
    with body have "wait f1 f2 (land w) = Some w'" by (simp add: Let_def)
    from IH [OF this] land_effect [of w] show ?thesis by (simp add: env_frame_def)
  next
    case False
    with body land_effect [of w] show ?thesis by (auto simp: Let_def)
  qed
qed

lemma make_log_dir_effect:
  "make_log_dir w = Inr w' \<Longrightarrow> issued w' = issued w \<and> env_frame w w' \<and> files w' = files w"
  "make_log_dir w = Inl (e, w') \<Longrightarrow> issued w' = issued w \<and> env_frame w w' \<and> files w' = files w"
  by (auto simp: make_log_dir_def os_mkdir_def env_frame_def split: sum.splits if_splits)

lemma show_file_effect:
  "show_file p w = Inr w' \<Longrightarrow> issued w' = issued w \<and> env_frame w w'"
  "show_file p w = Inl (e, w') \<Longrightarrow> w' = w"
  by (auto simp: show_file_def env_frame_def world_simps split: sum.splits)

lemma shutil_move_env:
  "shutil_move src dst w = Inr w' \<Longrightarrow> issued w' = issued w \<and> env_frame w w'"
  by (auto simp: shutil_move_def Let_def env_frame_def split: if_splits option.splits)

lemma move_and_show_effect:
  assumes "move_and_show f1 f2 w = (oc, w')"
  shows "issued w' = issued w \<and> env_frame w w' \<and> (oc = Returned Collected \<or> (\<exists>e. oc = Raised e))"
  using assms
  by (auto simp: move_and_show_def Let_def env_frame_def world_simps
      dest!: shutil_move_env show_file_effect split: sum.splits prod.splits)

lemma collect_effect:
  assumes "collect s pid w = Some (oc, s', w')"
  shows "issued w' = issued w \<and> env_frame w w' \<and> s' = s \<and> (oc = Returned Collected \<or> (\<exists>e. oc = Raised e))"
proof (cases pid)
  case None
  with assms show ?thesis by (auto simp: collect_def Let_def env_frame_def world_simps)
next
  case (Some p)
  obtain f1 f2 where of: "output_files (project s) p = (f1, f2)" by (cases "output_files (project s) p") auto
  let ?w2 = "py_print (OKGREEN @ ''------ End submit ------'' @ ENDC) (NL @ NL)
               (py_print (OKGREEN @ ''-> CPU USED: '' @ cpu_time_used s @ '' <-'' @ ENDC) NL w)"
  have w2: "issued ?w2 = issued w \<and> env_frame w ?w2" by (simp add: env_frame_def world_simps)
  show ?thesis
  proof (cases "make_log_dir ?w2")
    case (Inl a)
    then obtain e w3 where "make_log_dir ?w2 = Inl (e, w3)" by (cases a) auto
    with assms Some of w2 make_log_dir_effect(2) [OF this] show ?thesis
      by (auto simp: collect_def Let_def env_frame_def world_simps)
  next
    case (Inr w3)
    with assms Some of obtain w4 where wt: "wait_files f1 f2 w3 = Some w4"
      by (auto simp: collect_def Let_def split: option.splits)
    obtain oc' w5 where mv: "move_and_show f1 f2 (land w4) = (oc', w5)"
      by (cases "move_and_show f1 f2 (land w4)") auto
    from assms Some of Inr wt mv have "oc = oc' \<and> s' = s \<and> w' = w5"
      by (simp add: collect_def Let_def)
    with w2 make_log_dir_effect(1) [OF Inr] wait_files_frame [OF wt] land_effect [of w4] move_and_show_effect [OF mv]
    show ?thesis by (auto simp: env_frame_def)
  qed
qed

lemma wait_files_returns:
  assumes "f1 \<in> dom (writes w (checks w + k)) \<or> f2 \<in> dom (writes w (checks w + k))"
  shows "\<exists>w'. wait_files f1 f2 w = Some w' \<and> (os_path_isfile f1 w' \<or> os_path_isfile f2 w')"
  using assms
proof (induction k arbitrary: w)
  case 0
  then have "os_path_isfile f1 (land w) \<or> os_path_isfile f2 (land w)"
    by (auto simp: os_path_isfile_def land_def)
  then show ?case by (auto simp: wait_files.simps [of f1 f2 w])
next
  case (Suc k)
  show ?case
  proof (cases "os_path_isfile f1 (land w) \<or> os_path_isfile f2 (land w)")
    case True
    then show ?thesis by (auto simp: wait_files.simps [of f1 f2 w])
  next
    case False
    from Suc.prems have "f1 \<in> dom (writes (land w) (checks (land w) + k)) \<or>
                         f2 \<in> dom (writes (land w) (checks (land w) + k))"
      by (simp add: land_def)
    with Suc.IH False show ?thesis by (simp add: wait_files.simps [of f1 f2 w])
  qed
qed

lemma collect_returns:
  assumes of: "output_files (project s) pid = (f1, f2)"
    and lands: "f1 \<in> dom (writes w (checks w + j)) \<or> f2 \<in> dom (writes w (checks w + j))"
  shows "\<exists>r. collect s (Some pid) w = Some r"
proof -
  let ?w2 = "py_print (OKGREEN @ ''------ End submit ------'' @ ENDC) (NL @ NL)
               (py_print (OKGREEN @ ''-> CPU USED: '' @ cpu_time_used s @ '' <-'' @ ENDC) NL w)"
  show ?thesis
  proof (cases "make_log_dir ?w2")
    case (Inl a)
    with of show ?thesis by (cases a) (simp add: collect_def Let_def)
  next
    case (Inr w3)
    have "checks w3 = checks w \<and> writes w3 = writes w"
      using Inr by (auto simp: make_log_dir_def os_mkdir_def world_simps split: sum.splits if_splits)
    with lands obtain w4 where "wait_files f1 f2 w3 = Some w4"
      using wait_files_returns [of f1 w3 j f2] by auto
    with of Inr show ?thesis by (simp add: collect_def Let_def split: prod.splits)
  qed
qed

lemma collect_raised:
  assumes "collect s pid w = Some (Raised e, s', w')"
  shows "e = UnboundLocalError ''process_id'' \<or> (\<exists>p. e = IOError p) \<or> (\<exists>p. e = ShutilError p) \<or> (\<exists>n. e = OSError n)"
  using assms
  by (auto simp: collect_def make_log_dir_def move_and_show_def show_file_def shutil_move_def read_file_def
      Let_def split: option.splits sum.splits prod.splits if_splits)

section \<open>The collector on a job writing its two files\<close>

lemma land_pow_frame:
  "issued ((land ^^ n) w) = issued w \<and> dirs ((land ^^ n) w) = dirs w \<and> writes ((land ^^ n) w) = writes w \<and>
   env_frame w ((land ^^ n) w) \<and> checks ((land ^^ n) w) = checks w + n"
  by (induction n) (simp_all add: land_def env_frame_def)

lemma land_pow_dom:
  "p \<in> dom (files ((land ^^ n) w)) \<longleftrightarrow> p \<in> dom (files w) \<or> (\<exists>i<n. p \<in> dom (writes w (checks w + i)))"
proof (induction n)
  case (Suc n)
  have "p \<in> dom (files ((land ^^ Suc n) w)) \<longleftrightarrow>
        p \<in> dom (files ((land ^^ n) w)) \<or> p \<in> dom (writes w (checks w + n))"
    using land_pow_frame [of n w] by (auto simp: land_files_checks world_simps)
  with Suc show ?case by (auto simp: less_Suc_eq)
qed simp

lemma land_pow_other:
  "\<forall>i<n. p \<notin> dom (writes w (checks w + i)) \<Longrightarrow> files ((land ^^ n) w) p = files w p"
proof (induction n)
  case (Suc n)
  then have "files ((land ^^ n) w) p = files w p" by simp
  moreover have "p \<notin> dom (writes w (checks w + n))" using Suc.prems by simp
  ultimately show ?case using land_pow_frame [of n w]
    by (auto simp: land_files_checks map_add_def world_simps split: option.splits)
qed simp

lemma wait_files_exact:
  assumes "f1 \<notin> dom (files w)" and "f2 \<notin> dom (files w)"
    and "\<forall>i<j. f1 \<notin> dom (writes w (checks w + i)) \<and> f2 \<notin> dom (writes w (checks w + i))"
    and "f1 \<in> dom (writes w (checks w + j)) \<or> f2 \<in> dom (writes w (checks w + j))"
  shows "wait_files f1 f2 w = Some ((land ^^ Suc j) w)"
  using assms
proof (induction j arbitrary: w)
  case 0
  then have "os_path_isfile f1 (land w) \<or> os_path_isfile f2 (land w)"
    by (auto simp: os_path_isfile_def land_def)
  then show ?case by (auto simp: wait_files.simps [of f1 f2 w] Let_def)
next
  case (Suc j)
  from Suc.prems(1-3) have n: "\<not> os_path_isfile f1 (land w) \<and> \<not> os_path_isfile f2 (land w)"
    by (auto simp: os_path_isfile_def land_def)
  have "wait_files f1 f2 (land w) = Some ((land ^^ Suc j) (land w))"
  proof (rule Suc.IH)
    show "f1 \<notin> dom (files (land w))" "f2 \<notin> dom (files (land w))" using n by (simp_all add: os_path_isfile_def)
    show "\<forall>i<j. f1 \<notin> dom (writes (land w) (checks (land w) + i)) \<and> f2 \<notin> dom (writes (land w) (checks (land w) + i))"
      using Suc.prems(3) by (auto simp: land_def)
    show "f1 \<in> dom (writes (land w) (checks (land w) + j)) \<or> f2 \<in> dom (writes (land w) (checks (land w) + j))"
      using Suc.prems(4) by (simp add: land_def)
  qed
  with n show ?case by (simp add: wait_files.simps [of f1 f2 w] Let_def funpow_Suc_right del: funpow.simps)
qed

lemma output_files_distinct:
  "output_files proj pid = (fo, fe) \<Longrightarrow> fo \<noteq> fe \<and> length fo = length fe \<and> fo \<noteq> [] \<and> fe \<noteq> []"
  by (auto simp: output_files_def)

lemma make_log_dir_ok:
  "''log'' \<notin> dom (files w) \<Longrightarrow> make_log_dir w = Inr (w\<lparr>dirs := insert ''log'' (dirs w)\<rparr>)"
  by (auto simp: make_log_dir_def os_mkdir_def os_path_exists_def insert_absorb)

lemma shutil_move_log:
  assumes "''log'' \<in> dirs w" and "CHR ''/'' \<notin> set f" and "f \<noteq> []" and "\<not> os_path_exists (''log/'' @ f) w"
  shows "shutil_move f ''log'' w =
           (case files w f of None \<Rightarrow> Inl (IOError f)
            | Some c \<Rightarrow> Inr (w\<lparr>files := (files w)(f := None, ''log/'' @ f \<mapsto> c)\<rparr>))"
proof -
  have "hd f \<noteq> CHR ''/''" using assms(2,3) by (cases f) auto
  then have "path_join ''log'' (basename f) = ''log/'' @ f"
    using assms(2,3) by (simp add: basename_no_slash path_join_def)
  with assms(1,4) show ?thesis by (cases "files w f") (simp_all add: shutil_move_def Let_def)
qed

section \<open>Properties of the collector\<close>

text \<open>C10: The spin stops at the first slot in which either output file exists, and after
  the settle delay both files are moved: when the job writes only its two output files,
  neither exists nor is written before slot j and one of them is written in slot j, the
  collector ends with the output shown if both files were written by slot j+1 (the settle
  delay), and otherwise raises IOError on moving the missing one, the output file first.\<close>

theorem collect_race:
  assumes of: "output_files (project s) pid = (fo, fe)"
    and slash: "CHR ''/'' \<notin> set fo" "CHR ''/'' \<notin> set fe"
    and log: "''log'' \<notin> dom (files w)" "\<not> os_path_exists (''log/'' @ fo) w" "\<not> os_path_exists (''log/'' @ fe) w"
    and job: "\<forall>i. dom (writes w i) \<subseteq> {fo, fe}"
    and absent: "fo \<notin> dom (files w)" "fe \<notin> dom (files w)"
    and before: "\<forall>i<j. fo \<notin> dom (writes w (checks w + i)) \<and> fe \<notin> dom (writes w (checks w + i))"
    and first: "fo \<in> dom (writes w (checks w + j)) \<or> fe \<in> dom (writes w (checks w + j))"
  shows "\<exists>w'. collect s (Some pid) w =
           Some (if fo \<in> dom (writes w (checks w + j)) \<or> fo \<in> dom (writes w (checks w + Suc j)) then
                   (if fe \<in> dom (writes w (checks w + j)) \<or> fe \<in> dom (writes w (checks w + Suc j))
                    then Returned Collected else Raised (IOError fe))
                 else Raised (IOError fo), s, w')"
proof -
  from output_files_distinct [OF of] have d: "fo \<noteq> fe" "length fo = length fe" "fo \<noteq> []" "fe \<noteq> []" by auto
  have ne: "''log/'' @ fo \<noteq> fe" "''log/'' @ fe \<noteq> fo" "''log/'' @ fo \<noteq> fo" "''log/'' @ fe \<noteq> fe"
    "''log/'' @ fo \<noteq> ''log'' @ []" "''log/'' @ fe \<noteq> ''log'' @ []" "''log/'' @ fo \<noteq> ''log/'' @ fe"
    using d by (auto dest: arg_cong [where f = length])
  define w2 where "w2 = py_print (OKGREEN @ ''------ End submit ------'' @ ENDC) (NL @ NL)
               (py_print (OKGREEN @ ''-> CPU USED: '' @ cpu_time_used s @ '' <-'' @ ENDC) NL w)"
  define w3 where "w3 = w2\<lparr>dirs := insert ''log'' (dirs w2)\<rparr>"
  define w4 where "w4 = (land ^^ Suc (Suc j)) w3"
  have mk: "make_log_dir w2 = Inr w3" using log(1) by (simp add: w2_def w3_def make_log_dir_ok world_simps)
  have w3s: "files w3 = files w" "writes w3 = writes w" "checks w3 = checks w" "dirs w3 = insert ''log'' (dirs w)"
    by (simp_all add: w3_def w2_def world_simps)
  have wt: "wait_files fo fe w3 = Some ((land ^^ Suc j) w3)"
    using absent before first by (intro wait_files_exact) (simp_all add: w3s)
  have w4l: "land ((land ^^ Suc j) w3) = w4" by (simp add: w4_def)
  have c: "collect s (Some pid) w = Some (case move_and_show fo fe w4 of (oc, w5) \<Rightarrow> (oc, s, w5))"
    unfolding collect_def Let_def w2_def [symmetric] using of mk wt w4l by (simp split: prod.splits)
  have lands: "f \<in> dom (files w4) \<longleftrightarrow> f \<in> dom (writes w (checks w + j)) \<or> f \<in> dom (writes w (checks w + Suc j))"
    if "f = fo \<or> f = fe" for f
  proof -
    have "f \<in> dom (files w4) \<longleftrightarrow> f \<in> dom (files w3) \<or> (\<exists>i<Suc (Suc j). f \<in> dom (writes w3 (checks w3 + i)))"
      unfolding w4_def by (rule land_pow_dom)
    with that absent before show ?thesis by (auto simp: w3s less_Suc_eq)
  qed
  have other: "files w4 p = files w p" if "p \<noteq> fo" "p \<noteq> fe" for p
  proof -
    have "\<forall>i<Suc (Suc j). p \<notin> dom (writes w3 (checks w3 + i))"
    proof (intro allI impI)
      fix i
      have "dom (writes w (checks w + i)) \<subseteq> {fo, fe}" using job by (rule spec)
      with that show "p \<notin> dom (writes w3 (checks w3 + i))" by (auto simp: w3s)
    qed
    then have "files ((land ^^ Suc (Suc j)) w3) p = files w3 p" by (rule land_pow_other)
    then show ?thesis by (simp only: w4_def w3s)
  qed
  have dw4: "dirs w4 = insert ''log'' (dirs w)"
    using land_pow_frame [of "Suc (Suc j)" w3] unfolding w4_def [symmetric] by (simp add: w3s)
  have free: "\<not> os_path_exists (''log/'' @ fo) w4" "\<not> os_path_exists (''log/'' @ fe) w4"
    using log(2,3) ne other [of "''log/'' @ fo"] other [of "''log/'' @ fe"] dw4
    by (auto simp: os_path_exists_def)
  have ld: "''log'' \<in> dirs w4" using dw4 by simp
  show ?thesis
  proof (cases "fo \<in> dom (files w4)")
    case False
    then have "files w4 fo = None" by auto
    then have "move_and_show fo fe w4 = (Raised (IOError fo), w4)"
      using shutil_move_log [OF ld slash(1) d(3) free(1)] by (simp add: move_and_show_def)
    with c False lands [of fo] show ?thesis by auto
  next
    case True
    then obtain co where co: "files w4 fo = Some co" by auto
    define w5 where "w5 = w4\<lparr>files := (files w4)(fo := None, ''log/'' @ fo \<mapsto> co)\<rparr>"
    have m1: "shutil_move fo ''log'' w4 = Inr w5"
      using shutil_move_log [OF ld slash(1) d(3) free(1)] co by (simp add: w5_def)
    have ld5: "''log'' \<in> dirs w5" and free5: "\<not> os_path_exists (''log/'' @ fe) w5"
      using ld free(2) ne by (auto simp: w5_def os_path_exists_def)
    have fe5: "files w5 fe = files w4 fe" using d(1) ne by (simp add: w5_def)
    show ?thesis
    proof (cases "fe \<in> dom (files w4)")
      case False
      then have "files w5 fe = None" using fe5 by auto
      then have "move_and_show fo fe w4 = (Raised (IOError fe), w5)"
        using m1 shutil_move_log [OF ld5 slash(2) d(4) free5] by (simp add: move_and_show_def)
      with c True False lands [of fo] lands [of fe] show ?thesis by auto
    next
      case True2: True
      then obtain ce where ce: "files w5 fe = Some ce" using fe5 by auto
      define w6 where "w6 = w5\<lparr>files := (files w5)(fe := None, ''log/'' @ fe \<mapsto> ce)\<rparr>"
      have m2: "shutil_move fe ''log'' w5 = Inr w6"
        using shutil_move_log [OF ld5 slash(2) d(4) free5] ce by (simp add: w6_def)
      have r6: "files w6 (''log/'' @ fo) = Some co" "files w6 (''log/'' @ fe) = Some ce"
        using ne by (simp_all add: w6_def w5_def)
      have "fst (move_and_show fo fe w4) = Returned Collected"
        using m1 m2 r6 by (simp add: move_and_show_def show_file_def read_file_def Let_def world_simps)
      with c True True2 lands [of fo] lands [of fe] show ?thesis
        by (cases "move_and_show fo fe w4") auto
    qed
  qed
qed

text \<open>Witness: the output file at the first check, the error file only five slots later.\<close>

theorem collect_race_witness:
  "\<exists>w'. collect (new_submit ''demo'' (Some 4) (Some 1) [''a'']) (Some ''123.host'')
          (init_world (\<lambda>n c. (0, [], [])) None Map.empty {}
             (\<lambda>k. if k = 0 then [''demo.o123'' \<mapsto> ''out''] else if k = 5 then [''demo.e123'' \<mapsto> []] else Map.empty))
        = Some (Raised (IOError ''demo.e123''), new_submit ''demo'' (Some 4) (Some 1) [''a''], w')"
proof -
  let ?w = "init_world (\<lambda>n c. (0, [], [])) None Map.empty {}
             (\<lambda>k. if k = 0 then [''demo.o123'' \<mapsto> ''out''] else if k = 5 then [''demo.e123'' \<mapsto> []] else Map.empty)"
  have of: "output_files (project (new_submit ''demo'' (Some 4) (Some 1) [''a''])) ''123.host'' = (''demo.o123'', ''demo.e123'')"
    by (simp add: output_files_def id_prefix_def new_submit_def)
  have job: "\<forall>i. dom (writes ?w i) \<subseteq> {''demo.o123'', ''demo.e123''}"
    by (simp add: init_world_def)
  from collect_race [OF of _ _ _ _ _ job, of 0] show ?thesis
    by (simp add: init_world_def os_path_exists_def)
qed



text \<open>Creating the log directory is idempotent: after a successful call, calling again succeeds and changes nothing, the path exists, and no file is touched.\<close>

theorem make_log_dir_idempotent:
  assumes "make_log_dir w = Inr w'"
  shows "make_log_dir w' = Inr w' \<and> os_path_exists ''log'' w' \<and> files w' = files w"
  using assms by (auto simp: make_log_dir_def os_mkdir_def os_path_exists_def split: if_splits sum.splits)

text \<open>Witness: creating log in an empty directory, then again.\<close>

theorem make_log_dir_idempotent_witness:
  "make_log_dir (init_world (\<lambda>n c. (0, [], [])) None Map.empty {} (\<lambda>_. Map.empty)) =
     Inr (init_world (\<lambda>n c. (0, [], [])) None Map.empty {''log''} (\<lambda>_. Map.empty)) \<and>
   make_log_dir (init_world (\<lambda>n c. (0, [], [])) None Map.empty {''log''} (\<lambda>_. Map.empty)) =
     Inr (init_world (\<lambda>n c. (0, [], [])) None Map.empty {''log''} (\<lambda>_. Map.empty))"
proof -
  have r: "make_log_dir (init_world (\<lambda>n c. (0, [], [])) None Map.empty {} (\<lambda>_. Map.empty)) =
     Inr (init_world (\<lambda>n c. (0, [], [])) None Map.empty {''log''} (\<lambda>_. Map.empty))"
    by (simp add: make_log_dir_def os_mkdir_def os_path_exists_def init_world_def)
  from r make_log_dir_idempotent [OF r] show ?thesis by simp
qed

end
