(* ===== verification/Submit.thy ===== *)
theory Submit
  imports Collect
begin

text \<open>
  \<open>Submit.run\<close> of \<open>sub.py\<close> (lines 64--209) as one function of the job object and
  the world: the project check, the build step (\<open>mpicc\<close>), the job script made from
  the template, the submission with \<open>qsub\<close>, then the watch phase of \<open>Watch\<close> and
  the collector of \<open>Collect\<close>. The module's globals \<open>BIN_DIR\<close> and \<open>SOURCES\<close>
  (lines 13--16, read from \<open>sub.cfg\<close>) are the record \<open>config\<close>.
\<close>

record config =
  bin_dir :: path
  source_dir :: path

section \<open>Build step\<close>

definition project_folder :: "config \<Rightarrow> submit \<Rightarrow> path" where
  "project_folder cfg s = path_join (source_dir cfg) (project s)"

definition project_exe :: "config \<Rightarrow> submit \<Rightarrow> path" where
  "project_exe cfg s = path_join (project_folder cfg s) (project s @ ''.run'')"

text \<open>Line 75--77: the folder is pasted into the string before \<open>format\<close> runs.\<close>

definition compile_command :: "config \<Rightarrow> submit \<Rightarrow> py_exc + string" where
  "compile_command cfg s =
     py_format (''cd '' @ project_folder cfg s @ '' && mpicc {0}.c -O3 -o {1}'')
       [project s, project s @ ''.run'']"

text \<open>Lines 69--83: \<open>Inl\<close> is the end of \<open>run\<close>, \<open>Inr\<close> goes on.\<close>

definition compile_source :: "config \<Rightarrow> submit \<Rightarrow> world \<Rightarrow> (outcome \<times> world) + world" where
  "compile_source cfg s w =
     (let w1 = py_print (WARNING @ ''- Compile source'' @ ENDC) '' -> '' w in
      case compile_command cfg s of
        Inl e \<Rightarrow> Inl (Raised e, w1)
      | Inr c \<Rightarrow>
          (let (r, w2) = call_command c w1 in
           if ret_code r \<noteq> 0 then Inl (Returned BuildFailed, report_failure r w2)
           else Inr (py_print (OKGREEN @ ''OK'' @ ENDC) NL w2)))"

section \<open>Job script\<close>

definition make_script :: "string \<Rightarrow> path \<Rightarrow> string \<Rightarrow> int option \<Rightarrow> int option \<Rightarrow> string list \<Rightarrow> string" where
  "make_script tmpl exe name nodes procs args =
     py_replace (py_replace (py_replace (py_replace (py_replace tmpl
       ''%EXE_PATH%'' exe) ''%JOB_NAME%'' name) ''%NODES%'' (py_str_opt nodes))
       ''%PROCESSES%'' (py_str_opt procs)) ''%INPUTARGS%'' (py_join '' '' args)"

text \<open>Lines 86--102: an \<open>IOError\<close> opening either file prints \<open>FAIL\<close> and returns.\<close>

definition make_submit :: "config \<Rightarrow> submit \<Rightarrow> world \<Rightarrow> world + world" where
  "make_submit cfg s w =
     (let w1 = py_print (WARNING @ ''- Make submit command'' @ ENDC) '' -> '' w;
          fail = py_print (FAIL @ ''FAIL'' @ ENDC) NL w1
      in case read_file (path_join (bin_dir cfg) ''sub_template.sh'') w1 of
           Inl e \<Rightarrow> Inl fail
         | Inr tmpl \<Rightarrow>
             (case write_file ''cur_sub.sh''
                     (make_script tmpl (project_exe cfg s) (project s) (num_nodes s)
                        (num_processes s) (input_args s)) w1 of
                Inl e \<Rightarrow> Inl fail
              | Inr w2 \<Rightarrow> Inr (py_print (OKGREEN @ ''OK'' @ ENDC) NL w2)))"

section \<open>Submission\<close>

definition qsub_command :: string where
  "qsub_command = ''qsub ./cur_sub.sh''"

definition submit_banner :: "submit \<Rightarrow> string" where
  "submit_banner s =
     WARNING @ ''- Submit job on '' @ py_str_opt (num_nodes s) @ '' node''
     @ (if py_opt_gt (num_nodes s) 1 then ''s'' else []) @ '' with '' @ py_str_opt (num_processes s)
     @ '' process'' @ (if py_opt_gt (num_processes s) 1 then ''es'' else []) @ ENDC"

text \<open>Lines 104--118: \<open>Inr\<close> carries \<open>process_id\<close>, the stripped output of \<open>qsub\<close>.\<close>

definition submit_job :: "submit \<Rightarrow> world \<Rightarrow> world + (job_id \<times> world)" where
  "submit_job s w =
     (let w1 = py_print (submit_banner s) '' -> '' w;
          (r, w2) = call_command qsub_command w1
      in if ret_code r \<noteq> 0 then Inl (report_failure r w2)
         else Inr (py_strip (stdout r), py_print (OKGREEN @ ''OK'' @ ENDC) NL w2))"

section \<open>The whole run\<close>

definition run :: "config \<Rightarrow> submit \<Rightarrow> world \<Rightarrow> (outcome \<times> submit \<times> world) option" where
  "run cfg s w =
     (let w1 = py_print (OKGREEN @ ''----- Start submit -----'' @ ENDC) NL w in
      if \<not> os_path_exists (project_folder cfg s) w1 then
        collect s None (py_print (FAIL @ ''!!! Error: project not exist'' @ ENDC) NL w1)
      else
        (case compile_source cfg s w1 of
           Inl (oc, w2) \<Rightarrow> Some (oc, s, w2)
         | Inr w2 \<Rightarrow>
        (case make_submit cfg s w2 of
           Inl w3 \<Rightarrow> Some (Returned TemplateFailed, s, w3)
         | Inr w3 \<Rightarrow>
        (case submit_job s w3 of
           Inl w4 \<Rightarrow> Some (Returned SubmitFailed, s, w4)
         | Inr (pid, w4) \<Rightarrow>
        (case watch_job pid s w4 of
           None \<Rightarrow> None
         | Some (Inl r) \<Rightarrow> Some r
         | Some (Inr (s', w5)) \<Rightarrow> collect s' (Some pid) w5)))))"

text \<open>The world after \<open>run\<close>'s first line.\<close>

abbreviation start_print :: "world \<Rightarrow> world" where
  "start_print w \<equiv> py_print (OKGREEN @ ''----- Start submit -----'' @ ENDC) NL w"

section \<open>The job template as segments\<close>

text \<open>
  A specification of the job script (lines 92--98): a template is read as a list of
  literal text and placeholders \<open>%EXE_PATH%\<close>, \<open>%JOB_NAME%\<close>, \<open>%NODES%\<close>,
  \<open>%PROCESSES%\<close>, \<open>%INPUTARGS%\<close>; filling it puts each value in place of its
  placeholder. The literals carry no percent sign, and a placeholder followed by more
  text is followed by a literal whose first character cannot continue a placeholder name
  (so the closing percent sign of one placeholder never starts another).
\<close>

datatype placeholder = EXE_PATH | JOB_NAME | NODES | PROCESSES | INPUTARGS

definition ph_name :: "placeholder \<Rightarrow> string" where
  "ph_name p = (case p of EXE_PATH \<Rightarrow> ''EXE_PATH'' | JOB_NAME \<Rightarrow> ''JOB_NAME'' | NODES \<Rightarrow> ''NODES''
                | PROCESSES \<Rightarrow> ''PROCESSES'' | INPUTARGS \<Rightarrow> ''INPUTARGS'')"

definition marker :: "placeholder \<Rightarrow> string" where
  "marker p = CHR ''%'' # ph_name p @ ''%''"

definition name_char :: "char \<Rightarrow> bool" where
  "name_char c \<longleftrightarrow> c \<in> set ''ABCDEFGHIJKLMNOPQRSTUVWXYZ_''"

datatype tmpl_seg = Lit string | Hole placeholder

definition seg_text :: "tmpl_seg \<Rightarrow> string" where
  "seg_text g = (case g of Lit t \<Rightarrow> t | Hole p \<Rightarrow> marker p)"

definition tmpl_text :: "tmpl_seg list \<Rightarrow> string" where
  "tmpl_text gs = concat (map seg_text gs)"

definition fill :: "(placeholder \<Rightarrow> string) \<Rightarrow> tmpl_seg list \<Rightarrow> string" where
  "fill vals gs = concat (map (\<lambda>g. case g of Lit t \<Rightarrow> t | Hole p \<Rightarrow> vals p) gs)"

fun lits_plain :: "tmpl_seg list \<Rightarrow> bool" where
  "lits_plain [] = True"
| "lits_plain (Lit t # gs) = (CHR ''%'' \<notin> set t \<and> lits_plain gs)"
| "lits_plain (Hole p # gs) = lits_plain gs"

fun holes_separated :: "tmpl_seg list \<Rightarrow> bool" where
  "holes_separated [] = True"
| "holes_separated (Lit t # gs) = holes_separated gs"
| "holes_separated [Hole p] = True"
| "holes_separated (Hole p # Hole q # gs) = False"
| "holes_separated (Hole p # Lit t # gs) =
     (t \<noteq> [] \<and> \<not> name_char (hd t) \<and> holes_separated (Lit t # gs))"

definition subst_hole :: "placeholder \<Rightarrow> string \<Rightarrow> tmpl_seg \<Rightarrow> tmpl_seg" where
  "subst_hole p v g = (case g of Hole q \<Rightarrow> (if q = p then Lit v else Hole q) | Lit t \<Rightarrow> Lit t)"

definition script_values ::
  "path \<Rightarrow> string \<Rightarrow> int option \<Rightarrow> int option \<Rightarrow> string list \<Rightarrow> placeholder \<Rightarrow> string" where
  "script_values exe name nodes procs args p =
     (case p of EXE_PATH \<Rightarrow> exe | JOB_NAME \<Rightarrow> name | NODES \<Rightarrow> py_str_opt nodes
      | PROCESSES \<Rightarrow> py_str_opt procs | INPUTARGS \<Rightarrow> py_join '' '' args)"

definition expand_job :: "string \<Rightarrow> string \<Rightarrow> tmpl_seg list \<Rightarrow> tmpl_seg list" where
  "expand_job x y gs = concat (map (\<lambda>g. if g = Hole JOB_NAME then [Lit x, Hole NODES, Lit y] else [g]) gs)"

text \<open>A PBS template in this form, used by the scenarios.\<close>

definition pbs_template :: "tmpl_seg list" where
  "pbs_template = [Lit ''#PBS -N '', Hole JOB_NAME, Lit '' -l nodes='', Hole NODES, Lit '':ppn='',
     Hole PROCESSES, Lit (NL @ ''mpirun ''), Hole EXE_PATH, Lit '' '', Hole INPUTARGS]"

section \<open>Lemmas\<close>

lemma compile_command_prefix: "compile_command cfg s = Inr c \<Longrightarrow> starts_with ''cd '' c"
proof -
  assume a: "compile_command cfg s = Inr c"
  have "compile_command cfg s = map_sum id ((@) ''cd '')
          (fmt [project s, project s @ ''.run''] FUnset
             (project_folder cfg s @ '' && mpicc {0}.c -O3 -o {1}''))"
    unfolding compile_command_def py_format_def
    by (rule fmt_plain_prefix) simp_all
  with a show ?thesis
    by (cases "fmt [project s, project s @ ''.run''] FUnset (project_folder cfg s @ '' && mpicc {0}.c -O3 -o {1}'')")
       (auto simp: starts_with_prefix)
qed

lemma compile_source_Inl:
  assumes "compile_source cfg s w = Inl (oc, w')"
  shows "env_frame w w' \<and> files w' = files w \<and> dirs w' = dirs w \<and>
         ((\<exists>c. compile_command cfg s = Inr c \<and> oc = Returned BuildFailed \<and> issued w' = issued w @ [c] \<and>
               fst (respond w (length (issued w)) c) \<noteq> 0) \<or>
          (\<exists>e. compile_command cfg s = Inl e \<and> oc = Raised e \<and> issued w' = issued w))"
proof (cases "compile_command cfg s")
  case (Inl e)
  with assms show ?thesis by (auto simp: compile_source_def Let_def env_frame_def world_simps)
next
  case (Inr c)
  obtain rc so se where resp: "respond w (length (issued w)) c = (rc, so, se)"
    by (cases "respond w (length (issued w)) c") auto
  from assms Inr resp show ?thesis
    by (auto simp: compile_source_def Let_def call_command_def env_frame_def world_simps split: if_splits)
qed

lemma compile_source_Inr:
  assumes "compile_source cfg s w = Inr w'"
  shows "\<exists>c. compile_command cfg s = Inr c \<and> issued w' = issued w @ [c] \<and>
           fst (respond w (length (issued w)) c) = 0 \<and>
           env_frame w w' \<and> files w' = files w \<and> dirs w' = dirs w"
proof (cases "compile_command cfg s")
  case (Inl e)
  with assms show ?thesis by (simp add: compile_source_def Let_def)
next
  case (Inr c)
  obtain rc so se where resp: "respond w (length (issued w)) c = (rc, so, se)"
    by (cases "respond w (length (issued w)) c") auto
  from assms Inr resp show ?thesis
    by (auto simp: compile_source_def Let_def call_command_def env_frame_def world_simps split: if_splits)
qed

lemma make_submit_effect:
  "make_submit cfg s w = Inl w' \<Longrightarrow> issued w' = issued w \<and> env_frame w w' \<and> files w' = files w \<and> dirs w' = dirs w"
  "make_submit cfg s w = Inr w' \<Longrightarrow> issued w' = issued w \<and> env_frame w w' \<and> dirs w' = dirs w \<and>
     (\<exists>c. files w' = (files w)(''cur_sub.sh'' \<mapsto> c))"
  by (auto simp: make_submit_def Let_def read_file_def write_file_def env_frame_def world_simps
      split: option.splits if_splits)

lemma submit_job_effect:
  "submit_job s w = Inl w' \<Longrightarrow> issued w' = issued w @ [qsub_command] \<and> env_frame w w' \<and>
     files w' = files w \<and> dirs w' = dirs w \<and> fst (respond w (length (issued w)) qsub_command) \<noteq> 0"
  "submit_job s w = Inr (pid, w') \<Longrightarrow> issued w' = issued w @ [qsub_command] \<and> env_frame w w' \<and>
     files w' = files w \<and> dirs w' = dirs w \<and> fst (respond w (length (issued w)) qsub_command) = 0 \<and>
     pid = py_strip (fst (snd (respond w (length (issued w)) qsub_command)))"
  by (auto simp: submit_job_def Let_def call_command_def env_frame_def world_simps
      split: prod.splits if_splits)

lemma run_missing:
  "\<not> os_path_exists (project_folder cfg s) (start_print w) \<Longrightarrow>
   run cfg s w = collect s None (py_print (FAIL @ ''!!! Error: project not exist'' @ ENDC) NL (start_print w))"
  unfolding run_def Let_def by simp

lemma run_compile_stop:
  "os_path_exists (project_folder cfg s) (start_print w) \<Longrightarrow>
   compile_source cfg s (start_print w) = Inl (oc, w2) \<Longrightarrow> run cfg s w = Some (oc, s, w2)"
  unfolding run_def Let_def by simp

lemma run_template_fail:
  "os_path_exists (project_folder cfg s) (start_print w) \<Longrightarrow>
   compile_source cfg s (start_print w) = Inr w2 \<Longrightarrow> make_submit cfg s w2 = Inl w3 \<Longrightarrow>
   run cfg s w = Some (Returned TemplateFailed, s, w3)"
  unfolding run_def Let_def by simp

lemma run_submit_fail:
  "os_path_exists (project_folder cfg s) (start_print w) \<Longrightarrow>
   compile_source cfg s (start_print w) = Inr w2 \<Longrightarrow> make_submit cfg s w2 = Inr w3 \<Longrightarrow>
   submit_job s w3 = Inl w4 \<Longrightarrow> run cfg s w = Some (Returned SubmitFailed, s, w4)"
  unfolding run_def Let_def by simp

lemma run_watch:
  "os_path_exists (project_folder cfg s) (start_print w) \<Longrightarrow>
   compile_source cfg s (start_print w) = Inr w2 \<Longrightarrow> make_submit cfg s w2 = Inr w3 \<Longrightarrow>
   submit_job s w3 = Inr (pid, w4) \<Longrightarrow>
   run cfg s w = (case watch_job pid s w4 of None \<Rightarrow> None | Some (Inl r) \<Rightarrow> Some r
                  | Some (Inr (s5, w5)) \<Rightarrow> collect s5 (Some pid) w5)"
  unfolding run_def Let_def by simp

lemma compile_source_ok:
  "compile_command cfg s = Inr c \<Longrightarrow> fst (respond w (length (issued w)) c) = 0 \<Longrightarrow>
   \<exists>w'. compile_source cfg s w = Inr w'"
  by (cases "respond w (length (issued w)) c")
     (simp add: compile_source_def Let_def call_command_def world_simps)

lemma compile_source_fail:
  "compile_command cfg s = Inr c \<Longrightarrow> fst (respond w (length (issued w)) c) \<noteq> 0 \<Longrightarrow>
   \<exists>w'. compile_source cfg s w = Inl (Returned BuildFailed, w')"
  by (cases "respond w (length (issued w)) c")
     (simp add: compile_source_def Let_def call_command_def world_simps)

lemma make_submit_ok:
  "files w (path_join (bin_dir cfg) ''sub_template.sh'') \<noteq> None \<Longrightarrow> ''cur_sub.sh'' \<notin> dirs w \<Longrightarrow>
   \<exists>w'. make_submit cfg s w = Inr w'"
  by (auto simp: make_submit_def Let_def read_file_def write_file_def world_simps)

lemma submit_job_fail:
  "fst (respond w (length (issued w)) qsub_command) \<noteq> 0 \<Longrightarrow> \<exists>w'. submit_job s w = Inl w'"
  by (cases "respond w (length (issued w)) qsub_command")
     (simp add: submit_job_def Let_def call_command_def world_simps)

lemma submit_job_ok:
  "fst (respond w (length (issued w)) qsub_command) = 0 \<Longrightarrow> \<exists>pid w'. submit_job s w = Inr (pid, w')"
  by (cases "respond w (length (issued w)) qsub_command")
     (simp add: submit_job_def Let_def call_command_def world_simps)

lemma step_checks:
  "compile_source cfg s w = Inr w' \<Longrightarrow> checks w' = checks w"
  "make_submit cfg s w = Inr w' \<Longrightarrow> checks w' = checks w"
  "submit_job s w = Inr (pid, w') \<Longrightarrow> checks w' = checks w"
  by (auto simp: compile_source_def make_submit_def submit_job_def Let_def call_command_def read_file_def
      write_file_def world_simps split: sum.splits prod.splits if_splits option.splits)

lemma compile_command_errors: "compile_command cfg s = Inl e \<Longrightarrow> e = FormatError \<or> e = IndexError"
  unfolding compile_command_def py_format_def by (rule fmt_errors)

lemma run_cases:
  assumes "run cfg s w = Some (oc, s', w')"
  obtains (missing) "\<not> os_path_exists (project_folder cfg s) (start_print w)"
      "collect s None (py_print (FAIL @ ''!!! Error: project not exist'' @ ENDC) NL (start_print w)) = Some (oc, s', w')"
  | (build) "os_path_exists (project_folder cfg s) (start_print w)"
      "compile_source cfg s (start_print w) = Inl (oc, w')" "s' = s"
  | (template) w2 where "os_path_exists (project_folder cfg s) (start_print w)"
      "compile_source cfg s (start_print w) = Inr w2" "make_submit cfg s w2 = Inl w'"
      "oc = Returned TemplateFailed" "s' = s"
  | (submit) w2 w3 where "os_path_exists (project_folder cfg s) (start_print w)"
      "compile_source cfg s (start_print w) = Inr w2" "make_submit cfg s w2 = Inr w3"
      "submit_job s w3 = Inl w'" "oc = Returned SubmitFailed" "s' = s"
  | (watched) w2 w3 pid w4 where "os_path_exists (project_folder cfg s) (start_print w)"
      "compile_source cfg s (start_print w) = Inr w2" "make_submit cfg s w2 = Inr w3"
      "submit_job s w3 = Inr (pid, w4)" "watch_job pid s w4 = Some (Inl (oc, s', w'))"
  | (collected) w2 w3 pid w4 s5 w5 where "os_path_exists (project_folder cfg s) (start_print w)"
      "compile_source cfg s (start_print w) = Inr w2" "make_submit cfg s w2 = Inr w3"
      "submit_job s w3 = Inr (pid, w4)" "watch_job pid s w4 = Some (Inr (s5, w5))"
      "collect s5 (Some pid) w5 = Some (oc, s', w')"
proof (cases "os_path_exists (project_folder cfg s) (start_print w)")
  case False
  from assms False
  have "collect s None (py_print (FAIL @ ''!!! Error: project not exist'' @ ENDC) NL (start_print w)) = Some (oc, s', w')"
    by (simp add: run_missing)
  with False show ?thesis by (rule missing)
next
  case ex: True
  show ?thesis
  proof (cases "compile_source cfg s (start_print w)")
    case (Inl a)
    obtain oc2 w2 where a: "a = (oc2, w2)" by (cases a) auto
    with Inl ex assms have "oc2 = oc \<and> w2 = w' \<and> s' = s" by (simp add: run_compile_stop)
    with ex Inl a show ?thesis by (intro build) auto
  next
    case cs: (Inr w2)
    show ?thesis
    proof (cases "make_submit cfg s w2")
      case (Inl w3)
      with ex cs assms have "w3 = w' \<and> oc = Returned TemplateFailed \<and> s' = s" by (simp add: run_template_fail)
      with ex cs Inl show ?thesis by (intro template [of w2]) auto
    next
      case ms: (Inr w3)
      show ?thesis
      proof (cases "submit_job s w3")
        case (Inl w4)
        with ex cs ms assms have "w4 = w' \<and> oc = Returned SubmitFailed \<and> s' = s" by (simp add: run_submit_fail)
        with ex cs ms Inl show ?thesis by (intro submit [of w2 w3]) auto
      next
        case (Inr b)
        obtain pid w4 where sj: "submit_job s w3 = Inr (pid, w4)" using Inr by (cases b) auto
        note run_eq = run_watch [OF ex cs ms sj]
        with assms obtain r where wj: "watch_job pid s w4 = Some r" by (auto split: option.splits)
        show ?thesis
        proof (cases r)
          case (Inl x)
          with run_eq wj assms have "watch_job pid s w4 = Some (Inl (oc, s', w'))" by simp
          then show ?thesis by (rule watched [OF ex cs ms sj])
        next
          case (Inr y)
          obtain s5 w5 where y: "y = (s5, w5)" by (cases y) auto
          with Inr run_eq wj assms have "collect s5 (Some pid) w5 = Some (oc, s', w')" by simp
          with Inr y wj show ?thesis by (intro collected [OF ex cs ms sj]) auto
        qed
      qed
    qed
  qed
qed

lemma run_None:
  assumes "run cfg s w = None"
  obtains w2 w3 pid w4 where "compile_source cfg s (start_print w) = Inr w2" "make_submit cfg s w2 = Inr w3"
    "submit_job s w3 = Inr (pid, w4)"
    "watch_job pid s w4 = None \<or> (\<exists>s5 w5. watch_job pid s w4 = Some (Inr (s5, w5)) \<and> collect s5 (Some pid) w5 = None)"
proof -
  have ex: "os_path_exists (project_folder cfg s) (start_print w)"
    using assms by (rule contrapos_pp) (simp add: run_missing collect_def Let_def)
  obtain w2 where cs: "compile_source cfg s (start_print w) = Inr w2"
    using assms ex by (cases "compile_source cfg s (start_print w)") (auto simp: run_compile_stop)
  obtain w3 where ms: "make_submit cfg s w2 = Inr w3"
    using assms ex cs by (cases "make_submit cfg s w2") (auto simp: run_template_fail)
  obtain pid w4 where sj: "submit_job s w3 = Inr (pid, w4)"
    using assms ex cs ms by (cases "submit_job s w3") (auto simp: run_submit_fail)
  from assms run_watch [OF ex cs ms sj]
  have "watch_job pid s w4 = None \<or> (\<exists>s5 w5. watch_job pid s w4 = Some (Inr (s5, w5)) \<and> collect s5 (Some pid) w5 = None)"
    by (auto split: option.splits sum.splits prod.splits)
  with cs ms sj that show ?thesis by blast
qed

lemma submitted_prefix:
  assumes cs: "compile_source cfg s (start_print w) = Inr w2" and ms: "make_submit cfg s w2 = Inr w3"
    and sj: "submit_job s w3 = Inr (pid, w4)"
  shows "\<exists>c t. compile_command cfg s = Inr c \<and> issued w4 = issued w @ [c, qsub_command] \<and>
           env_frame w w4 \<and> dirs w4 = dirs w \<and> files w4 = (files w)(''cur_sub.sh'' \<mapsto> t) \<and>
           checks w4 = checks w \<and> pid = py_strip (fst (snd (respond w (Suc (length (issued w))) qsub_command)))"
proof -
  from compile_source_Inr [OF cs] obtain c where c: "compile_command cfg s = Inr c"
    and i2: "issued w2 = issued w @ [c]" and f2: "files w2 = files w" and d2: "dirs w2 = dirs w"
    and e2: "env_frame (start_print w) w2" by (auto simp: world_simps)
  from make_submit_effect(2) [OF ms] obtain t where i3: "issued w3 = issued w2" and e3: "env_frame w2 w3"
    and d3: "dirs w3 = dirs w2" and f3: "files w3 = (files w2)(''cur_sub.sh'' \<mapsto> t)" by auto
  from submit_job_effect(2) [OF sj] i2 i3 e2 e3 d3 f3 f2 d2 c
    step_checks(1) [OF cs] step_checks(2) [OF ms] step_checks(3) [OF sj]
  show ?thesis by (auto simp: env_frame_def world_simps)
qed


lemma run_prefix_ok:
  assumes "os_path_exists (project_folder cfg s) w"
    and "compile_command cfg s = Inr c"
    and "fst (respond w (length (issued w)) c) = 0"
    and "files w (path_join (bin_dir cfg) ''sub_template.sh'') \<noteq> None"
    and "''cur_sub.sh'' \<notin> dirs w"
    and "fst (respond w (Suc (length (issued w))) qsub_command) = 0"
  obtains w2 w3 pid w4 where "os_path_exists (project_folder cfg s) (start_print w)"
    "compile_source cfg s (start_print w) = Inr w2" "make_submit cfg s w2 = Inr w3"
    "submit_job s w3 = Inr (pid, w4)"
proof -
  from assms(1) have ex: "os_path_exists (project_folder cfg s) (start_print w)"
    by (simp add: os_path_exists_def world_simps)
  from compile_source_ok [OF assms(2), of "start_print w"] assms(3)
  obtain w2 where cs: "compile_source cfg s (start_print w) = Inr w2"
    by (auto simp: world_simps)
  from compile_source_Inr [OF cs] assms(2)
  have i2: "issued w2 = issued w @ [c]" and f2: "files w2 = files w" and d2: "dirs w2 = dirs w"
    and e2: "env_frame (start_print w) w2"
    by (auto simp: world_simps)
  from make_submit_ok [of w2 cfg s] assms(4,5) f2 d2 obtain w3 where ms: "make_submit cfg s w2 = Inr w3"
    by auto
  from make_submit_effect(2) [OF ms] have i3: "issued w3 = issued w2" and e3: "env_frame w2 w3" by auto
  from assms(6) i2 i3 e2 e3 have "fst (respond w3 (length (issued w3)) qsub_command) = 0"
    by (simp add: env_frame_def world_simps)
  then obtain pid w4 where "submit_job s w3 = Inr (pid, w4)"
    using submit_job_ok by blast
  with ex cs ms that show ?thesis by blast
qed


section \<open>Lemmas on the job template and the build command\<close>

lemma subst_hole_simps [simp]:
  "subst_hole p v (Lit t) = Lit t" "subst_hole p v (Hole q) = (if q = p then Lit v else Hole q)"
  by (simp_all add: subst_hole_def)

lemma ph_name_props: "ph_name p \<noteq> []" "\<forall>c \<in> set (ph_name p). name_char c" "CHR ''%'' \<notin> set (ph_name p)"
  by (cases p; simp add: ph_name_def name_char_def)+

lemma ph_name_inj: "ph_name p = ph_name q \<Longrightarrow> p = q"
  by (cases p; cases q; simp add: ph_name_def)

lemma marker_not_Nil: "marker p \<noteq> []" and hd_marker: "hd (marker p) = CHR ''%''"
  by (simp_all add: marker_def)

lemma marker_skip:
  assumes "q \<noteq> p" and "r = [] \<or> \<not> name_char (hd r)"
  shows "replace_occ (marker p) v (marker q @ r) = marker q @ replace_occ (marker p) v r"
proof -
  have ns: "\<not> starts_with (marker p) (marker q @ r)"
  proof
    assume "starts_with (marker p) (marker q @ r)"
    then have "prefix (ph_name p @ [CHR ''%'']) (ph_name q @ CHR ''%'' # r)"
      by (simp add: starts_with_prefix marker_def)
    with ph_name_props(3) [of p] ph_name_props(3) [of q] have "ph_name p = ph_name q"
      by (rule prefix_snoc_sep)
    with assms(1) show False using ph_name_inj by blast
  qed
  have ns2: "\<not> starts_with (marker p) (CHR ''%'' # r)"
  proof
    assume a: "starts_with (marker p) (CHR ''%'' # r)"
    obtain x xs where nx: "ph_name p = x # xs" using ph_name_props(1) by (cases "ph_name p") auto
    then have "name_char x" using ph_name_props(2) [of p] by auto
    with a nx assms(2) show False by (cases r) (auto simp: marker_def)
  qed
  have "replace_occ (marker p) v (marker q @ r) =
        CHR ''%'' # replace_occ (marker p) v (ph_name q @ CHR ''%'' # r)"
    using ns by (simp add: marker_def marker_not_Nil)
  also have "\<dots> = CHR ''%'' # ph_name q @ replace_occ (marker p) v (CHR ''%'' # r)"
    by (simp add: replace_occ_plain_prefix ph_name_props(3) hd_marker)
  also have "\<dots> = marker q @ replace_occ (marker p) v r"
    using ns2 by (simp add: marker_def marker_not_Nil)
  finally show ?thesis .
qed

lemma replace_marker_segs:
  "lits_plain gs \<Longrightarrow> holes_separated gs \<Longrightarrow>
   replace_occ (marker p) v (tmpl_text gs) = tmpl_text (map (subst_hole p v) gs)"
proof (induction gs rule: holes_separated.induct)
  case (2 t gs)
  then show ?case by (simp add: tmpl_text_def seg_text_def replace_occ_plain_prefix hd_marker)
next
  case (3 q)
  then show ?case
    using marker_skip [of q p "[]" v]
    by (auto simp: tmpl_text_def seg_text_def replace_occ_old_prefix [of _ _ "[]", simplified] marker_not_Nil)
next
  case (5 q t gs)
  then have IH: "replace_occ (marker p) v (tmpl_text (Lit t # gs)) = tmpl_text (map (subst_hole p v) (Lit t # gs))"
    by simp
  show ?case
  proof (cases "q = p")
    case True
    then show ?thesis using IH
      by (simp add: tmpl_text_def seg_text_def replace_occ_old_prefix marker_not_Nil)
  next
    case False
    have "tmpl_text (Hole q # Lit t # gs) = marker q @ tmpl_text (Lit t # gs)"
      by (simp add: tmpl_text_def seg_text_def)
    moreover have "tmpl_text (Lit t # gs) = [] \<or> \<not> name_char (hd (tmpl_text (Lit t # gs)))"
      using "5.prems"(2) by (simp add: tmpl_text_def seg_text_def)
    ultimately show ?thesis using IH False marker_skip [OF False]
      by (simp add: tmpl_text_def seg_text_def)
  qed
qed (simp_all add: tmpl_text_def)

lemma lits_plain_subst:
  "CHR ''%'' \<notin> set v \<Longrightarrow> lits_plain gs \<Longrightarrow> lits_plain (map (subst_hole p v) gs)"
  by (induction gs rule: lits_plain.induct) simp_all

lemma holes_separated_subst:
  "holes_separated gs \<Longrightarrow> holes_separated (map (subst_hole p v) gs)"
  by (induction gs rule: holes_separated.induct) simp_all

lemma py_str_opt_no_percent: "CHR ''%'' \<notin> set (py_str_opt v)"
proof -
  have "CHR ''%'' \<notin> set (nat_digits n)" for n
    using nat_digits_digits [of _ n] by fastforce
  then show ?thesis by (auto simp: py_str_opt_def py_str_int_def split: option.splits)
qed

lemma make_script_markers:
  "make_script tmpl exe name nodes procs args =
     replace_occ (marker INPUTARGS) (py_join '' '' args)
       (replace_occ (marker PROCESSES) (py_str_opt procs)
         (replace_occ (marker NODES) (py_str_opt nodes)
           (replace_occ (marker JOB_NAME) name (replace_occ (marker EXE_PATH) exe tmpl))))"
  by (simp add: make_script_def py_replace_def marker_def ph_name_def)

lemma fill_substituted:
  "tmpl_text (map (subst_hole INPUTARGS (vals INPUTARGS)) (map (subst_hole PROCESSES (vals PROCESSES))
     (map (subst_hole NODES (vals NODES)) (map (subst_hole JOB_NAME (vals JOB_NAME))
       (map (subst_hole EXE_PATH (vals EXE_PATH)) gs))))) = fill vals gs"
proof (induction gs)
  case (Cons g gs)
  show ?case
  proof (cases g)
    case (Lit t)
    with Cons show ?thesis by (simp add: tmpl_text_def fill_def seg_text_def del: map_map)
  next
    case (Hole p)
    with Cons show ?thesis by (cases p) (simp_all add: tmpl_text_def fill_def seg_text_def del: map_map)
  qed
qed (simp add: tmpl_text_def fill_def)

lemma expand_job_simps [simp]:
  "expand_job x y [] = []"
  "expand_job x y (Lit t # gs) = Lit t # expand_job x y gs"
  "expand_job x y (Hole p # gs) =
     (if p = JOB_NAME then [Lit x, Hole NODES, Lit y] else [Hole p]) @ expand_job x y gs"
  by (simp_all add: expand_job_def)

lemma tmpl_text_expand_job:
  "tmpl_text (map (subst_hole JOB_NAME (x @ marker NODES @ y)) gs) = tmpl_text (expand_job x y gs)"
  by (induction gs rule: lits_plain.induct) (simp_all add: tmpl_text_def seg_text_def)

lemma expand_job_wf:
  assumes "CHR ''%'' \<notin> set x" "CHR ''%'' \<notin> set y" "y \<noteq> []" "\<not> name_char (hd y)"
  shows "lits_plain gs \<Longrightarrow> lits_plain (expand_job x y gs)"
    and "holes_separated gs \<Longrightarrow> holes_separated (expand_job x y gs)"
proof -
  show "lits_plain gs \<Longrightarrow> lits_plain (expand_job x y gs)"
    using assms(1,2) by (induction gs rule: lits_plain.induct) simp_all
  show "holes_separated gs \<Longrightarrow> holes_separated (expand_job x y gs)"
  proof (induction gs rule: holes_separated.induct)
    case (5 p t gs)
    then show ?case using assms(3,4) by (cases y) auto
  qed (use assms(3,4) in \<open>auto simp: neq_Nil_conv\<close>)
qed

lemma fill_expanded:
  assumes "\<forall>v. vals' v = (if v = JOB_NAME then x @ vals NODES @ y else vals v)"
  shows "tmpl_text (map (subst_hole INPUTARGS (vals INPUTARGS)) (map (subst_hole PROCESSES (vals PROCESSES))
     (map (subst_hole NODES (vals NODES)) (expand_job x y (map (subst_hole EXE_PATH (vals EXE_PATH)) gs)))))
     = fill vals' gs"
proof (induction gs)
  case (Cons g gs)
  show ?case
  proof (cases g)
    case (Lit t)
    with Cons show ?thesis by (simp add: tmpl_text_def fill_def seg_text_def del: map_map)
  next
    case (Hole p)
    with Cons assms show ?thesis by (cases p) (simp_all add: tmpl_text_def fill_def seg_text_def del: map_map)
  qed
qed (simp add: tmpl_text_def fill_def)

lemma fmt_compile_tail:
  "fmt [p, p @ ''.run''] m '' && mpicc {0}.c -O3 -o {1}'' =
     (if m = FUnset \<or> m = FManual then Inr ('' && mpicc '' @ p @ ''.c -O3 -o '' @ p @ ''.run'') else Inl FormatError)"
  by (cases m) (simp_all add: field_index_def py_index_def)

section \<open>Properties of the build command and the job script\<close>

text \<open>C11: The job script is the template filled in: for every template of literals and
  placeholders (literals without percent signs, and no placeholder directly followed by a
  character that could continue a placeholder name) and values without percent signs, the
  five replacements of lines 94--98 put the executable path, the job name, str of the node
  and process counts (None when no count was given) and the space-joined arguments in
  place of their placeholders and change nothing else.\<close>

theorem make_script_fills_template:
  assumes "lits_plain gs" and "holes_separated gs"
    and "CHR ''%'' \<notin> set exe" and "CHR ''%'' \<notin> set name" and "CHR ''%'' \<notin> set (py_join '' '' args)"
  shows "make_script (tmpl_text gs) exe name nodes procs args = fill (script_values exe name nodes procs args) gs"
proof -
  let ?vals = "script_values exe name nodes procs args"
  have "make_script (tmpl_text gs) exe name nodes procs args =
        tmpl_text (map (subst_hole INPUTARGS (?vals INPUTARGS)) (map (subst_hole PROCESSES (?vals PROCESSES))
          (map (subst_hole NODES (?vals NODES)) (map (subst_hole JOB_NAME (?vals JOB_NAME))
            (map (subst_hole EXE_PATH (?vals EXE_PATH)) gs)))))"
    using assms py_str_opt_no_percent
    by (simp add: make_script_markers script_values_def replace_marker_segs lits_plain_subst
        holes_separated_subst del: map_map)
  then show ?thesis by (simp only: fill_substituted)
qed

text \<open>Witness: a PBS template, with no process count given.\<close>

theorem make_script_fills_template_witness:
  "make_script (tmpl_text pbs_template) ''/u/src/demo/demo.run'' ''demo'' (Some 2) None [''a'', ''b''] =
     ''#PBS -N demo -l nodes=2:ppn=None'' @ NL @ ''mpirun /u/src/demo/demo.run a b''"
proof -
  have "lits_plain pbs_template" "holes_separated pbs_template"
    by (simp_all add: pbs_template_def name_char_def)
  moreover have "CHR ''%'' \<notin> set (py_join '' '' [''a'', ''b''])" by simp
  ultimately have "make_script (tmpl_text pbs_template) ''/u/src/demo/demo.run'' ''demo'' (Some 2) None [''a'', ''b''] =
     fill (script_values ''/u/src/demo/demo.run'' ''demo'' (Some 2) None [''a'', ''b'']) pbs_template"
    by (intro make_script_fills_template) simp_all
  moreover have "py_str_opt (Some 2) = ''2''" by code_simp
  ultimately show ?thesis
    by (simp add: fill_def pbs_template_def script_values_def py_str_opt_def)
qed

text \<open>C19: The replacements run one after another over the whole text, so a placeholder
  inside a substituted value is replaced in turn: a project name x%NODES%y (with y starting
  with a character that cannot continue a placeholder name) becomes the job name x, the
  node count, y.\<close>

theorem placeholder_injection:
  assumes "lits_plain gs" and "holes_separated gs"
    and "CHR ''%'' \<notin> set exe" and "CHR ''%'' \<notin> set (py_join '' '' args)"
    and "CHR ''%'' \<notin> set x" and "CHR ''%'' \<notin> set y" and "y \<noteq> []" and "\<not> name_char (hd y)"
  shows "make_script (tmpl_text gs) exe (x @ ''%NODES%'' @ y) nodes procs args =
           fill (script_values exe (x @ py_str_opt nodes @ y) nodes procs args) gs"
proof -
  let ?vals = "script_values exe (x @ py_str_opt nodes @ y) nodes procs args"
  let ?g1 = "map (subst_hole EXE_PATH exe) gs"
  have m: "''%NODES%'' = marker NODES" by (simp add: marker_def ph_name_def)
  have w1: "lits_plain ?g1" "holes_separated ?g1"
    using assms(1-3) by (simp_all add: lits_plain_subst holes_separated_subst)
  have "replace_occ (marker JOB_NAME) (x @ marker NODES @ y) (replace_occ (marker EXE_PATH) exe (tmpl_text gs)) =
        tmpl_text (expand_job x y ?g1)"
    using assms(1,2) w1 by (simp add: replace_marker_segs tmpl_text_expand_job del: map_map)
  moreover have "lits_plain (expand_job x y ?g1)" "holes_separated (expand_job x y ?g1)"
    using expand_job_wf [OF assms(5-8)] w1 by blast+
  ultimately have "make_script (tmpl_text gs) exe (x @ ''%NODES%'' @ y) nodes procs args =
        tmpl_text (map (subst_hole INPUTARGS (?vals INPUTARGS)) (map (subst_hole PROCESSES (?vals PROCESSES))
          (map (subst_hole NODES (?vals NODES)) (expand_job x y (map (subst_hole EXE_PATH (?vals EXE_PATH)) gs)))))"
    using assms(4) py_str_opt_no_percent
    by (simp add: m make_script_markers script_values_def replace_marker_segs lits_plain_subst
        holes_separated_subst del: map_map)
  also have "\<dots> = fill ?vals gs"
    by (rule fill_expanded) (simp add: script_values_def split: placeholder.splits)
  finally show ?thesis .
qed

text \<open>Witness: project x%NODES%-run on the PBS template.\<close>

theorem placeholder_injection_witness:
  "make_script (tmpl_text pbs_template) ''/u/src/x/x.run'' (''x'' @ ''%NODES%'' @ ''-run'') (Some 4) (Some 1) [] =
     ''#PBS -N x4-run -l nodes=4:ppn=1'' @ NL @ ''mpirun /u/src/x/x.run ''"
proof -
  have "lits_plain pbs_template" "holes_separated pbs_template"
    by (simp_all add: pbs_template_def name_char_def)
  moreover have "\<not> name_char (hd ''-run'')" by (simp add: name_char_def)
  ultimately have "make_script (tmpl_text pbs_template) ''/u/src/x/x.run'' (''x'' @ ''%NODES%'' @ ''-run'') (Some 4) (Some 1) [] =
     fill (script_values ''/u/src/x/x.run'' (''x'' @ py_str_opt (Some 4) @ ''-run'') (Some 4) (Some 1) []) pbs_template"
    by (intro placeholder_injection) simp_all
  moreover have "py_str_opt (Some 4) = ''4''" "py_str_opt (Some 1) = ''1''" by code_simp+
  ultimately show ?thesis
    by (simp add: fill_def pbs_template_def script_values_def)
qed

text \<open>C20: For a project folder without braces, the build command is cd into the folder, then
  mpicc on the project's .c file writing the project's .run file.\<close>

theorem compile_command_plain:
  assumes "brace_free (project_folder cfg s)"
  shows "compile_command cfg s =
           Inr (''cd '' @ project_folder cfg s @ '' && mpicc '' @ project s @ ''.c -O3 -o '' @ project s @ ''.run'')"
proof -
  have "brace_free (''cd '' @ project_folder cfg s)" using assms by (simp add: brace_free_def)
  from fmt_brace_free_prefix [OF this, of "[project s, project s @ ''.run'']" FUnset "'' && mpicc {0}.c -O3 -o {1}''"]
  show ?thesis
    unfolding compile_command_def py_format_def by (simp only: fmt_compile_tail) simp
qed

text \<open>Witness: the demo project.\<close>

theorem compile_command_plain_witness:
  "compile_command \<lparr>bin_dir = ''/u/bin'', source_dir = ''/u/src''\<rparr> (new_submit ''demo'' (Some 4) (Some 1) [])
     = Inr ''cd /u/src/demo && mpicc demo.c -O3 -o demo.run''"
proof -
  have "brace_free (project_folder \<lparr>bin_dir = ''/u/bin'', source_dir = ''/u/src''\<rparr> (new_submit ''demo'' (Some 4) (Some 1) []))"
    by (simp add: brace_free_def project_folder_def path_join_def new_submit_def)
  from compile_command_plain [OF this] show ?thesis
    by (simp add: project_folder_def path_join_def new_submit_def)
qed

text \<open>C21: The project folder is pasted into the format string before str.format runs
  (line 75), so a folder a{0}b with a and b free of braces is read as a format field: the
  command changes into folder a, the project name, b, which is not the project's folder.\<close>

theorem braces_in_project_name:
  assumes "project_folder cfg s = a @ ''{0}'' @ b" and "brace_free a" and "brace_free b"
  shows "compile_command cfg s =
           Inr (''cd '' @ a @ project s @ b @ '' && mpicc '' @ project s @ ''.c -O3 -o '' @ project s @ ''.run'')"
proof -
  let ?args = "[project s, project s @ ''.run'']"
  let ?tail = "'' && mpicc {0}.c -O3 -o {1}''"
  have pa: "brace_free (''cd '' @ a)" using assms(2) by (simp add: brace_free_def)
  have tb: "fmt ?args FManual (b @ ?tail) =
        Inr (b @ '' && mpicc '' @ project s @ ''.c -O3 -o '' @ project s @ ''.run'')"
    using fmt_brace_free_prefix [OF assms(3), of ?args FManual ?tail] by (simp only: fmt_compile_tail) simp
  have "fmt ?args FUnset (''{0}'' @ b @ ?tail) = map_sum id ((@) (project s)) (fmt ?args FManual (b @ ?tail))"
    by (simp add: field_index_def py_index_def)
  with tb have f0: "fmt ?args FUnset (''{0}'' @ b @ ?tail) =
        Inr (project s @ b @ '' && mpicc '' @ project s @ ''.c -O3 -o '' @ project s @ ''.run'')"
    by simp
  have "compile_command cfg s = fmt ?args FUnset ((''cd '' @ a) @ ''{0}'' @ b @ ?tail)"
    by (simp add: compile_command_def py_format_def assms(1))
  also have "\<dots> = map_sum id ((@) (''cd '' @ a)) (fmt ?args FUnset (''{0}'' @ b @ ?tail))"
    by (rule fmt_brace_free_prefix [OF pa])
  finally show ?thesis using f0 by simp
qed

text \<open>Witness: project x{0} builds in folder /u/src/xx{0}.\<close>

theorem braces_in_project_name_witness:
  "compile_command \<lparr>bin_dir = ''/u/bin'', source_dir = ''/u/src''\<rparr> (new_submit ''x{0}'' (Some 4) (Some 1) [])
     = Inr ''cd /u/src/xx{0} && mpicc x{0}.c -O3 -o x{0}.run''"
proof -
  have f: "project_folder \<lparr>bin_dir = ''/u/bin'', source_dir = ''/u/src''\<rparr> (new_submit ''x{0}'' (Some 4) (Some 1) [])
        = ''/u/src/x'' @ ''{0}'' @ []"
    by (simp add: project_folder_def path_join_def new_submit_def)
  have a: "brace_free ''/u/src/x''" and b: "brace_free []" by (simp_all add: brace_free_def)
  from braces_in_project_name [OF f a b] show ?thesis by (simp add: new_submit_def)
qed

end
