(* ===== verification/Demo.thy ===== *)
theory Demo
  imports Submit
begin

text \<open>
  A concrete world to run \<open>Submit.run\<close> in: project \<open>demo\<close> under \<open>/u/src\<close>, the
  template under \<open>/u/bin\<close>, a scheduler that accepts the job as \<open>123.host\<close>, shows it
  running in the first two listings and exiting in the third, and a job that writes
  its output files at the third existence check. The compiler's and \<open>qsub\<close>'s exit
  codes, the user's Ctrl-C and the directories are parameters, so that every branch
  of \<open>run\<close> has a scenario. The lemmas evaluate the run on these worlds.
\<close>

definition demo_cfg :: config where
  "demo_cfg = \<lparr>bin_dir = ''/u/bin'', source_dir = ''/u/src''\<rparr>"

definition demo_submit :: submit where
  "demo_submit = new_submit ''demo'' (Some 4) (Some 1) [''a'']"

definition demo_replies :: "int \<Rightarrow> int \<Rightarrow> nat \<Rightarrow> string \<Rightarrow> int \<times> string \<times> string" where
  "demo_replies cc qs n c =
     (if starts_with ''cd '' c then (cc, [], (if cc = 0 then [] else ''demo.c: error''))
      else if c = ''qsub ./cur_sub.sh'' then (qs, (if qs = 0 then ''123.host'' @ NL else []),
                                             (if qs = 0 then [] else ''qsub: no such queue''))
      else if c = ''qstat'' then
        (if n \<le> 3 then (0, ''123.host demo.run bob 00:01 R batch'', [])
         else if n = 4 then (0, ''123.host demo.run bob 00:05 E batch'', [])
         else (0, [], []))
      else (0, [], []))"

definition demo_world :: "int \<Rightarrow> int \<Rightarrow> nat option \<Rightarrow> path set \<Rightarrow> world" where
  "demo_world cc qs intr ds = init_world (demo_replies cc qs) intr
     [''/u/bin/sub_template.sh'' \<mapsto> ''mpirun -np %PROCESSES% %EXE_PATH% %INPUTARGS%'']
     ds (\<lambda>k. if k = 2 then [''demo.o123'' \<mapsto> ''result'', ''demo.e123'' \<mapsto> []] else Map.empty)"

lemmas demo_defs = demo_cfg_def demo_submit_def demo_world_def demo_replies_def init_world_def

lemma demo_run_collected:
  "map_option fst (run demo_cfg demo_submit (demo_world 0 0 None {''/u/src/demo''})) = Some (Returned Collected)"
  unfolding demo_defs by (code_simp | subst watch_loop.simps | subst wait_files.simps)+

lemma demo_run_aborted:
  "map_option fst (run demo_cfg demo_submit (demo_world 0 0 (Some 2) {''/u/src/demo''})) = Some (Returned Aborted)"
  unfolding demo_defs by (code_simp | subst watch_loop.simps)+

lemma demo_job_id:
  "py_strip (fst (snd (respond (demo_world 0 0 i ds) (Suc 0) qsub_command))) = ''123.host''"
  unfolding demo_defs qsub_command_def by code_simp

lemma demo_compile_command:
  "compile_command demo_cfg demo_submit = Inr ''cd /u/src/demo && mpicc demo.c -O3 -o demo.run''"
  unfolding demo_defs compile_command_def project_folder_def by code_simp

lemma demo_folder: "project_folder demo_cfg demo_submit = ''/u/src/demo''"
  by (simp add: demo_cfg_def demo_submit_def new_submit_def project_folder_def path_join_def)

lemma demo_world_simps:
  "issued (demo_world cc qs i ds) = []"
  "os_path_exists ''/u/src/demo'' (demo_world cc qs i ds) \<longleftrightarrow> ''/u/src/demo'' \<in> ds"
  "respond (demo_world cc qs i ds) n c = demo_replies cc qs n c"
  "files (demo_world cc qs i ds) = [''/u/bin/sub_template.sh'' \<mapsto> ''mpirun -np %PROCESSES% %EXE_PATH% %INPUTARGS%'']"
  "dirs (demo_world cc qs i ds) = ds"
  by (simp_all add: demo_world_def init_world_def os_path_exists_def)

lemma demo_replies_build:
  "demo_replies cc qs n ''cd /u/src/demo && mpicc demo.c -O3 -o demo.run'' = (cc, [], (if cc = 0 then [] else ''demo.c: error''))"
  by (simp add: demo_replies_def)

lemma demo_replies_qsub:
  "demo_replies cc qs n qsub_command = (qs, (if qs = 0 then ''123.host'' @ NL else []), (if qs = 0 then [] else ''qsub: no such queue''))"
  by (simp add: demo_replies_def qsub_command_def)

lemma demo_template: "path_join (bin_dir demo_cfg) ''sub_template.sh'' = ''/u/bin/sub_template.sh''"
  by (simp add: demo_cfg_def path_join_def)

lemmas demo_eval = demo_template demo_folder demo_world_simps demo_replies_build demo_replies_qsub demo_compile_command

end
