(* ===== verification/Lifecycle.thy ===== *)
theory Lifecycle
  imports Py_Str
begin

text \<open>
  The job lifecycle of the specification (section 4.2) as an abstract machine: the
  phases \<open>BUILDING\<close> to \<open>DONE\<close>, \<open>ABORTED\<close> and \<open>FAILED\<close>, and the steps between
  them, each labelled by the external commands it issues: a build command (a shell
  line starting with \<open>cd\<close>), the submission \<open>qsub ./cur_sub.sh\<close>, a status query
  \<open>qstat\<close>, a cancellation \<open>qdel\<close> whose job id carries no qualifier after a dot.
  A path of the machine is the command sequence of a whole run; the machine only
  moves forward and stops in its three terminal phases.
\<close>

datatype phase =
    BUILDING | SUBMITTING | POLLING | EXITING_OBSERVED | COLLECTING | DONE | ABORTED | FAILED

definition is_build :: "string \<Rightarrow> bool" where
  "is_build c \<longleftrightarrow> starts_with ''cd '' c"

definition is_cancel :: "string \<Rightarrow> bool" where
  "is_cancel c \<longleftrightarrow> starts_with ''qdel '' c \<and> CHR ''.'' \<notin> set (drop 5 c)"

inductive lc_step :: "phase \<Rightarrow> string list \<Rightarrow> phase \<Rightarrow> bool" where
  build_ok: "is_build c \<Longrightarrow> lc_step BUILDING [c] SUBMITTING"
| build_fail: "is_build c \<Longrightarrow> lc_step BUILDING [c] FAILED"
| no_build: "lc_step BUILDING [] FAILED"
| script_fail: "lc_step SUBMITTING [] FAILED"
| submit_ok: "lc_step SUBMITTING [''qsub ./cur_sub.sh''] POLLING"
| submit_fail: "lc_step SUBMITTING [''qsub ./cur_sub.sh''] FAILED"
| poll: "lc_step POLLING [''qstat''] POLLING"
| poll_end: "lc_step POLLING [] EXITING_OBSERVED"
| poll_fail: "lc_step POLLING [] FAILED"
| cancel_ok: "is_cancel c \<Longrightarrow> lc_step POLLING [c] ABORTED"
| cancel_fail: "is_cancel c \<Longrightarrow> lc_step POLLING [c] FAILED"
| observed: "lc_step EXITING_OBSERVED [] COLLECTING"
| collected: "lc_step COLLECTING [] DONE"
| collect_fail: "lc_step COLLECTING [] FAILED"

inductive lc_path :: "phase \<Rightarrow> string list \<Rightarrow> phase \<Rightarrow> bool" where
  refl: "lc_path p [] p"
| step: "lc_step p cs q \<Longrightarrow> lc_path q ds r \<Longrightarrow> lc_path p (cs @ ds) r"

fun rank :: "phase \<Rightarrow> nat" where
  "rank BUILDING = 0" | "rank SUBMITTING = 1" | "rank POLLING = 2" | "rank EXITING_OBSERVED = 3"
| "rank COLLECTING = 4" | "rank DONE = 5" | "rank ABORTED = 5" | "rank FAILED = 5"

definition terminal :: "phase \<Rightarrow> bool" where
  "terminal p \<longleftrightarrow> p \<in> {DONE, ABORTED, FAILED}"

inductive_cases lc_step_from_terminal: "lc_step DONE cs q" "lc_step ABORTED cs q" "lc_step FAILED cs q"

lemma lc_step_forward: "lc_step p cs q \<Longrightarrow> rank p \<le> rank q"
  by (induction rule: lc_step.induct) simp_all

lemma lc_step_stutter: "lc_step p cs q \<Longrightarrow> rank p = rank q \<Longrightarrow> p = POLLING \<and> q = POLLING \<and> cs = [''qstat'']"
  by (induction rule: lc_step.induct) simp_all

lemma terminal_stuck: "terminal p \<Longrightarrow> \<not> lc_step p cs q"
  by (auto simp: terminal_def elim: lc_step_from_terminal)

lemma lc_path_forward: "lc_path p cs q \<Longrightarrow> rank p \<le> rank q"
  by (induction rule: lc_path.induct) (auto dest: lc_step_forward)

lemma lc_path_one: "lc_step p cs q \<Longrightarrow> lc_path p cs q"
  using lc_path.step [OF _ lc_path.refl] by fastforce

lemma lc_path_trans: "lc_path p cs q \<Longrightarrow> lc_path q ds r \<Longrightarrow> lc_path p (cs @ ds) r"
  by (induction rule: lc_path.induct) (auto intro: lc_path.step)

lemma lc_path_polls: "lc_path POLLING cs r \<Longrightarrow> lc_path POLLING (replicate n ''qstat'' @ cs) r"
proof (induction n)
  case 0
  then show ?case by simp
next
  case (Suc n)
  then show ?case using lc_path.step [OF lc_step.poll] by fastforce
qed

lemma lc_path_from_terminal: "lc_path p cs q \<Longrightarrow> terminal p \<Longrightarrow> cs = [] \<and> q = p"
  by (induction rule: lc_path.induct) (auto dest: terminal_stuck)

end
