(* ===== verification/Teta.thy ===== *)
theory Teta
  imports Complex_Main
begin

text \<open>
  The numerical part of the repository, \<open>src/sources/tetaEvaluation.py\<close>: the
  scattering angle of a Coulomb-like potential, computed by a midpoint Riemann sum
  refined by halving the step (\<open>finite_integral\<close>) and extended to infinity in
  slabs of width \<open>DELTA\<close> (\<open>integral_to_infinite\<close>), against the closed form
  \<open>analytic_evaluation\<close>. Python floats are modelled as reals, so the theorems are
  about the algorithm in exact arithmetic; \<open>math.sqrt\<close> and the divisions raise
  as in Python and the integrand's \<open>except\<close> turns those errors into \<open>0.0\<close>. The
  inner \<open>while\<close> loop may run forever (a step that is not positive), so it is a
  \<open>partial_function (option)\<close>; the two \<open>for\<close> loops are bounded recursion.
  \<open>refine_spec\<close> and \<open>slab_spec\<close> state what the two \<open>for\<close> loops compute as a
  \<open>find\<close> over the refinements and the slabs; the loops are proved to implement
  them, and the script's rows follow.
\<close>

section \<open>Constants\<close>

definition MAX_DIVISIONS :: nat where "MAX_DIVISIONS = 21"
definition MAX_ITERATIONS :: nat where "MAX_ITERATIONS = 21"
definition PRECISION_DELTA :: real where "PRECISION_DELTA = 2 / 10 ^ 8"
definition DELTA :: real where "DELTA = 16"

section \<open>The closed form\<close>

definition analytic_evaluation :: "real \<Rightarrow> real \<Rightarrow> real" where
  "analytic_evaluation b e = 2 * arcsin (1 / sqrt (1 + 4 * b\<^sup>2 * e\<^sup>2))"

section \<open>The integrand\<close>

datatype math_error = ValueError | ZeroDivisionError

definition py_div :: "real \<Rightarrow> real \<Rightarrow> math_error + real" where
  "py_div x y = (if y = 0 then Inl ZeroDivisionError else Inr (x / y))"

definition py_sqrt :: "real \<Rightarrow> math_error + real" where
  "py_sqrt x = (if x < 0 then Inl ValueError else Inr (sqrt x))"

text \<open>\<open>1.0 / (r**2 * sqrt(1 - (b**2 / r**2) - (potential(r) / e)))\<close> with
  \<open>potential(r) = 1.0 / r\<close>, in Python's order of evaluation.\<close>

definition integrand :: "real \<Rightarrow> real \<Rightarrow> real \<Rightarrow> math_error + real" where
  "integrand r b e =
     (case py_div (b\<^sup>2) (r\<^sup>2) of Inl x \<Rightarrow> Inl x | Inr t1 \<Rightarrow>
      case py_div 1 r of Inl x \<Rightarrow> Inl x | Inr pot \<Rightarrow>
      case py_div pot e of Inl x \<Rightarrow> Inl x | Inr t2 \<Rightarrow>
      case py_sqrt (1 - t1 - t2) of Inl x \<Rightarrow> Inl x | Inr s \<Rightarrow>
      py_div 1 (r\<^sup>2 * s))"

text \<open>\<open>integral_func\<close>: both \<open>ValueError\<close> and \<open>ZeroDivisionError\<close> give \<open>0.0\<close>.\<close>

definition integral_func :: "real \<Rightarrow> real \<Rightarrow> real \<Rightarrow> real" where
  "integral_func r b e = (case integrand r b e of Inl _ \<Rightarrow> 0 | Inr v \<Rightarrow> v)"

section \<open>The finite integral\<close>

text \<open>The inner loop (lines 39--43): \<open>while cur_step <= var_to\<close>.\<close>

partial_function (option) midpoint_loop ::
  "(real \<Rightarrow> real) \<Rightarrow> real \<Rightarrow> real \<Rightarrow> real \<Rightarrow> real \<Rightarrow> real option" where
  "midpoint_loop f step to cur acc =
     (if cur \<le> to then midpoint_loop f step to (cur + step) (acc + step * f (cur - step / 2))
      else Some acc)"

text \<open>The outer loop (lines 33--48): at most \<open>n\<close> more refinements; \<open>ps_last\<close> is the
  sum of the last refinement, returned when the loop runs out.\<close>

fun refine_loop :: "(real \<Rightarrow> real) \<Rightarrow> real \<Rightarrow> real \<Rightarrow> nat \<Rightarrow> nat \<Rightarrow> real \<Rightarrow> real \<Rightarrow> real option" where
  "refine_loop f up to i 0 prev ps_last = Some ps_last"
| "refine_loop f up to i (Suc n) prev ps_last =
     (let step = (to - up) / 2 ^ i in
      case midpoint_loop f step to (up + step) 0 of
        None \<Rightarrow> None
      | Some ps \<Rightarrow>
          (if prev \<noteq> 0 \<and> \<bar>prev - ps\<bar> < PRECISION_DELTA then Some ps
           else refine_loop f up to (Suc i) n ps ps))"

definition finite_integral :: "real \<Rightarrow> real \<Rightarrow> real \<Rightarrow> real \<Rightarrow> real option" where
  "finite_integral up to b e = refine_loop (\<lambda>r. integral_func r b e) up to 0 MAX_DIVISIONS 0 0"

section \<open>The integral to infinity\<close>

fun slab_loop :: "real \<Rightarrow> real \<Rightarrow> real \<Rightarrow> nat \<Rightarrow> real \<Rightarrow> real option" where
  "slab_loop up b e 0 prev = Some prev"
| "slab_loop up b e (Suc n) prev =
     (let to = up + DELTA in
      case finite_integral up to b e of
        None \<Rightarrow> None
      | Some pr \<Rightarrow>
          (if prev \<noteq> 0 \<and> pr \<noteq> 0 \<and> pr < PRECISION_DELTA then Some prev
           else slab_loop to b e n (prev + pr)))"

definition integral_to_infinite :: "real \<Rightarrow> real \<Rightarrow> real \<Rightarrow> real option" where
  "integral_to_infinite up b e = map_option (\<lambda>p. (2 * b) * p) (slab_loop up b e MAX_ITERATIONS 0)"

section \<open>The script\<close>

definition degrees :: "real \<Rightarrow> real" where
  "degrees x = x * 180 / pi"

text \<open>Lines 81--90: one row \<open>(b, theta, analytic)\<close> for \<open>b\<close> in \<open>range(0, 16)\<close>.\<close>

definition teta_row :: "nat \<Rightarrow> (real \<times> real \<times> real) option" where
  "teta_row b =
     map_option (\<lambda>v. (real b, 180 - degrees \<bar>v\<bar>, degrees (analytic_evaluation (real b) (1 / 10))))
       (integral_to_infinite 0 (real b) (1 / 10))"

definition teta_rows :: "(real \<times> real \<times> real) list option" where
  "teta_rows = those (map teta_row [0..<16])"

text \<open>What the script shows. Its printed lines: the message of line 79, then one
  line per row (line 87), whose three numbers stand for their \<open>str.format\<close> text.
  Its \<open>matplotlib\<close> calls of lines 92--102 in order, the legend's handles being
  the two patches \<open>(color, label)\<close>.\<close>

datatype out_line = Msg string | RowOut real real real

datatype plot_call =
    YLabel string
  | XLabel string
  | Plot "real list" "real list" string
  | Legend "(string \<times> string) list"
  | Grid bool
  | Show

definition teta_plot :: "(real \<times> real \<times> real) list \<Rightarrow> plot_call list" where
  "teta_plot rows =
     (let xs = map fst rows; ys = map (fst \<circ> snd) rows; ya = map (snd \<circ> snd) rows in
      [YLabel ''teta'', XLabel ''b'', Plot xs ys ''r--'', Plot xs ys ''ro'', Plot xs ya ''b--'',
       Plot xs ya ''bo'', Legend [(''red'', ''theta value''), (''blue'', ''analytic value'')],
       Grid True, Show])"

definition row_out :: "real \<times> real \<times> real \<Rightarrow> out_line" where
  "row_out r = RowOut (fst r) (fst (snd r)) (snd (snd r))"

text \<open>Lines 72--102: the printed lines and the plot, when the rows are computed.\<close>

definition teta_script :: "(out_line list \<times> plot_call list) option" where
  "teta_script =
     map_option (\<lambda>rows. (Msg ''Calculus may take some time...'' # map row_out rows, teta_plot rows)) teta_rows"

section \<open>The midpoint sum\<close>

text \<open>What one refinement computes in exact arithmetic: the midpoint rule with
  \<open>2 ^ i\<close> cells on \<open>[up, to]\<close>.\<close>

definition midpoint_sum :: "(real \<Rightarrow> real) \<Rightarrow> real \<Rightarrow> real \<Rightarrow> nat \<Rightarrow> real" where
  "midpoint_sum f up to i =
     (let step = (to - up) / 2 ^ i in \<Sum>j<2 ^ i. step * f (up + real j * step + step / 2))"

text \<open>The refinement loop as a search: the first refinement \<open>i\<close> whose
  predecessor's sum is nonzero and within \<open>PRECISION_DELTA\<close> of it gives the
  result; when no refinement converges the last one, \<open>MAX_DIVISIONS - 1\<close>, is
  returned.\<close>

definition refine_spec :: "(real \<Rightarrow> real) \<Rightarrow> real \<Rightarrow> real \<Rightarrow> real" where
  "refine_spec f up to =
     (let M = midpoint_sum f up to in
      case find (\<lambda>i. M (i - 1) \<noteq> 0 \<and> \<bar>M (i - 1) - M i\<bar> < PRECISION_DELTA) [1..<MAX_DIVISIONS] of
        Some i \<Rightarrow> M i
      | None \<Rightarrow> M (MAX_DIVISIONS - 1))"

text \<open>The slab loop as a search: slab \<open>m\<close> of width \<open>DELTA\<close> contributes its
  specified finite integral; the loop stops before the first slab \<open>k\<close> that is
  nonzero and below \<open>PRECISION_DELTA\<close> once the running sum is nonzero, and
  otherwise sums all \<open>MAX_ITERATIONS\<close> slabs.\<close>

definition slab_value :: "real \<Rightarrow> real \<Rightarrow> real \<Rightarrow> nat \<Rightarrow> real" where
  "slab_value up b e m =
     refine_spec (\<lambda>r. integral_func r b e) (up + DELTA * real m) (up + DELTA * real (Suc m))"

definition slab_spec :: "real \<Rightarrow> real \<Rightarrow> real \<Rightarrow> real" where
  "slab_spec up b e =
     (let S = slab_value up b e; P = (\<lambda>k. \<Sum>m<k. S m) in
      2 * b * (case find (\<lambda>k. P k \<noteq> 0 \<and> S k \<noteq> 0 \<and> S k < PRECISION_DELTA) [0..<MAX_ITERATIONS] of
                 Some k \<Rightarrow> P k
               | None \<Rightarrow> P MAX_ITERATIONS))"

section \<open>Lemmas\<close>

lemma midpoint_loop_sum:
  assumes "0 < step" and "a + real k * step \<le> to" and "to < a + real (Suc k) * step"
  shows "midpoint_loop f step to (a + step) acc =
           Some (acc + (\<Sum>j<k. step * f (a + real j * step + step / 2)))"
  using assms(2,3)
proof (induction k arbitrary: a acc)
  case 0
  then show ?case by (simp add: midpoint_loop.simps)
next
  case (Suc k)
  have e1: "a + step + real k * step = a + real (Suc k) * step"
    and e2: "a + step + real (Suc k) * step = a + real (Suc (Suc k)) * step"
    by (simp_all add: algebra_simps)
  have "0 \<le> real k * step" using assms(1) by simp
  with Suc.prems(1) e1 have le: "a + step \<le> to" by linarith
  have mid: "a + step - step / 2 = a + step / 2" by simp
  have p1: "a + step + real k * step \<le> to" unfolding e1 by (rule Suc.prems(1))
  have p2: "to < a + step + real (Suc k) * step" unfolding e2 by (rule Suc.prems(2))
  have rec: "midpoint_loop f step to (a + step + step) (acc + step * f (a + step / 2)) =
          Some (acc + step * f (a + step / 2) + (\<Sum>j<k. step * f (a + step + real j * step + step / 2)))"
    using Suc.IH [OF p1 p2, of "acc + step * f (a + step / 2)"] by (simp add: add.assoc)
  have shift: "(\<Sum>j<Suc k. step * f (a + real j * step + step / 2)) =
                 step * f (a + step / 2) + (\<Sum>j<k. step * f (a + step + real j * step + step / 2))"
    by (subst sum.lessThan_Suc_shift) (simp add: algebra_simps)
  from le have "midpoint_loop f step to (a + step) acc =
                  midpoint_loop f step to (a + step + step) (acc + step * f (a + step / 2))"
    by (simp add: midpoint_loop.simps [of f step to "a + step"] mid)
  with rec shift show ?case by simp
qed


lemma midpoint_loop_cells:
  assumes "up < to"
  shows "midpoint_loop f ((to - up) / 2 ^ i) to (up + (to - up) / 2 ^ i) 0 = Some (midpoint_sum f up to i)"
proof -
  define k where "k = (2::nat) ^ i"
  define st where "st = (to - up) / 2 ^ i"
  have pos: "0 < st" using assms by (simp add: st_def)
  have eq: "up + real k * st = to" by (simp add: k_def st_def)
  have "real (Suc k) * st = real k * st + st" by (simp add: algebra_simps)
  with pos eq have lt: "to < up + real (Suc k) * st" by linarith
  from midpoint_loop_sum [OF pos, of up k to f 0] eq lt show ?thesis
    by (simp add: midpoint_sum_def Let_def k_def st_def)
qed

lemma midpoint_loop_diverges:
  assumes "step \<le> 0" and "cur \<le> to"
  shows "midpoint_loop f step to cur acc = None"
proof -
  have "\<not> (step \<le> 0 \<and> cur \<le> to)" if "midpoint_loop f step to cur acc = Some r" for r
  proof (rule midpoint_loop.raw_induct [where P = "\<lambda>f step to cur acc r. \<not> (step \<le> 0 \<and> cur \<le> to)", OF _ that])
    fix loop :: "(real \<Rightarrow> real) \<Rightarrow> real \<Rightarrow> real \<Rightarrow> real \<Rightarrow> real \<Rightarrow> real option"
      and f :: "real \<Rightarrow> real" and step to cur acc :: real and r :: real
    assume IH: "\<And>f step to cur acc r. loop f step to cur acc = Some r \<Longrightarrow> \<not> (step \<le> 0 \<and> cur \<le> to)"
      and body: "(if cur \<le> to then loop f step to (cur + step) (acc + step * f (cur - step / 2))
                  else Some acc) = Some r"
    show "\<not> (step \<le> 0 \<and> cur \<le> to)"
    proof
      assume a: "step \<le> 0 \<and> cur \<le> to"
      with body have "loop f step to (cur + step) (acc + step * f (cur - step / 2)) = Some r" by simp
      moreover have "cur + step \<le> to" using a by linarith
      ultimately show False using IH a by blast
    qed
  qed
  with assms show ?thesis by (cases "midpoint_loop f step to cur acc") auto
qed

lemma refine_loop_cells:
  assumes "up < to" and "0 < n"
  shows "\<exists>i. i0 \<le> i \<and> i < i0 + n \<and> refine_loop f up to i0 n prev ps = Some (midpoint_sum f up to i)"
  using assms(2)
proof (induction n arbitrary: i0 prev ps)
  case 0
  then show ?case by simp
next
  case (Suc n)
  have m: "midpoint_loop f ((to - up) / 2 ^ i0) to (up + (to - up) / 2 ^ i0) 0 = Some (midpoint_sum f up to i0)"
    using midpoint_loop_cells [OF assms(1)] .
  show ?case
  proof (cases "(prev \<noteq> 0 \<and> \<bar>prev - midpoint_sum f up to i0\<bar> < PRECISION_DELTA) \<or> n = 0")
    case True
    with m show ?thesis by (auto simp: Let_def intro!: exI [of _ i0])
  next
    case False
    then have "0 < n" by simp
    from Suc.IH [OF this, of "Suc i0" "midpoint_sum f up to i0" "midpoint_sum f up to i0"] obtain i
      where "Suc i0 \<le> i" "i < Suc i0 + n"
        "refine_loop f up to (Suc i0) n (midpoint_sum f up to i0) (midpoint_sum f up to i0) = Some (midpoint_sum f up to i)"
      by blast
    with m False show ?thesis by (auto simp: Let_def intro!: exI [of _ i])
  qed
qed

lemma refine_loop_find:
  assumes "up < to" and "0 < i0"
  shows "refine_loop f up to i0 n (midpoint_sum f up to (i0 - 1)) ps =
           Some (case find (\<lambda>i. midpoint_sum f up to (i - 1) \<noteq> 0 \<and>
                        \<bar>midpoint_sum f up to (i - 1) - midpoint_sum f up to i\<bar> < PRECISION_DELTA) [i0..<i0 + n] of
                   Some i \<Rightarrow> midpoint_sum f up to i
                 | None \<Rightarrow> (if n = 0 then ps else midpoint_sum f up to (i0 + n - 1)))"
  using assms(2)
proof (induction n arbitrary: i0 ps)
  case 0
  then show ?case by simp
next
  case (Suc n)
  have m: "midpoint_loop f ((to - up) / 2 ^ i0) to (up + (to - up) / 2 ^ i0) 0 = Some (midpoint_sum f up to i0)"
    using midpoint_loop_cells [OF assms(1)] .
  have up: "[i0..<i0 + Suc n] = i0 # [Suc i0..<Suc i0 + n]" by (simp add: upt_rec)
  from Suc.IH [of "Suc i0" "midpoint_sum f up to i0"]
  have IH: "refine_loop f up to (Suc i0) n (midpoint_sum f up to i0) (midpoint_sum f up to i0) =
           Some (case find (\<lambda>i. midpoint_sum f up to (i - 1) \<noteq> 0 \<and>
                        \<bar>midpoint_sum f up to (i - 1) - midpoint_sum f up to i\<bar> < PRECISION_DELTA) [Suc i0..<Suc i0 + n] of
                   Some i \<Rightarrow> midpoint_sum f up to i
                 | None \<Rightarrow> (if n = 0 then midpoint_sum f up to i0 else midpoint_sum f up to (Suc i0 + n - 1)))"
    by simp
  show ?case
    unfolding up using m IH by (cases n) (simp_all del: upt_Suc add: Let_def split: option.splits)
qed

lemma finite_integral_spec:
  assumes "up < to"
  shows "finite_integral up to b e = Some (refine_spec (\<lambda>r. integral_func r b e) up to)"
proof -
  let ?f = "\<lambda>r. integral_func r b e"
  have m0: "midpoint_loop ?f ((to - up) / 2 ^ 0) to (up + (to - up) / 2 ^ 0) 0 = Some (midpoint_sum ?f up to 0)"
    using midpoint_loop_cells [OF assms] .
  have "finite_integral up to b e = refine_loop ?f up to 0 (Suc 20) 0 0"
    by (simp add: finite_integral_def MAX_DIVISIONS_def)
  also have "\<dots> = refine_loop ?f up to 1 20 (midpoint_sum ?f up to (1 - 1)) (midpoint_sum ?f up to 0)"
    by (simp only: refine_loop.simps(2) Let_def m0 option.case) simp
  also have "\<dots> = Some (refine_spec ?f up to)"
    by (subst refine_loop_find [OF assms]) (simp_all add: refine_spec_def MAX_DIVISIONS_def Let_def cong: option.case_cong)
  finally show ?thesis .
qed

lemma slab_loop_find:
  "slab_loop (up + DELTA * real k) b e n (\<Sum>m<k. slab_value up b e m) =
     Some (case find (\<lambda>k. (\<Sum>m<k. slab_value up b e m) \<noteq> 0 \<and> slab_value up b e k \<noteq> 0 \<and>
                          slab_value up b e k < PRECISION_DELTA) [k..<k + n] of
             Some j \<Rightarrow> \<Sum>m<j. slab_value up b e m
           | None \<Rightarrow> \<Sum>m<k + n. slab_value up b e m)"
proof (induction n arbitrary: k)
  case 0
  show ?case by simp
next
  case (Suc n)
  have lt: "up + DELTA * real k < up + DELTA * real k + DELTA" by (simp add: DELTA_def)
  have nx: "up + DELTA * real k + DELTA = up + DELTA * real (Suc k)" by (simp add: algebra_simps)
  have fi: "finite_integral (up + DELTA * real k) (up + DELTA * real (Suc k)) b e = Some (slab_value up b e k)"
    unfolding slab_value_def nx [symmetric] by (rule finite_integral_spec [OF lt])
  have step: "slab_loop (up + DELTA * real k) b e (Suc n) (\<Sum>m<k. slab_value up b e m) =
      (if (\<Sum>m<k. slab_value up b e m) \<noteq> 0 \<and> slab_value up b e k \<noteq> 0 \<and> slab_value up b e k < PRECISION_DELTA
       then Some (\<Sum>m<k. slab_value up b e m)
       else slab_loop (up + DELTA * real (Suc k)) b e n (\<Sum>m<Suc k. slab_value up b e m))"
    by (simp only: slab_loop.simps(2) Let_def fi option.case nx sum.lessThan_Suc)
  have up: "[k..<k + Suc n] = k # [Suc k..<Suc k + n]" by (simp add: upt_rec)
  show ?case
    using Suc.IH [of "Suc k"] unfolding up step by (simp del: upt_Suc cong: option.case_cong)
qed

lemma integral_func_nonneg: "0 \<le> integral_func r b e"
  by (auto simp: integral_func_def integrand_def py_div_def py_sqrt_def split: sum.splits if_splits)


lemma finite_integral_some: "up < to \<Longrightarrow> \<exists>v. finite_integral up to b e = Some v"
  using refine_loop_cells [of up to MAX_DIVISIONS 0 "\<lambda>r. integral_func r b e" 0 0]
  by (auto simp: finite_integral_def MAX_DIVISIONS_def)

lemma integral_to_infinite_spec:
  "integral_to_infinite up b e = Some (slab_spec up b e)"
  using slab_loop_find [of up 0 b e MAX_ITERATIONS]
  by (simp add: integral_to_infinite_def slab_spec_def Let_def del: upt_Suc cong: option.case_cong)

lemma those_map_Some: "those (map (\<lambda>x. Some (f x)) xs) = Some (map f xs)"
  by (induction xs) simp_all

lemma teta_rows_eq:
  "teta_rows =
     Some (map (\<lambda>b. (real b, 180 - degrees \<bar>slab_spec 0 (real b) (1 / 10)\<bar>,
                       degrees (analytic_evaluation (real b) (1 / 10)))) [0..<16])"
  unfolding teta_rows_def teta_row_def integral_to_infinite_spec option.map
  by (rule those_map_Some)

lemma slab_loop_parts:
  "\<exists>vs. length vs \<le> n \<and>
     (\<forall>m < length vs. finite_integral (up + DELTA * real m) (up + DELTA * real (Suc m)) b e = Some (vs ! m)) \<and>
     slab_loop up b e n prev = Some (prev + sum_list vs)"
proof (induction n arbitrary: up prev)
  case 0
  show ?case by (auto intro!: exI [of _ "[]"])
next
  case (Suc n)
  have "up < up + DELTA" by (simp add: DELTA_def)
  then obtain pr where fi: "finite_integral up (up + DELTA) b e = Some pr"
    using finite_integral_some by blast
  show ?case
  proof (cases "prev \<noteq> 0 \<and> pr \<noteq> 0 \<and> pr < PRECISION_DELTA")
    case True
    with fi show ?thesis by (auto intro!: exI [of _ "[]"])
  next
    case False
    from Suc.IH [of "up + DELTA" "prev + pr"] obtain vs where
      len: "length vs \<le> n" and
      parts: "\<forall>m < length vs. finite_integral (up + DELTA + DELTA * real m) (up + DELTA + DELTA * real (Suc m)) b e
                = Some (vs ! m)" and
      rec: "slab_loop (up + DELTA) b e n (prev + pr) = Some (prev + pr + sum_list vs)"
      by blast
    have "\<forall>m < length (pr # vs). finite_integral (up + DELTA * real m) (up + DELTA * real (Suc m)) b e
            = Some ((pr # vs) ! m)"
    proof (intro allI impI)
      fix m assume "m < length (pr # vs)"
      then show "finite_integral (up + DELTA * real m) (up + DELTA * real (Suc m)) b e = Some ((pr # vs) ! m)"
        using fi parts by (cases m) (simp_all add: algebra_simps)
    qed
    with len rec fi False show ?thesis
      by (auto simp: Let_def add.assoc intro!: exI [of _ "pr # vs"])
  qed
qed

lemma midpoint_sum_nonneg:
  "up \<le> to \<Longrightarrow> (\<And>x. 0 \<le> f x) \<Longrightarrow> 0 \<le> midpoint_sum f up to i"
  by (auto simp: midpoint_sum_def Let_def intro!: sum_nonneg)

lemma finite_integral_nonneg:
  assumes "up < to" and "finite_integral up to b e = Some v"
  shows "0 \<le> v"
proof -
  from refine_loop_cells [OF assms(1), of MAX_DIVISIONS 0 "\<lambda>r. integral_func r b e" 0 0] assms(2)
  obtain i where "v = midpoint_sum (\<lambda>r. integral_func r b e) up to i"
    by (auto simp: finite_integral_def MAX_DIVISIONS_def)
  with assms(1) show ?thesis by (simp add: midpoint_sum_nonneg integral_func_nonneg)
qed

section \<open>Properties of the integration\<close>

text \<open>C28: finite_integral on an interval with up < to returns exactly refine_spec: the midpoint Riemann sum with 2^i cells for the first refinement i whose predecessor is nonzero and within PRECISION_DELTA of it, or for i = MAX_DIVISIONS - 1 when none converges; each inner while loop takes exactly 2^i samples at the cell midpoints.\<close>

theorem finite_integral_refines_spec:
  assumes "up < to"
  shows "finite_integral up to b e = Some (refine_spec (\<lambda>r. integral_func r b e) up to)"
  using assms by (rule finite_integral_spec)

text \<open>C30: finite_integral never returns when the upper bound does not exceed the lower one: the first step is not positive and the inner while loop spins forever.\<close>

theorem finite_integral_diverges:
  assumes "to \<le> up"
  shows "finite_integral up to b e = None"
proof -
  have "midpoint_loop (\<lambda>r. integral_func r b e) (to - up) to (up + (to - up)) 0 = None"
    using assms by (intro midpoint_loop_diverges) simp_all
  then show ?thesis by (simp add: finite_integral_def MAX_DIVISIONS_def numeral_eq_Suc Let_def)
qed

text \<open>integral_to_infinite returns 2 b times the sum of the finite integrals over consecutive slabs of width DELTA from up, at most MAX_ITERATIONS of them: the integral to infinity is truncated at up + 336.\<close>

theorem integral_to_infinite_slabs:
  "\<exists>vs. length vs \<le> MAX_ITERATIONS \<and>
     (\<forall>m < length vs. finite_integral (up + DELTA * real m) (up + DELTA * real (Suc m)) b e = Some (vs ! m)) \<and>
     integral_to_infinite up b e = Some (2 * b * sum_list vs)"
  using slab_loop_parts [of MAX_ITERATIONS up b e 0] by (auto simp: integral_to_infinite_def)

text \<open>C29: integral_to_infinite always returns, and returns exactly slab_spec: 2 b times the sum of the specified slab integrals before the first nonzero slab below PRECISION_DELTA that follows a nonzero running sum, or of all MAX_ITERATIONS slabs when there is none.\<close>

theorem integral_to_infinite_refines_spec:
  "integral_to_infinite up b e = Some (slab_spec up b e)"
  by (rule integral_to_infinite_spec)

text \<open>C34: The closed form lies in (0, pi] and equals pi for impact parameter 0.\<close>

theorem analytic_evaluation_range:
  "0 < analytic_evaluation b e \<and> analytic_evaluation b e \<le> pi \<and> analytic_evaluation 0 e = pi"
proof -
  let ?x = "1 / sqrt (1 + 4 * b\<^sup>2 * e\<^sup>2)"
  have d: "1 \<le> sqrt (1 + 4 * b\<^sup>2 * e\<^sup>2)" by simp
  have sp: "0 < sqrt (1 + 4 * b\<^sup>2 * e\<^sup>2)" using d by linarith
  have x1: "0 < ?x" using sp by simp
  have "0 \<le> 4 * b\<^sup>2 * e\<^sup>2" by simp
  then have p: "0 < 1 + 4 * b\<^sup>2 * e\<^sup>2" by linarith
  have "?x \<le> 1 / 1" using d p by (intro divide_left_mono) simp_all
  then have x2: "?x \<le> 1" by simp
  note x = x1 x2
  have "0 < arcsin ?x" using x by (simp add: arcsin_less_mono [of 0 ?x, simplified])
  moreover have "arcsin ?x \<le> pi / 2"
  proof -
    have "-1 \<le> ?x" using x1 by linarith
    then show ?thesis using x2 by (intro arcsin_ubound)
  qed
  ultimately show ?thesis by (simp add: analytic_evaluation_def)
qed

text \<open>C31: For a nonnegative impact parameter the integral to infinity is nonnegative:
  every sampled value of the integrand is, the error branches giving 0.\<close>

theorem integral_to_infinite_nonneg:
  assumes "0 \<le> b" and "integral_to_infinite up b e = Some v"
  shows "0 \<le> v"
proof -
  obtain vs where parts: "\<forall>m < length vs. finite_integral (up + DELTA * real m) (up + DELTA * real (Suc m)) b e
                            = Some (vs ! m)"
    and r: "slab_loop up b e MAX_ITERATIONS 0 = Some (0 + sum_list vs)"
    using slab_loop_parts [of MAX_ITERATIONS up b e 0] by blast
  have "0 \<le> x" if "x \<in> set vs" for x
  proof -
    from that obtain m where m: "m < length vs" "x = vs ! m" by (auto simp: in_set_conv_nth)
    have lt: "up + DELTA * real m < up + DELTA * real (Suc m)" by (simp add: DELTA_def)
    from parts m(1) have "finite_integral (up + DELTA * real m) (up + DELTA * real (Suc m)) b e = Some (vs ! m)"
      by blast
    from finite_integral_nonneg [OF lt this] m(2) show ?thesis by simp
  qed
  then have "0 \<le> sum_list vs" by (simp add: sum_list_nonneg)
  with assms r show ?thesis by (auto simp: integral_to_infinite_def)
qed

text \<open>Witnesses: the first slab of the script's computation for b = 1, and an empty
  interval.\<close>

theorem finite_integral_refines_spec_witness:
  "finite_integral 0 16 1 (1 / 10) = Some (refine_spec (\<lambda>r. integral_func r 1 (1 / 10)) 0 16)"
  using finite_integral_refines_spec [of 0 16 1 "1 / 10"] by simp

theorem finite_integral_diverges_witness: "finite_integral 1 1 1 (1 / 10) = None"
  using finite_integral_diverges [of 1 1 1 "1 / 10"] by simp

theorem integral_to_infinite_slabs_witness:
  "\<exists>vs. integral_to_infinite 0 1 (1 / 10) = Some (2 * sum_list vs) \<and> length vs \<le> 21"
  using integral_to_infinite_slabs [of 0 1 "1 / 10"] by (auto simp: MAX_ITERATIONS_def)

theorem integral_to_infinite_nonneg_witness:
  "\<exists>v. integral_to_infinite 0 1 (1 / 10) = Some v \<and> 0 \<le> v"
proof -
  from slab_loop_parts [of MAX_ITERATIONS 0 1 "1 / 10" 0] obtain v
    where r: "integral_to_infinite 0 1 (1 / 10) = Some v"
    by (auto simp: integral_to_infinite_def)
  from integral_to_infinite_nonneg [OF _ r] r show ?thesis by auto
qed

end
