(* ===== verification/Teta_Cffi.thy ===== *)
theory Teta_Cffi
  imports Teta
begin

text \<open>
  \<open>src/sources/tetaEvaluation_cffi.py\<close>: the same closed form, a generator
  \<open>range_f\<close> of doubles from \<open>start\<close> while not above \<open>end\<close>, and a \<open>main\<close> that
  tabulates the angle computed by a C library loaded through \<open>cffi\<close>. The C code
  (\<open>tetaQuad.h\<close>) is not in the repository, so its two functions are parameters of
  the model: \<open>c_integral\<close> for \<open>lib.integral_to_infinite\<close> and \<open>c_to_degrees\<close> for
  \<open>lib.to_degrees\<close>. Doubles are reals; the generator, which the \<open>for\<close> loop
  consumes completely, is the list it yields, and it is a
  \<open>partial_function (option)\<close> because with a step that is not positive it never
  stops.
\<close>

definition analytic_evaluation_cffi :: "real \<Rightarrow> real \<Rightarrow> real" where
  "analytic_evaluation_cffi b e = 2 * arcsin (1 / sqrt (1 + 4 * b\<^sup>2 * e\<^sup>2))"

partial_function (option) range_f :: "real \<Rightarrow> real \<Rightarrow> real \<Rightarrow> real list option" where
  "range_f start stop step =
     (if start \<le> stop then Option.bind (range_f (start + step) stop step) (\<lambda>rest. Some (start # rest))
      else Some [])"

text \<open>One printed row of \<open>main\<close> (lines 46--55): \<open>(b, theta, analytic)\<close>.\<close>

definition cffi_row :: "(real \<Rightarrow> real \<Rightarrow> real \<Rightarrow> real) \<Rightarrow> (real \<Rightarrow> real) \<Rightarrow> real \<Rightarrow> real \<times> real \<times> real" where
  "cffi_row c_integral c_to_degrees b =
     (b, c_to_degrees \<bar>c_integral 0 b (1 / 10)\<bar>, degrees (analytic_evaluation_cffi b (1 / 10)))"

definition cffi_rows :: "(real \<Rightarrow> real \<Rightarrow> real \<Rightarrow> real) \<Rightarrow> (real \<Rightarrow> real) \<Rightarrow> (real \<times> real \<times> real) list option" where
  "cffi_rows c_integral c_to_degrees = map_option (map (cffi_row c_integral c_to_degrees)) (range_f 0 100 (1 / 2))"

text \<open>The plot of lines 57--67: the theta column as red dots only (the dashed red
  line is commented out), the closed form as a blue dashed line.\<close>

definition cffi_plot :: "(real \<times> real \<times> real) list \<Rightarrow> plot_call list" where
  "cffi_plot rows =
     (let xs = map fst rows; ys = map (fst \<circ> snd) rows; ya = map (snd \<circ> snd) rows in
      [YLabel ''teta'', XLabel ''b'', Plot xs ys ''ro'', Plot xs ya ''b--'',
       Legend [(''red'', ''theta value''), (''blue'', ''analytic value'')], Grid True, Show])"

text \<open>\<open>main\<close> (lines 23--67) once the library is loaded: \<open>var_e = 0.1\<close> and
  \<open>var_a = 0.0\<close> cast to doubles, the message, one printed line per row, the plot.\<close>

definition cffi_main :: "(real \<Rightarrow> real \<Rightarrow> real \<Rightarrow> real) \<Rightarrow> (real \<Rightarrow> real) \<Rightarrow> (out_line list \<times> plot_call list) option" where
  "cffi_main c_integral c_to_degrees =
     map_option (\<lambda>rows. (Msg ''Calculus may take some time...'' # map row_out rows, cffi_plot rows))
       (cffi_rows c_integral c_to_degrees)"

section \<open>Lemmas\<close>

lemma range_f_values:
  assumes "0 < step" and "start + real k * step \<le> stop" and "stop < start + real (Suc k) * step"
  shows "range_f start stop step = Some (map (\<lambda>j. start + real j * step) [0..<Suc k])"
  using assms(2,3)
proof (induction k arbitrary: start)
  case 0
  then have "start \<le> stop" "\<not> start + step \<le> stop" by simp_all
  then show ?case by (simp add: range_f.simps [of start] range_f.simps [of "start + step"])
next
  case (Suc k)
  have e1: "start + step + real k * step = start + real (Suc k) * step"
    and e2: "start + step + real (Suc k) * step = start + real (Suc (Suc k)) * step"
    by (simp_all add: algebra_simps)
  have p1: "start + step + real k * step \<le> stop" unfolding e1 by (rule Suc.prems(1))
  have p2: "stop < start + step + real (Suc k) * step" unfolding e2 by (rule Suc.prems(2))
  have "0 \<le> real (Suc k) * step" using assms(1) by simp
  with Suc.prems(1) have le: "start \<le> stop" by linarith
  have shift: "map (\<lambda>j. start + real j * step) [0..<Suc (Suc k)] =
                 start # map (\<lambda>j. start + step + real j * step) [0..<Suc k]"
  proof -
    have "[0..<Suc (Suc k)] = 0 # map Suc [0..<Suc k]"
      by (simp only: upt_conv_Cons [of 0 "Suc (Suc k)"] map_Suc_upt)
    then show ?thesis by (simp del: upt_Suc add: algebra_simps)
  qed
  from Suc.IH [OF p1 p2] le shift show ?case
    by (simp add: range_f.simps [of start])
qed

section \<open>Properties of the cffi script\<close>

text \<open>C32: With a positive step, range_f returns, and yields exactly the grid start + j * step
  for j from 0 to the floor of (end - start) / step, both ends included when they fall on the
  grid, and nothing when start is above end; main's range_f(0.0, 100, 0.5) thus yields the
  201 values j / 2.\<close>

theorem range_f_arith:
  assumes "0 < step"
  shows "range_f start stop step =
           Some (map (\<lambda>j. start + real j * step) [0..<nat (\<lfloor>(stop - start) / step\<rfloor> + 1)])"
proof (cases "start \<le> stop")
  case True
  define q where "q = (stop - start) / step"
  define k where "k = nat \<lfloor>q\<rfloor>"
  have q0: "0 \<le> q" using True assms by (simp add: q_def)
  then have kq: "real k = of_int \<lfloor>q\<rfloor>" by (simp add: k_def)
  have "real k \<le> q" using kq by simp
  then have "real k * step \<le> stop - start" using assms by (simp add: q_def pos_le_divide_eq)
  then have p1: "start + real k * step \<le> stop" by simp
  have "q < real k + 1" using kq by linarith
  then have "stop - start < (real k + 1) * step" using assms by (simp add: q_def pos_divide_less_eq)
  then have p2: "stop < start + real (Suc k) * step" by (simp add: algebra_simps)
  have n: "nat (\<lfloor>q\<rfloor> + 1) = Suc k" using q0 by (simp add: k_def nat_add_distrib)
  from range_f_values [OF assms p1 p2] n show ?thesis by (simp add: q_def)
next
  case False
  then have "(stop - start) / step < 0" using assms by (simp add: divide_neg_pos)
  then have "\<lfloor>(stop - start) / step\<rfloor> + 1 \<le> 0" by linarith
  with False show ?thesis by (simp add: range_f.simps [of start])
qed

text \<open>Witness: the grid of main.\<close>

theorem range_f_arith_witness:
  "range_f 0 100 (1 / 2) = Some (map (\<lambda>j. real j / 2) [0..<201])"
proof -
  have "nat (\<lfloor>(100 - 0) / (1 / 2 :: real)\<rfloor> + 1) = 201" by simp
  with range_f_arith [of "1 / 2" 0 100] show ?thesis by simp
qed


text \<open>C33: range_f never stops when the step is not positive and the start is not above the end: the generator yields forever.\<close>

theorem range_f_diverges:
  assumes "step \<le> 0" and "start \<le> stop"
  shows "range_f start stop step = None"
proof -
  have "\<not> (step \<le> 0 \<and> start \<le> stop)" if "range_f start stop step = Some r" for r
  proof (rule range_f.raw_induct [where P = "\<lambda>start stop step r. \<not> (step \<le> 0 \<and> start \<le> stop)", OF _ that])
    fix rf :: "real \<Rightarrow> real \<Rightarrow> real \<Rightarrow> real list option" and start stop step :: real and r :: "real list"
    assume IH: "\<And>start stop step r. rf start stop step = Some r \<Longrightarrow> \<not> (step \<le> 0 \<and> start \<le> stop)"
      and body: "(if start \<le> stop then Option.bind (rf (start + step) stop step) (\<lambda>rest. Some (start # rest))
                  else Some []) = Some r"
    show "\<not> (step \<le> 0 \<and> start \<le> stop)"
    proof
      assume a: "step \<le> 0 \<and> start \<le> stop"
      with body obtain r' where "rf (start + step) stop step = Some r'"
        by (cases "rf (start + step) stop step") auto
      moreover have "start + step \<le> stop" using a by linarith
      ultimately show False using IH a by blast
    qed
  qed
  with assms show ?thesis by (cases "range_f start stop step") auto
qed

text \<open>Witness: a zero step.\<close>

theorem range_f_diverges_witness: "range_f 0 100 0 = None"
  using range_f_diverges [of 0 0 100] by simp

end
