(* ===== verification/Config.thy ===== *)
theory Config
  imports World
begin

text \<open>
  The module-level configuration of \<open>sub.py\<close> (lines 13--16): \<open>BIN_DIR\<close> is
  \<open>$HOME/bin\<close>, the file \<open>BIN_DIR/sub.cfg\<close> is read with Python 2's
  \<open>ConfigParser\<close>, and \<open>SOURCES\<close> is its option \<open>source_dir\<close> of section
  \<open>sub\<close>. \<open>ConfigParser\<close> is modelled as the program uses it: \<open>read\<close> of one
  file (a missing file is skipped), the line parser \<open>_read\<close> with its sections,
  options, continuation lines, comments and errors, and \<open>get\<close> with its
  \<open>%(name)s\<close> interpolation. The environment is a map from variable names to
  values.
\<close>

section \<open>Characters and lines\<close>

text \<open>\<open>str.lower()\<close> on byte strings: ASCII letters only.\<close>

definition cfg_lower :: "string \<Rightarrow> string" where
  "cfg_lower = map (\<lambda>c. if (65::nat) \<le> of_char c \<and> of_char c \<le> (90::nat) then char_of (of_char c + (32::nat)) else c)"

definition py_rstrip :: "string \<Rightarrow> string" where
  "py_rstrip s = rev (dropWhile is_py_space (rev s))"

text \<open>\<open>line.split(None, 1)[0]\<close>: the first whitespace-separated word.\<close>

definition first_word :: "string \<Rightarrow> string" where
  "first_word l = takeWhile (\<lambda>c. \<not> is_py_space c) (dropWhile is_py_space l)"

text \<open>Successive \<open>fp.readline()\<close>: each line keeps its newline, the last one may
  lack it.\<close>

definition py_readlines :: "string \<Rightarrow> string list" where
  "py_readlines s =
     (let ps = split_on (CHR 0x0A) s in
      map (\<lambda>p. p @ NL) (butlast ps) @ (if last ps = [] then [] else [last ps]))"

section \<open>The parser state\<close>

datatype sect_ref = Defaults | Named string

text \<open>The fields of \<open>RawConfigParser\<close> and the locals of \<open>_read\<close>: the default
  section, the named sections (each created with its \<open>__name__\<close>), the section
  and option being read, and the bad lines collected for \<open>ParsingError\<close>. An
  option's value is its list of lines, joined by newlines when the read ends.\<close>

record cfg_parser =
  cp_defaults :: "string \<rightharpoonup> string list"
  cp_sections :: "string \<rightharpoonup> (string \<rightharpoonup> string list)"
  cp_cursect :: "sect_ref option"
  cp_optname :: "string option"
  cp_errors :: "(nat \<times> string) list"

definition cfg_empty :: cfg_parser where
  "cfg_empty = \<lparr>cp_defaults = Map.empty, cp_sections = Map.empty, cp_cursect = None,
                cp_optname = None, cp_errors = []\<rparr>"

definition update_sect :: "sect_ref \<Rightarrow> ((string \<rightharpoonup> string list) \<Rightarrow> (string \<rightharpoonup> string list)) \<Rightarrow> cfg_parser \<Rightarrow> cfg_parser" where
  "update_sect r f cp =
     (case r of
        Defaults \<Rightarrow> cp\<lparr>cp_defaults := f (cp_defaults cp)\<rparr>
      | Named n \<Rightarrow> cp\<lparr>cp_sections := (cp_sections cp)(n \<mapsto> f (case cp_sections cp n of Some d \<Rightarrow> d | None \<Rightarrow> Map.empty))\<rparr>)"

section \<open>One line of \<open>_read\<close>\<close>

text \<open>\<open>SECTCRE = r'\[(?P<header>[^]]+)\]'\<close>, matched at the start of the line.\<close>

definition sect_header :: "string \<Rightarrow> string option" where
  "sect_header l =
     (case l of
        c # r \<Rightarrow>
          (let h = takeWhile (\<lambda>x. x \<noteq> CHR '']'') r in
           if c = CHR ''['' \<and> h \<noteq> [] \<and> length h < length r then Some h else None)
      | [] \<Rightarrow> None)"

text \<open>\<open>OPTCRE = r'(?P<option>[^:=\s][^:=]*)\s*(?P<vi>[:=])\s*(?P<value>.*)$'\<close>: the
  option runs to the first \<open>:\<close> or \<open>=\<close>, the value is the rest of the line after
  leading whitespace, without its newline.\<close>

definition opt_line :: "string \<Rightarrow> (string \<times> string) option" where
  "opt_line l =
     (let k = takeWhile (\<lambda>c. c \<notin> set '':='') l; r = dropWhile (\<lambda>c. c \<notin> set '':='') l in
      if k = [] \<or> is_py_space (hd k) \<or> r = [] then None
      else Some (k, takeWhile (\<lambda>c. c \<noteq> CHR 0x0A) (dropWhile is_py_space (tl r))))"

text \<open>The value of an option line: an inline comment \<open>;\<close> is cut when the character
  before it is whitespace (for a \<open>;\<close> at index 0 Python's \<open>optval[-1]\<close> reads the
  last character), then the value is stripped and \<open>""\<close> means empty.\<close>

definition opt_value :: "string \<Rightarrow> string" where
  "opt_value v =
     (let v1 = (if CHR '';'' \<in> set v then
                  (let pos = nat (py_find v '';'') in
                   if is_py_space (v ! (if pos = 0 then length v - 1 else pos - 1)) then take pos v else v)
                else v);
          v2 = py_strip v1
      in if v2 = ''\"\"'' then [] else v2)"

definition open_section :: "string \<Rightarrow> cfg_parser \<Rightarrow> cfg_parser" where
  "open_section h cp =
     (if h \<in> dom (cp_sections cp) then cp\<lparr>cp_cursect := Some (Named h), cp_optname := None\<rparr>
      else if h = ''DEFAULT'' then cp\<lparr>cp_cursect := Some Defaults, cp_optname := None\<rparr>
      else cp\<lparr>cp_sections := (cp_sections cp)(h \<mapsto> [''__name__'' \<mapsto> [h]]),
              cp_cursect := Some (Named h), cp_optname := None\<rparr>)"

definition cfg_read_line :: "string \<Rightarrow> nat \<Rightarrow> string \<Rightarrow> cfg_parser \<Rightarrow> py_exc + cfg_parser" where
  "cfg_read_line fname n l cp =
     (if py_strip l = [] \<or> hd l \<in> set '';#'' then Inr cp
      else if cfg_lower (first_word l) = ''rem'' \<and> hd l \<in> set ''rR'' then Inr cp
      else if is_py_space (hd l) \<and> cp_cursect cp \<noteq> None \<and> cp_optname cp \<noteq> None then
        (let v = py_strip l; opt = the (cp_optname cp) in
         if v = [] then Inr cp
         else Inr (update_sect (the (cp_cursect cp)) (\<lambda>d. d(opt \<mapsto> (case d opt of Some vs \<Rightarrow> vs | None \<Rightarrow> []) @ [v])) cp))
      else (case sect_header l of
              Some h \<Rightarrow> Inr (open_section h cp)
            | None \<Rightarrow>
                (case cp_cursect cp of
                   None \<Rightarrow> Inl (MissingSectionHeaderError fname n l)
                 | Some r \<Rightarrow>
                     (case opt_line l of
                        Some (k, v) \<Rightarrow>
                          (let opt = cfg_lower (py_rstrip k) in
                           Inr ((update_sect r (\<lambda>d. d(opt \<mapsto> [opt_value v])) cp)\<lparr>cp_optname := Some opt\<rparr>))
                      | None \<Rightarrow> Inr (cp\<lparr>cp_errors := cp_errors cp @ [(n, l)]\<rparr>)))))"

text \<open>The loop of \<open>_read\<close> over the lines, numbered from 1; the collected
  \<open>ParsingError\<close> is raised at the end.\<close>

fun cfg_read_lines :: "string \<Rightarrow> nat \<Rightarrow> string list \<Rightarrow> cfg_parser \<Rightarrow> py_exc + cfg_parser" where
  "cfg_read_lines fname n [] cp =
     (if cp_errors cp = [] then Inr cp else Inl (ParsingError fname (cp_errors cp)))"
| "cfg_read_lines fname n (l # ls) cp =
     (case cfg_read_line fname (Suc n) l cp of
        Inl e \<Rightarrow> Inl e
      | Inr cp' \<Rightarrow> cfg_read_lines fname (Suc n) ls cp')"

text \<open>\<open>CONFIG.read(path)\<close>: a file that cannot be opened is skipped.\<close>

definition cfg_read :: "path \<Rightarrow> world \<Rightarrow> cfg_parser \<Rightarrow> py_exc + cfg_parser" where
  "cfg_read p w cp =
     (case files w p of
        None \<Rightarrow> Inr cp
      | Some text \<Rightarrow> cfg_read_lines p 0 (py_readlines text) cp)"

section \<open>get and its interpolation\<close>

text \<open>\<open>_KEYCRE.sub(self._interpolation_replace, value)\<close> with
  \<open>_KEYCRE = r"%\(([^)]*)\)s|."\<close>: the key of every \<open>%(key)s\<close> is lowered.\<close>

function keycre_lower :: "string \<Rightarrow> string" where
  "keycre_lower [] = []"
| "keycre_lower (c # cs) =
     (let k = takeWhile (\<lambda>x. x \<noteq> CHR '')'') (drop 1 cs); r = dropWhile (\<lambda>x. x \<noteq> CHR '')'') (drop 1 cs) in
      if c = CHR ''%'' \<and> take 1 cs = ''('' \<and> take 2 r = '')s''
      then ''%('' @ cfg_lower k @ '')s'' @ keycre_lower (drop 2 r)
      else c # keycre_lower cs)"
  by pat_completeness auto
termination
  by (relation "measure length") (auto simp: less_Suc_eq_le intro!: order.trans [OF diff_le_self] order.trans [OF length_dropWhile_le])

text \<open>\<open>value % d\<close> for a mapping \<open>d\<close>, read character by character as
  Python's \<open>PyString_Format\<close> does: \<open>%%\<close> is a percent sign, \<open>%(key)s\<close> the
  value of \<open>key\<close> (parentheses in the key nest; a missing key is \<open>Inl (Inl key)\<close>,
  the \<open>KeyError\<close>); an incomplete format or key raises \<open>ValueError\<close>. Flags,
  width, precision and the conversions other than \<open>s\<close> and \<open>%\<close> are outside the
  model and raise \<open>ValueError\<close> too.\<close>

datatype pct_state = PctText | PctSign | PctKey nat string | PctConv string

fun pct_format :: "pct_state \<Rightarrow> string \<Rightarrow> (string \<rightharpoonup> string) \<Rightarrow> (string + py_exc) + string" where
  "pct_format PctText [] d = Inr []"
| "pct_format PctSign [] d = Inl (Inr ValueError)"
| "pct_format (PctKey n k) [] d = Inl (Inr ValueError)"
| "pct_format (PctConv v) [] d = Inl (Inr ValueError)"
| "pct_format PctText (c # cs) d =
     (if c = CHR ''%'' then pct_format PctSign cs d else map_sum id (Cons c) (pct_format PctText cs d))"
| "pct_format PctSign (c # cs) d =
     (if c = CHR ''%'' then map_sum id (Cons c) (pct_format PctText cs d)
      else if c = CHR ''('' then pct_format (PctKey 1 []) cs d
      else Inl (Inr ValueError))"
| "pct_format (PctKey n k) (c # cs) d =
     (if c = CHR '')'' \<and> n = 1 then
        (case d (rev k) of None \<Rightarrow> Inl (Inl (rev k)) | Some v \<Rightarrow> pct_format (PctConv v) cs d)
      else pct_format (PctKey (if c = CHR '')'' then n - 1 else if c = CHR ''('' then Suc n else n) (c # k)) cs d)"
| "pct_format (PctConv v) (c # cs) d =
     (if c = CHR ''s'' then map_sum id (append v) (pct_format PctText cs d)
      else if c = CHR ''%'' then map_sum id (Cons c) (pct_format PctText cs d)
      else Inl (Inr ValueError))"

definition contains_key_ref :: "string \<Rightarrow> bool" where
  "contains_key_ref v \<longleftrightarrow> 0 \<le> py_find v ''%(''"

text \<open>\<open>_interpolate\<close>: at most \<open>MAX_INTERPOLATION_DEPTH = 10\<close> rounds of lowering
  the keys and formatting with the section's options; a value that still refers to a
  key raises \<open>InterpolationDepthError\<close>.\<close>

fun cfg_interp :: "nat \<Rightarrow> (string \<rightharpoonup> string) \<Rightarrow> string \<Rightarrow> string \<Rightarrow> string \<Rightarrow> string \<Rightarrow> py_exc + string" where
  "cfg_interp 0 d opt sec raw v =
     (if v \<noteq> [] \<and> contains_key_ref v then Inl (InterpolationDepthError opt sec raw) else Inr v)"
| "cfg_interp (Suc n) d opt sec raw v =
     (if v \<noteq> [] \<and> contains_key_ref v then
        (case pct_format PctText (keycre_lower v) d of
           Inl (Inl k) \<Rightarrow> Inl (InterpolationMissingOptionError opt sec raw k)
         | Inl (Inr e) \<Rightarrow> Inl e
         | Inr v' \<Rightarrow> cfg_interp n d opt sec raw v')
      else Inr v)"

text \<open>\<open>CONFIG.get(section, option)\<close>: an unknown section other than \<open>DEFAULT\<close>
  raises \<open>NoSectionError\<close>; the option, lowered, is looked up in the section and
  then in the defaults (\<open>NoOptionError\<close>); the value, its lines joined, is
  interpolated.\<close>

definition cfg_get :: "cfg_parser \<Rightarrow> string \<Rightarrow> string \<Rightarrow> py_exc + string" where
  "cfg_get cp sec opt =
     (if sec \<notin> dom (cp_sections cp) \<and> sec \<noteq> ''DEFAULT'' then Inl (NoSectionError sec)
      else
        (let sd = (case cp_sections cp sec of Some m \<Rightarrow> m | None \<Rightarrow> Map.empty);
             d = (\<lambda>k. map_option (py_join NL) ((cp_defaults cp ++ sd) k));
             key = cfg_lower opt
         in case d key of
              None \<Rightarrow> Inl (NoOptionError key sec)
            | Some v \<Rightarrow> cfg_interp 10 d key sec v v))"

section \<open>Lines 13--16 of sub.py\<close>

text \<open>\<open>BIN_DIR = os.path.join(os.getenv("HOME"), 'bin')\<close>: with \<open>HOME\<close> unset,
  \<open>os.path.join(None, 'bin')\<close> raises \<open>AttributeError\<close> (\<open>None.endswith\<close>).\<close>

definition bin_dir_of :: "(string \<rightharpoonup> string) \<Rightarrow> py_exc + path" where
  "bin_dir_of env =
     (case env ''HOME'' of
        None \<Rightarrow> Inl (AttributeError ''endswith'')
      | Some h \<Rightarrow> Inr (path_join h ''bin''))"

text \<open>The module's configuration: \<open>(BIN_DIR, SOURCES)\<close> or the exception that
  stops the import.\<close>

definition module_config :: "(string \<rightharpoonup> string) \<Rightarrow> world \<Rightarrow> py_exc + path \<times> path" where
  "module_config env w =
     (case bin_dir_of env of
        Inl e \<Rightarrow> Inl e
      | Inr b \<Rightarrow>
          (case cfg_read (path_join b ''sub.cfg'') w cfg_empty of
             Inl e \<Rightarrow> Inl e
           | Inr cp \<Rightarrow>
               (case cfg_get cp ''sub'' ''source_dir'' of
                  Inl e \<Rightarrow> Inl e
                | Inr src \<Rightarrow> Inr (b, src))))"

section \<open>Rendered configuration files\<close>

text \<open>A configuration file as a list of sections with their options, one
  \<open>key = value\<close> line each, and the conditions under which \<open>ConfigParser\<close> reads it
  back: section names without \<open>]\<close> or newline and other than \<open>DEFAULT\<close>; keys
  lower case, without whitespace, \<open>:\<close> or \<open>=\<close>, not starting a comment or a
  section and other than \<open>rem\<close>; values stripped, on one line, without \<open>;\<close>,
  other than \<open>""\<close> and without \<open>%(\<close>.\<close>

definition ini_lines :: "(string \<times> (string \<times> string) list) list \<Rightarrow> string list" where
  "ini_lines secs =
     concat (map (\<lambda>(s, kvs). (''['' @ s @ '']'') # map (\<lambda>(k, v). k @ '' = '' @ v) kvs) secs)"

definition ini_render :: "(string \<times> (string \<times> string) list) list \<Rightarrow> string" where
  "ini_render secs = concat (map (\<lambda>l. l @ NL) (ini_lines secs))"

definition wf_ini_section :: "string \<Rightarrow> bool" where
  "wf_ini_section s \<longleftrightarrow> s \<noteq> [] \<and> CHR '']'' \<notin> set s \<and> CHR 0x0A \<notin> set s \<and> s \<noteq> ''DEFAULT''"

definition wf_ini_key :: "string \<Rightarrow> bool" where
  "wf_ini_key k \<longleftrightarrow>
     k \<noteq> [] \<and> cfg_lower k = k \<and> (\<forall>c \<in> set k. \<not> is_py_space c \<and> c \<notin> set '':='') \<and>
     hd k \<notin> set '';#['' \<and> k \<noteq> ''rem''"

definition wf_ini_value :: "string \<Rightarrow> bool" where
  "wf_ini_value v \<longleftrightarrow>
     (\<forall>c \<in> set v. c \<noteq> CHR 0x0A \<and> c \<noteq> CHR '';'') \<and> py_strip v = v \<and> v \<noteq> ''\"\"'' \<and>
     \<not> contains_key_ref v"

definition wf_ini :: "(string \<times> (string \<times> string) list) list \<Rightarrow> bool" where
  "wf_ini secs \<longleftrightarrow>
     distinct (map fst secs) \<and>
     (\<forall>(s, kvs) \<in> set secs. wf_ini_section s \<and> distinct (map fst kvs) \<and>
        (\<forall>(k, v) \<in> set kvs. wf_ini_key k \<and> wf_ini_value v))"

text \<open>What reading a section does to the parser.\<close>

definition cfg_set_option :: "sect_ref \<Rightarrow> string \<Rightarrow> string \<Rightarrow> cfg_parser \<Rightarrow> cfg_parser" where
  "cfg_set_option r k v cp = (update_sect r (\<lambda>d. d(k \<mapsto> [v])) cp)\<lparr>cp_optname := Some k\<rparr>"

definition read_section :: "string \<times> (string \<times> string) list \<Rightarrow> cfg_parser \<Rightarrow> cfg_parser" where
  "read_section sk cp = fold (\<lambda>(k, v). cfg_set_option (Named (fst sk)) k v) (snd sk) (open_section (fst sk) cp)"

section \<open>Lemmas\<close>

lemma py_strip_hd:
  assumes "py_strip v = v" and "v \<noteq> []"
  shows "\<not> is_py_space (hd v)"
proof
  assume sp: "is_py_space (hd v)"
  from assms(2) obtain c cs where v: "v = c # cs" by (cases v) auto
  have "length (py_strip v) \<le> length cs"
    using sp v by (simp add: py_strip_def length_dropWhile_le order.trans [OF length_dropWhile_le])
  with assms(1) v show False by simp
qed

lemma py_strip_not_Nil: "l \<noteq> [] \<Longrightarrow> \<not> is_py_space (hd l) \<Longrightarrow> py_strip l \<noteq> []"
  by (cases l) (simp_all add: py_strip_def)

lemma split_on_lines:
  "\<forall>l \<in> set ls. c \<notin> set l \<Longrightarrow> split_on c (concat (map (\<lambda>l. l @ [c]) ls)) = ls @ [[]]"
  by (induction ls) (simp_all add: split_on_append_sep)

lemma py_readlines_lines:
  "\<forall>l \<in> set ls. CHR 0x0A \<notin> set l \<Longrightarrow> py_readlines (concat (map (\<lambda>l. l @ NL) ls)) = map (\<lambda>l. l @ NL) ls"
  by (simp add: py_readlines_def split_on_lines)

lemma takeWhile_upto:
  "c \<notin> set s \<Longrightarrow> takeWhile (\<lambda>x. x \<noteq> c) (s @ c # r) = s"
  by (induction s) auto

lemma cfg_read_line_header:
  assumes "wf_ini_section s"
  shows "cfg_read_line f n (''['' @ s @ '']'' @ NL) cp = Inr (open_section s cp)"
  using assms by (simp add: cfg_read_line_def wf_ini_section_def py_strip_not_Nil is_py_space_def
      sect_header_def takeWhile_upto)

lemma cfg_read_line_option:
  assumes k: "wf_ini_key k" and v: "wf_ini_value v" and r: "cp_cursect cp = Some r"
  shows "cfg_read_line f n (k @ '' = '' @ v @ NL) cp = Inr (cfg_set_option r k v cp)"
proof -
  let ?l = "k @ '' = '' @ v @ NL"
  from k obtain c cs where kc: "k = c # cs" by (cases k) (auto simp: wf_ini_key_def)
  have sp: "\<forall>x \<in> set k. \<not> is_py_space x \<and> x \<notin> set '':=''" using k by (simp add: wf_ini_key_def)
  have hdk: "\<not> is_py_space (hd ?l)" "hd ?l \<notin> set '';#['' " using k kc by (auto simp: wf_ini_key_def)
  have fw: "first_word ?l = k"
    using sp kc by (simp add: first_word_def takeWhile_append2 is_py_space_def)
  have sect: "sect_header ?l = None"
    using hdk(2) kc by (auto simp: sect_header_def Let_def)
  have vhd: "v = [] \<or> \<not> is_py_space (hd v)"
    using v py_strip_hd by (auto simp: wf_ini_value_def)
  have val: "takeWhile (\<lambda>c. c \<noteq> CHR 0x0A) (dropWhile is_py_space ('' '' @ v @ NL)) = v"
    using vhd v by (cases v) (auto simp: is_py_space_def wf_ini_value_def takeWhile_append2)
  have opt: "opt_line ?l = Some (k @ '' '', v)"
    using sp kc val by (simp add: opt_line_def takeWhile_append2 dropWhile_append2 is_py_space_def)
  have rs: "py_rstrip (k @ '' '') = k"
  proof -
    obtain ys y where ky: "k = ys @ [y]" using kc by (metis list.distinct(1) rev_exhaust)
    then have "\<not> is_py_space y" using sp by simp
    with ky show ?thesis by (simp add: py_rstrip_def is_py_space_def)
  qed
  have ov: "opt_value v = v" using v by (auto simp: opt_value_def wf_ini_value_def)
  show ?thesis
    using hdk fw sect opt rs ov r k
    by (simp add: cfg_read_line_def py_strip_not_Nil cfg_set_option_def wf_ini_key_def Let_def)
qed

lemma cfg_set_option_cursect [simp]: "cp_cursect (cfg_set_option r k v cp) = cp_cursect cp"
  by (cases r) (simp_all add: cfg_set_option_def update_sect_def)

lemma cfg_set_option_errors [simp]: "cp_errors (cfg_set_option r k v cp) = cp_errors cp"
  by (cases r) (simp_all add: cfg_set_option_def update_sect_def)

lemma cfg_read_lines_options:
  assumes "cp_cursect cp = Some r" and "\<forall>(k, v) \<in> set kvs. wf_ini_key k \<and> wf_ini_value v"
  shows "cfg_read_lines f n (map (\<lambda>l. l @ NL) (map (\<lambda>(k, v). k @ '' = '' @ v) kvs) @ rest) cp =
         cfg_read_lines f (n + length kvs) rest (fold (\<lambda>(k, v). cfg_set_option r k v) kvs cp)"
  using assms
proof (induction kvs arbitrary: n cp)
  case Nil
  then show ?case by simp
next
  case (Cons kv kvs)
  obtain k v where kv: "kv = (k, v)" by (cases kv)
  have ls: "map (\<lambda>l. l @ NL) (map (\<lambda>(k, v). k @ '' = '' @ v) (kv # kvs)) @ rest =
            (k @ '' = '' @ v @ NL) # (map (\<lambda>l. l @ NL) (map (\<lambda>(k, v). k @ '' = '' @ v) kvs) @ rest)"
    by (simp add: kv)
  have step: "cfg_read_line f (Suc n) (k @ '' = '' @ v @ NL) cp = Inr (cfg_set_option r k v cp)"
    using Cons.prems kv by (intro cfg_read_line_option) auto
  from Cons.IH [of "cfg_set_option r k v cp" "Suc n"] Cons.prems kv
  show ?case
    unfolding ls by (simp only: cfg_read_lines.simps step sum.case) simp
qed

lemma open_section_cursect:
  "wf_ini_section s \<Longrightarrow> cp_cursect (open_section s cp) = Some (Named s)"
  by (simp add: open_section_def wf_ini_section_def)

lemma cfg_read_lines_section:
  assumes "wf_ini_section s" and "\<forall>(k, v) \<in> set kvs. wf_ini_key k \<and> wf_ini_value v"
  shows "cfg_read_lines f n (map (\<lambda>l. l @ NL) ((''['' @ s @ '']'') # map (\<lambda>(k, v). k @ '' = '' @ v) kvs) @ rest) cp =
         cfg_read_lines f (Suc n + length kvs) rest (read_section (s, kvs) cp)"
proof -
  have "cfg_read_line f (Suc n) (''['' @ s @ '']'' @ NL) cp = Inr (open_section s cp)"
    using assms(1) by (rule cfg_read_line_header)
  moreover have "cfg_read_lines f (Suc n) (map (\<lambda>l. l @ NL) (map (\<lambda>(k, v). k @ '' = '' @ v) kvs) @ rest) (open_section s cp) =
         cfg_read_lines f (Suc n + length kvs) rest (read_section (s, kvs) cp)"
    using cfg_read_lines_options [OF open_section_cursect [OF assms(1)] assms(2)]
    by (simp add: read_section_def)
  ultimately show ?thesis by simp
qed

lemma cfg_read_lines_ini:
  assumes "\<forall>(s, kvs) \<in> set secs. wf_ini_section s \<and> (\<forall>(k, v) \<in> set kvs. wf_ini_key k \<and> wf_ini_value v)"
  shows "cfg_read_lines f n (map (\<lambda>l. l @ NL) (ini_lines secs) @ rest) cp =
         cfg_read_lines f (n + length (ini_lines secs)) rest (fold read_section secs cp)"
  using assms
proof (induction secs arbitrary: n cp)
  case Nil
  then show ?case by (simp add: ini_lines_def)
next
  case (Cons sk secs)
  obtain s kvs where sk: "sk = (s, kvs)" by (cases sk)
  have ls: "map (\<lambda>l. l @ NL) (ini_lines (sk # secs)) @ rest =
            map (\<lambda>l. l @ NL) ((''['' @ s @ '']'') # map (\<lambda>(k, v). k @ '' = '' @ v) kvs) @
            (map (\<lambda>l. l @ NL) (ini_lines secs) @ rest)"
    by (simp add: ini_lines_def sk)
  have len: "length (ini_lines (sk # secs)) = Suc (length kvs) + length (ini_lines secs)"
    by (simp add: ini_lines_def sk)
  from Cons.prems sk have "wf_ini_section s" "\<forall>(k, v) \<in> set kvs. wf_ini_key k \<and> wf_ini_value v" by auto
  from cfg_read_lines_section [OF this, of f n "map (\<lambda>l. l @ NL) (ini_lines secs) @ rest" cp]
    Cons.IH [of "Suc n + length kvs" "read_section (s, kvs) cp"] Cons.prems
  show ?case unfolding ls len by (simp add: sk add.assoc)
qed

lemma read_section_errors [simp]: "cp_errors (read_section sk cp) = cp_errors cp"
proof -
  have "cp_errors (fold (\<lambda>(k, v). cfg_set_option r k v) kvs c) = cp_errors c" for r kvs c
    by (induction kvs arbitrary: c) auto
  then show ?thesis by (simp add: read_section_def open_section_def)
qed

lemma fold_read_section_errors: "cp_errors (fold read_section secs cp) = cp_errors cp"
  by (induction secs arbitrary: cp) simp_all

lemma ini_lines_no_newline:
  assumes "wf_ini secs"
  shows "\<forall>l \<in> set (ini_lines secs). CHR 0x0A \<notin> set l"
  using assms by (fastforce simp: wf_ini_def ini_lines_def wf_ini_section_def wf_ini_key_def
      wf_ini_value_def is_py_space_def)

lemma cfg_read_ini:
  assumes "wf_ini secs" and "files w p = Some (ini_render secs)"
  shows "cfg_read p w cfg_empty = Inr (fold read_section secs cfg_empty)"
proof -
  have "\<forall>(s, kvs) \<in> set secs. wf_ini_section s \<and> (\<forall>(k, v) \<in> set kvs. wf_ini_key k \<and> wf_ini_value v)"
    using assms(1) by (auto simp: wf_ini_def)
  from cfg_read_lines_ini [OF this, of p 0 "[]" cfg_empty]
  show ?thesis
    using assms py_readlines_lines [OF ini_lines_no_newline [OF assms(1)]]
    by (simp add: cfg_read_def ini_render_def fold_read_section_errors cfg_empty_def)
qed

lemma fold_upd_out:
  "k \<notin> fst ` set kvs \<Longrightarrow> fold (\<lambda>(k, v) d. d(k \<mapsto> g v)) kvs d0 k = d0 k"
  by (induction kvs arbitrary: d0) auto

lemma fold_upd_in:
  "distinct (map fst kvs) \<Longrightarrow> (k, v) \<in> set kvs \<Longrightarrow> fold (\<lambda>(k, v) d. d(k \<mapsto> g v)) kvs d0 k = Some (g v)"
proof (induction kvs arbitrary: d0)
  case Nil
  then show ?case by simp
next
  case (Cons kv kvs)
  obtain k' v' where kv: "kv = (k', v')" by (cases kv)
  show ?case
  proof (cases "k' = k")
    case True
    with Cons.prems kv have vv: "v' = v" and notin: "k \<notin> fst ` set kvs" by (auto simp: image_iff)
    have eq: "fold (\<lambda>(k, v) d. d(k \<mapsto> g v)) (kv # kvs) d0 = fold (\<lambda>(k, v) d. d(k \<mapsto> g v)) kvs (d0(k \<mapsto> g v))"
      using kv True vv by simp
    show ?thesis unfolding eq fold_upd_out [OF notin] by simp
  next
    case False
    with Cons.prems kv have "(k, v) \<in> set kvs" "distinct (map fst kvs)" by auto
    with Cons.IH kv show ?thesis by simp
  qed
qed

lemma fold_cfg_set_option_sections:
  "s \<in> dom (cp_sections cp) \<Longrightarrow> cp_sections (fold (\<lambda>(k, v). cfg_set_option (Named s) k v) kvs cp) =
     (cp_sections cp)(s \<mapsto> fold (\<lambda>(k, v) d. d(k \<mapsto> [v])) kvs (case cp_sections cp s of Some d \<Rightarrow> d | None \<Rightarrow> Map.empty))"
  by (induction kvs arbitrary: cp) (auto simp: cfg_set_option_def update_sect_def)

lemma fold_cfg_set_option_defaults [simp]:
  "cp_defaults (fold (\<lambda>(k, v). cfg_set_option (Named s) k v) kvs cp) = cp_defaults cp"
  by (induction kvs arbitrary: cp) (auto simp: cfg_set_option_def update_sect_def)

lemma read_section_sections:
  assumes "wf_ini_section s" and "s \<notin> dom (cp_sections cp)"
  shows "cp_sections (read_section (s, kvs) cp) =
           (cp_sections cp)(s \<mapsto> fold (\<lambda>(k, v) d. d(k \<mapsto> [v])) kvs [''__name__'' \<mapsto> [s]])"
  using assms by (simp add: read_section_def fold_cfg_set_option_sections open_section_def wf_ini_section_def)

lemma read_section_defaults:
  "wf_ini_section s \<Longrightarrow> cp_defaults (read_section (s, kvs) cp) = cp_defaults cp"
  by (simp add: read_section_def open_section_def wf_ini_section_def)

text \<open>The sections read from a rendered file, each a map from its keys.\<close>

lemma fold_read_section:
  assumes "wf_ini secs" and "\<forall>s \<in> fst ` set secs. s \<notin> dom (cp_sections cp)"
  shows "cp_defaults (fold read_section secs cp) = cp_defaults cp \<and>
         (\<forall>s. cp_sections (fold read_section secs cp) s =
            (case map_of secs s of
               Some kvs \<Rightarrow> Some (fold (\<lambda>(k, v) d. d(k \<mapsto> [v])) kvs [''__name__'' \<mapsto> [s]])
             | None \<Rightarrow> cp_sections cp s))"
  using assms
proof (induction secs arbitrary: cp)
  case Nil
  then show ?case by simp
next
  case (Cons sk secs)
  obtain s kvs where sk: "sk = (s, kvs)" by (cases sk)
  have ws: "wf_ini_section s" and rest: "wf_ini secs" and notin: "s \<notin> fst ` set secs"
    using Cons.prems(1) sk by (auto simp: wf_ini_def)
  have sec: "cp_sections (read_section (s, kvs) cp) =
               (cp_sections cp)(s \<mapsto> fold (\<lambda>(k, v) d. d(k \<mapsto> [v])) kvs [''__name__'' \<mapsto> [s]])"
    using Cons.prems(2) sk ws by (intro read_section_sections) auto
  have "\<forall>s' \<in> fst ` set secs. s' \<notin> dom (cp_sections (read_section (s, kvs) cp))"
    using Cons.prems(2) notin sec by auto
  note IH = Cons.IH [OF rest this]
  show ?case
  proof (intro conjI allI)
    show "cp_defaults (fold read_section (sk # secs) cp) = cp_defaults cp"
      using IH read_section_defaults [OF ws] sk by simp
  next
    fix s'
    show "cp_sections (fold read_section (sk # secs) cp) s' =
            (case map_of (sk # secs) s' of
               Some kvs \<Rightarrow> Some (fold (\<lambda>(k, v) d. d(k \<mapsto> [v])) kvs [''__name__'' \<mapsto> [s']])
             | None \<Rightarrow> cp_sections cp s')"
    proof (cases "s' = s")
      case True
      with notin have "map_of secs s' = None" by (simp add: map_of_eq_None_iff)
      with IH sec True sk show ?thesis by simp
    next
      case False
      with IH sec sk show ?thesis by (simp split: option.splits)
    qed
  qed
qed

lemma cfg_interp_plain: "\<not> contains_key_ref v \<Longrightarrow> cfg_interp n d opt sec raw v = Inr v"
  by (cases n) simp_all

lemma cfg_get_no_defaults:
  assumes "cp_defaults cp = Map.empty" and "cp_sections cp s = Some m"
  shows "cfg_get cp s k =
           (case m (cfg_lower k) of
              None \<Rightarrow> Inl (NoOptionError (cfg_lower k) s)
            | Some vs \<Rightarrow> cfg_interp 10 (\<lambda>x. map_option (py_join NL) (m x)) (cfg_lower k) s (py_join NL vs) (py_join NL vs))"
  using assms by (simp add: cfg_get_def domI split: option.splits)

text \<open>The parser after reading a rendered file, and its answers.\<close>

lemma ini_parser:
  assumes "wf_ini secs"
  shows "cp_defaults (fold read_section secs cfg_empty) = Map.empty \<and>
         (\<forall>s. cp_sections (fold read_section secs cfg_empty) s =
            map_option (\<lambda>kvs. fold (\<lambda>(k, v) d. d(k \<mapsto> [v])) kvs [''__name__'' \<mapsto> [s]]) (map_of secs s))"
proof -
  have e: "cp_defaults cfg_empty = Map.empty" "cp_sections cfg_empty = Map.empty"
    by (simp_all add: cfg_empty_def)
  from fold_read_section [OF assms, of cfg_empty] e show ?thesis
    by (simp split: option.split)
qed

lemma cfg_get_ini_value:
  assumes wf: "wf_ini secs" and sk: "(s, kvs) \<in> set secs" and kv: "(k, v) \<in> set kvs"
  shows "cfg_get (fold read_section secs cfg_empty) s k = Inr v"
proof -
  from wf sk kv have wk: "cfg_lower k = k" and wv: "\<not> contains_key_ref v" and dk: "distinct (map fst kvs)"
    by (fastforce simp: wf_ini_def wf_ini_key_def wf_ini_value_def)+
  have "map_of secs s = Some kvs" using wf sk by (simp add: wf_ini_def)
  with ini_parser [OF wf] cfg_get_no_defaults fold_upd_in [OF dk kv, where g = "\<lambda>v. [v]"] wk
  show ?thesis by (simp add: cfg_interp_plain [OF wv])
qed

lemma cfg_get_ini_no_option:
  assumes wf: "wf_ini secs" and sk: "(s, kvs) \<in> set secs"
    and nk: "cfg_lower k \<notin> fst ` set kvs" and nn: "cfg_lower k \<noteq> ''__name__''"
  shows "cfg_get (fold read_section secs cfg_empty) s k = Inl (NoOptionError (cfg_lower k) s)"
proof -
  have "map_of secs s = Some kvs" using wf sk by (simp add: wf_ini_def)
  moreover have "fold (\<lambda>(k, v) d. d(k \<mapsto> [v])) kvs [''__name__'' \<mapsto> [s]] (cfg_lower k) = None"
    using fold_upd_out [OF nk, where g = "\<lambda>v. [v]"] nn by simp
  ultimately show ?thesis using ini_parser [OF wf] cfg_get_no_defaults by simp
qed

lemma cfg_get_ini_no_section:
  assumes wf: "wf_ini secs" and ns: "s \<notin> fst ` set secs" "s \<noteq> ''DEFAULT''"
  shows "cfg_get (fold read_section secs cfg_empty) s k = Inl (NoSectionError s)"
proof -
  from ns have "map_of secs s = None" by (simp add: map_of_eq_None_iff)
  with ini_parser [OF wf] have "cp_sections (fold read_section secs cfg_empty) s = None" by simp
  with ns show ?thesis by (simp add: cfg_get_def domIff)
qed

section \<open>Properties of the configuration\<close>

text \<open>ConfigParser reads a rendered configuration file back: every option of every section gets its value, an option that is not in its section raises NoOptionError, and a section that is not in the file raises NoSectionError.\<close>

theorem config_roundtrip:
  assumes wf: "wf_ini secs" and rendered: "files w p = Some (ini_render secs)"
  shows "\<exists>cp. cfg_read p w cfg_empty = Inr cp \<and>
           (\<forall>(s, kvs) \<in> set secs. \<forall>(k, v) \<in> set kvs. cfg_get cp s k = Inr v) \<and>
           (\<forall>(s, kvs) \<in> set secs. \<forall>k. cfg_lower k \<notin> fst ` set kvs \<and> cfg_lower k \<noteq> ''__name__'' \<longrightarrow>
              cfg_get cp s k = Inl (NoOptionError (cfg_lower k) s)) \<and>
           (\<forall>s k. s \<notin> fst ` set secs \<and> s \<noteq> ''DEFAULT'' \<longrightarrow> cfg_get cp s k = Inl (NoSectionError s))"
  using cfg_read_ini [OF wf rendered] cfg_get_ini_value [OF wf] cfg_get_ini_no_option [OF wf]
    cfg_get_ini_no_section [OF wf]
  by blast

end
