(* ===== verification/Cli.thy ===== *)
theory Cli
  imports Submit "HOL-Library.List_Lexorder" "HOL-Library.Char_ord"
begin

text \<open>
  The entry point \<open>main()\<close> of \<open>sub.py\<close> (lines 212--269): list the sources
  directory, number its entries in sorted order, check the project argument against
  the entries, \<open>getList\<close> and the numbers, then either print the numbered list or
  run one job, chosen by number or by name. \<open>os.listdir\<close> is an input of the model
  (\<open>None\<close> when it raises \<open>OSError\<close>); the command line is taken after
  \<open>argparse\<close> has split it into the record \<open>cli\<close>, and of \<open>argparse\<close> only the
  \<open>choices\<close> check is modelled. Python's \<open>sorted\<close> on byte strings is \<open>sort\<close>
  under the lexicographic order of \<open>List_Lexorder\<close>.
\<close>

record cli =
  cli_name :: string
  cli_input_args :: "string list"
  cli_nodes :: "int option"
  cli_processes :: "int option"

datatype main_end = Exited int | Crashed py_exc

text \<open>\<open>num_projects\<close>: the strings \<open>"0"\<close> to \<open>str(len(list_dir) - 1)\<close>.\<close>

definition num_projects :: "string list \<Rightarrow> string list" where
  "num_projects list_dir = map (\<lambda>i. py_str_int (int i)) [0..<length list_dir]"

definition projects :: "string list \<Rightarrow> string \<rightharpoonup> string" where
  "projects list_dir = map_of (zip (num_projects list_dir) (sort list_dir))"

definition choices :: "string list \<Rightarrow> string list" where
  "choices list_dir = list_dir @ [''getList''] @ num_projects list_dir"

fun list_rows :: "nat \<Rightarrow> string list \<Rightarrow> world \<Rightarrow> world" where
  "list_rows i [] w = w"
| "list_rows i (p # ps) w = list_rows (Suc i) ps (py_print (''  '' @ py_str_int (int i) @ '') '' @ p) NL w)"

text \<open>\<open>os.system('clear')\<close> empties the terminal.\<close>

definition os_system_clear :: "world \<Rightarrow> world" where
  "os_system_clear w = w\<lparr>screen := []\<rparr>"

text \<open>\<open>proc.run()\<close> followed by \<open>sys.exit(0)\<close>; an exception out of \<open>run\<close> ends the
  program instead.\<close>

definition launch :: "config \<Rightarrow> string \<Rightarrow> cli \<Rightarrow> world \<Rightarrow> (main_end \<times> world) option" where
  "launch cfg p a w =
     (case run cfg (new_submit p (cli_nodes a) (cli_processes a) (cli_input_args a)) (os_system_clear w) of
        None \<Rightarrow> None
      | Some (Raised e, s, w') \<Rightarrow> Some (Crashed e, w')
      | Some (Returned r, s, w') \<Rightarrow> Some (Exited 0, w'))"

definition main :: "config \<Rightarrow> string list option \<Rightarrow> cli \<Rightarrow> world \<Rightarrow> (main_end \<times> world) option" where
  "main cfg ls a w =
     (case ls of
        None \<Rightarrow> Some (Exited (-1), py_print ''Error: you have to configure the source folder inside sub.cfg'' NL w)
      | Some list_dir \<Rightarrow>
          (if cli_name a \<notin> set (choices list_dir) then
             Some (Exited 2, py_print (''error: argument project: invalid choice: '' @ cli_name a) NL w)
           else if cli_name a = ''getList'' then
             Some (Exited 0, list_rows 0 (sort list_dir) (py_print ''Your projects are:'' NL w))
           else if cli_name a \<in> set (num_projects list_dir) then
             launch cfg (the (projects list_dir (cli_name a))) a w
           else launch cfg (cli_name a) a w))"

section \<open>Lemmas\<close>

lemma distinct_num_projects: "distinct (num_projects l)"
  by (auto simp: num_projects_def distinct_map inj_on_def dest: py_str_int_nat_inj)

lemma num_projects_letter: "CHR ''g'' \<in> set s \<Longrightarrow> s \<notin> set (num_projects l)"
proof
  assume g: "CHR ''g'' \<in> set s" and "s \<in> set (num_projects l)"
  then obtain i where "py_str_int (int i) = s" by (auto simp: num_projects_def)
  with g have "CHR ''g'' \<in> set (nat_digits i)" by (simp add: py_str_int_def)
  from nat_digits_digits [OF this] show False by simp
qed

lemma num_projects_not_getList: "''getList'' \<notin> set (num_projects l)"
  by (rule num_projects_letter) simp

lemma list_rows_effect:
  "issued (list_rows i ps w) = issued w \<and>
   screen (list_rows i ps w) = screen w @ map (\<lambda>(k, p). ''  '' @ py_str_int (int k) @ '') '' @ p @ NL) (zip [i..<i + length ps] ps)"
proof (induction ps arbitrary: i w)
  case Nil
  then show ?case by simp
next
  case (Cons p ps)
  then show ?case by (simp add: world_simps upt_rec)
qed


lemma py_str_int_small: "py_str_int 0 = ''0''" "py_str_int 1 = ''1''"
  by code_simp+


section \<open>Properties of the entry point\<close>

text \<open>C22: A project argument that is the number i, for i below the number of entries, launches the i-th entry of the sorted source directory.\<close>

theorem main_numeric_dispatch:
  assumes "i < length list_dir" and "cli_name a = py_str_int (int i)"
  shows "main cfg (Some list_dir) a w = launch cfg (sort list_dir ! i) a w"
proof -
  have n: "cli_name a = num_projects list_dir ! i" using assms by (simp add: num_projects_def)
  have "projects list_dir (num_projects list_dir ! i) = Some (sort list_dir ! i)"
    unfolding projects_def using assms(1) distinct_num_projects
    by (intro map_of_zip_nth) (simp_all add: num_projects_def)
  moreover have "cli_name a \<in> set (num_projects list_dir)" using n assms(1) by (simp add: num_projects_def)
  moreover have "cli_name a \<noteq> ''getList''" using calculation(2) num_projects_not_getList by auto
  ultimately show ?thesis using n by (simp add: main_def choices_def)
qed

text \<open>Witness: entries beta and alpha, argument 0.\<close>

theorem main_numeric_dispatch_witness:
  "main \<lparr>bin_dir = ''/u/bin'', source_dir = ''/u/src''\<rparr> (Some [''beta'', ''alpha''])
     \<lparr>cli_name = ''0'', cli_input_args = [], cli_nodes = Some 4, cli_processes = Some 1\<rparr>
     (init_world (\<lambda>n c. (0, [], [])) None Map.empty {} (\<lambda>_. Map.empty)) =
   launch \<lparr>bin_dir = ''/u/bin'', source_dir = ''/u/src''\<rparr> ''alpha''
     \<lparr>cli_name = ''0'', cli_input_args = [], cli_nodes = Some 4, cli_processes = Some 1\<rparr>
     (init_world (\<lambda>n c. (0, [], [])) None Map.empty {} (\<lambda>_. Map.empty))"
  using main_numeric_dispatch [of 0 "[''beta'', ''alpha'']"
      "\<lparr>cli_name = ''0'', cli_input_args = [], cli_nodes = Some 4, cli_processes = Some 1\<rparr>"
      "\<lparr>bin_dir = ''/u/bin'', source_dir = ''/u/src''\<rparr>"
      "init_world (\<lambda>n c. (0, [], [])) None Map.empty {} (\<lambda>_. Map.empty)"]
  by (simp add: py_str_int_small)

text \<open>C27: getList prints the heading and one numbered row per entry in sorted order, runs no command and exits with 0.\<close>

theorem main_getList:
  assumes "cli_name a = ''getList''"
  shows "\<exists>w'. main cfg (Some list_dir) a w = Some (Exited 0, w') \<and> issued w' = issued w \<and>
           screen w' = screen w @ [''Your projects are:'' @ NL] @
             map (\<lambda>(k, p). ''  '' @ py_str_int (int k) @ '') '' @ p @ NL) (zip [0..<length list_dir] (sort list_dir))"
  using assms list_rows_effect [of 0 "sort list_dir" "py_print ''Your projects are:'' NL w"]
  by (simp add: main_def choices_def world_simps)

theorem main_getList_witness:
  "\<exists>w'. main \<lparr>bin_dir = ''/u/bin'', source_dir = ''/u/src''\<rparr> (Some [''beta'', ''alpha''])
       \<lparr>cli_name = ''getList'', cli_input_args = [], cli_nodes = Some 4, cli_processes = Some 1\<rparr>
       (init_world (\<lambda>n c. (0, [], [])) None Map.empty {} (\<lambda>_. Map.empty))
     = Some (Exited 0, w') \<and> issued w' = [] \<and>
     screen w' = [''Your projects are:'' @ NL, ''  0) alpha'' @ NL, ''  1) beta'' @ NL]"
  using main_getList [of "\<lparr>cli_name = ''getList'', cli_input_args = [], cli_nodes = Some 4, cli_processes = Some 1\<rparr>"
      "\<lparr>bin_dir = ''/u/bin'', source_dir = ''/u/src''\<rparr>" "[''beta'', ''alpha'']"
      "init_world (\<lambda>n c. (0, [], [])) None Map.empty {} (\<lambda>_. Map.empty)"]
  by (simp add: py_str_int_small init_world_def)

text \<open>main exits with -1 exactly when the source directory cannot be listed, otherwise with 0 or with argparse's 2 for an invalid project, and runs no command unless it exits with 0 after a job.\<close>

theorem main_exit_codes:
  assumes "main cfg ls a w = Some (Exited c, w')"
  shows "(c = -1 \<longleftrightarrow> ls = None) \<and> c \<in> {-1, 0, 2} \<and> (c \<noteq> 0 \<longrightarrow> issued w' = issued w)"
  using assms
  by (auto simp: main_def launch_def world_simps split: option.splits if_splits prod.splits outcome.splits)

theorem main_exit_codes_witness:
  "\<exists>w'. main \<lparr>bin_dir = ''/u/bin'', source_dir = ''/u/src''\<rparr> None
       \<lparr>cli_name = ''demo'', cli_input_args = [], cli_nodes = Some 4, cli_processes = Some 1\<rparr>
       (init_world (\<lambda>n c. (0, [], [])) None Map.empty {} (\<lambda>_. Map.empty)) = Some (Exited (-1), w') \<and>
     issued w' = []"
proof -
  let ?w' = "py_print ''Error: you have to configure the source folder inside sub.cfg'' NL
               (init_world (\<lambda>n c. (0, [], [])) None Map.empty {} (\<lambda>_. Map.empty))"
  have r: "main \<lparr>bin_dir = ''/u/bin'', source_dir = ''/u/src''\<rparr> None
       \<lparr>cli_name = ''demo'', cli_input_args = [], cli_nodes = Some 4, cli_processes = Some 1\<rparr>
       (init_world (\<lambda>n c. (0, [], [])) None Map.empty {} (\<lambda>_. Map.empty)) = Some (Exited (-1), ?w')"
    by (simp add: main_def)
  from main_exit_codes [OF r] r show ?thesis by (auto simp: init_world_def)
qed

end
