(* ===== verification/Args.thy ===== *)
theory Args
  imports Cli
begin

text \<open>
  The command line of \<open>sub.py\<close> as Python 2.7's \<open>argparse\<close> reads it with the
  parser \<open>main()\<close> builds (lines 227--250): the positional \<open>project\<close> with its
  \<open>choices\<close>, the positional \<open>input_args\<close> with \<open>nargs=argparse.REMAINDER\<close>, and
  the options \<open>-n/--nodes\<close> and \<open>-p/--processes\<close> (\<open>type=int\<close>, \<open>nargs='?'\<close>,
  defaults 4 and 1, no \<open>const\<close>) besides \<open>-h/--help\<close>. Each argument is first
  classified (\<open>_parse_optional\<close>: an option, possibly abbreviated or with an attached
  value, an unknown option, or a plain argument; everything after \<open>--\<close> is plain),
  then the arguments are consumed left to right as \<open>_parse_known_args\<close> does. The
  help text and the usage line \<open>argparse\<close> prints are not modelled; its messages are
  kept without Python's quotes and the list of choices.
\<close>

datatype arg_action = AHelp | ANodes | AProcs

definition option_action :: "string \<Rightarrow> arg_action option" where
  "option_action s =
     map_of [(''-h'', AHelp), (''--help'', AHelp), (''-n'', ANodes), (''--nodes'', ANodes),
             (''-p'', AProcs), (''--processes'', AProcs)] s"

definition action_name :: "arg_action \<Rightarrow> string" where
  "action_name a = (case a of AHelp \<Rightarrow> ''-h/--help'' | ANodes \<Rightarrow> ''-n/--nodes'' | AProcs \<Rightarrow> ''-p/--processes'')"

datatype arg_error =
    TooFewArguments
  | Unrecognized "string list"
  | InvalidChoice string
  | InvalidInt string string
  | AmbiguousOption string
  | IgnoredExplicit string string

datatype arg_class = ArgA | ArgSep | ArgOpt arg_action string "string option" | ArgUnknown | ArgAmbiguous

definition is_digit :: "char \<Rightarrow> bool" where
  "is_digit c \<longleftrightarrow> (48::nat) \<le> of_char c \<and> (of_char c :: nat) < 58"

text \<open>\<open>_negative_number_matcher = '^-\d+$|^-\d*\.\d+$'\<close> (\<open>$\<close> also matches before a
  final newline).\<close>

definition is_negative_number :: "string \<Rightarrow> bool" where
  "is_negative_number s =
     (case s of
        c # r \<Rightarrow>
          (let r' = (if r \<noteq> [] \<and> last r = CHR 0x0A then butlast r else r);
               a = takeWhile is_digit r'; b = dropWhile is_digit r'
           in c = CHR ''-'' \<and>
              ((r' \<noteq> [] \<and> b = []) \<or>
               (b \<noteq> [] \<and> hd b = CHR ''.'' \<and> tl b \<noteq> [] \<and> (\<forall>x \<in> set (tl b). is_digit x))))
      | [] \<Rightarrow> False)"

text \<open>\<open>_get_option_tuples\<close>: a long prefix matches every long option it starts, with
  the value after \<open>=\<close>; a single dash matches the two-character option and takes the
  rest as its value.\<close>

definition option_tuples :: "string \<Rightarrow> (arg_action \<times> string \<times> string option) list" where
  "option_tuples s =
     (if s ! 1 = CHR ''-'' then
        (let pre = takeWhile (\<lambda>c. c \<noteq> CHR ''='') s;
             ex = (if CHR ''='' \<in> set s then Some (tl (dropWhile (\<lambda>c. c \<noteq> CHR ''='') s)) else None)
         in map (\<lambda>x. (the (option_action x), x, ex))
              (filter (starts_with pre) [''--help'', ''--nodes'', ''--processes'']))
      else
        map (\<lambda>x. (the (option_action x), x, Some (drop 2 s)))
          (filter (\<lambda>x. x = take 2 s) [''-h'', ''-n'', ''-p'']))"

text \<open>\<open>_parse_optional\<close>, for one argument before \<open>--\<close>.\<close>

definition classify :: "string \<Rightarrow> arg_class" where
  "classify s =
     (if s = [] \<or> hd s \<noteq> CHR ''-'' then ArgA
      else case option_action s of
        Some a \<Rightarrow> ArgOpt a s None
      | None \<Rightarrow>
          (if length s = 1 then ArgA
           else
             (let os = takeWhile (\<lambda>c. c \<noteq> CHR ''='') s in
              if CHR ''='' \<in> set s \<and> option_action os \<noteq> None then
                ArgOpt (the (option_action os)) os (Some (tl (dropWhile (\<lambda>c. c \<noteq> CHR ''='') s)))
              else
                (case option_tuples s of
                   [] \<Rightarrow> (if is_negative_number s \<or> CHR '' '' \<in> set s then ArgA else ArgUnknown)
                 | [(a, os, e)] \<Rightarrow> ArgOpt a os e
                 | _ \<Rightarrow> ArgAmbiguous))))"

fun classify_all :: "string list \<Rightarrow> arg_class list" where
  "classify_all [] = []"
| "classify_all (s # ss) = (if s = ''--'' then ArgSep # map (\<lambda>_. ArgA) ss else classify s # classify_all ss)"

text \<open>Python's \<open>int(s)\<close> on a byte string: surrounding whitespace, a sign, decimal
  digits.\<close>

definition py_int :: "string \<Rightarrow> int option" where
  "py_int s =
     (let t = py_strip s;
          digits = (\<lambda>ds. if ds \<noteq> [] then map_option int (parse_digits 0 ds) else None)
      in case t of
           c # ds \<Rightarrow>
             (if c = CHR ''-'' then map_option uminus (digits ds)
              else if c = CHR ''+'' then digits ds else digits t)
         | [] \<Rightarrow> None)"

text \<open>The namespace being filled, with the defaults of the parser.\<close>

record arg_ns =
  ns_name :: string
  ns_input_args :: "string list"
  ns_nodes :: "int option"
  ns_processes :: "int option"

definition ns_default :: arg_ns where
  "ns_default = \<lparr>ns_name = [], ns_input_args = [], ns_nodes = Some 4, ns_processes = Some 1\<rparr>"

definition set_opt :: "arg_action \<Rightarrow> int option \<Rightarrow> arg_ns \<Rightarrow> arg_ns" where
  "set_opt a v ns = (case a of ANodes \<Rightarrow> ns\<lparr>ns_nodes := v\<rparr> | AProcs \<Rightarrow> ns\<lparr>ns_processes := v\<rparr> | AHelp \<Rightarrow> ns)"

text \<open>\<open>_get_values\<close> for \<open>nargs='?'\<close>: no string is the \<open>const\<close>, \<open>None\<close>; a string
  \<open>--\<close> is dropped first; \<open>type=int\<close> rejects what \<open>int()\<close> rejects.\<close>

definition get_values :: "arg_action \<Rightarrow> string list \<Rightarrow> arg_error + int option" where
  "get_values a ss =
     (case remove1 ''--'' ss of
        [] \<Rightarrow> Inr None
      | v # _ \<Rightarrow> (case py_int v of None \<Rightarrow> Inl (InvalidInt (action_name a) v) | Some n \<Rightarrow> Inr (Some n)))"

datatype parsed = ShowHelp | Parsed cli

text \<open>The positionals \<open>project\<close> and \<open>input_args\<close> match together (pattern
  \<open>(-*A-*)([-AO]*)\<close>): the project's strings, then everything left.\<close>

definition positional_split :: "(string \<times> arg_class) list \<Rightarrow> (string list \<times> string list) option" where
  "positional_split toks =
     (case toks of
        (s, ArgA) # (s', ArgSep) # r \<Rightarrow> Some ([s, s'], map fst r)
      | (s, ArgA) # r \<Rightarrow> Some ([s], map fst r)
      | (s, ArgSep) # (s', ArgA) # r \<Rightarrow> Some ([s, s'], map fst r)
      | _ \<Rightarrow> None)"

definition is_O :: "arg_class \<Rightarrow> bool" where
  "is_O c = (case c of ArgOpt a os e \<Rightarrow> True | ArgUnknown \<Rightarrow> True | _ \<Rightarrow> False)"

text \<open>Taking the positionals: the project must be one of the \<open>choices\<close>; then the
  unrecognized arguments collected before are an error.\<close>

definition take_positionals ::
  "string list \<Rightarrow> string list \<Rightarrow> string list \<Rightarrow> string list \<Rightarrow> arg_ns \<Rightarrow> arg_error + parsed" where
  "take_positionals ch nm rest ex ns =
     (let name = hd (remove1 ''--'' nm) in
      if name \<notin> set ch then Inl (InvalidChoice name)
      else if ex \<noteq> [] then Inl (Unrecognized ex)
      else Inr (Parsed \<lparr>cli_name = name, cli_input_args = rest, cli_nodes = ns_nodes ns,
                        cli_processes = ns_processes ns\<rparr>))"

text \<open>A help flag with attached characters, \<open>-hX...\<close>: each character is read as a
  further single-dash flag; help is taken first and exits.\<close>

fun help_chain :: "string \<Rightarrow> arg_error + parsed" where
  "help_chain [] = Inr ShowHelp"
| "help_chain (c # r) =
     (case option_action [CHR ''-'', c] of
        None \<Rightarrow> Inl (IgnoredExplicit (action_name AHelp) (c # r))
      | Some AHelp \<Rightarrow> (if r = [] then Inr ShowHelp else help_chain r)
      | Some _ \<Rightarrow> Inr ShowHelp)"

text \<open>The loop of \<open>_parse_known_args\<close> from the current argument: before the next
  option the positionals are tried, and arguments they cannot take are extras; an
  option consumes its value (\<open>consume_optional\<close>).\<close>

function args_loop ::
  "string list \<Rightarrow> (string \<times> arg_class) list \<Rightarrow> string list \<Rightarrow> arg_ns \<Rightarrow> arg_error + parsed" where
  "args_loop ch toks ex ns =
     (case positional_split toks of
        Some (nm, rest) \<Rightarrow> take_positionals ch nm rest ex ns
      | None \<Rightarrow>
          (let k = length (takeWhile (\<lambda>t. \<not> is_O (snd t)) toks) in
           if k = length toks then Inl TooFewArguments
           else if 0 < k then args_loop ch (drop k toks) (ex @ map fst (take k toks)) ns
           else
             (case toks of
                (s, ArgUnknown) # r \<Rightarrow> args_loop ch r (ex @ [s]) ns
              | (s, ArgOpt AHelp os None) # r \<Rightarrow> Inr ShowHelp
              | (s, ArgOpt AHelp os (Some e)) # r \<Rightarrow>
                  (if os ! 1 \<noteq> CHR ''-'' then help_chain e else Inl (IgnoredExplicit (action_name AHelp) e))
              | (s, ArgOpt a os (Some e)) # r \<Rightarrow>
                  (case get_values a [e] of Inl err \<Rightarrow> Inl err | Inr v \<Rightarrow> args_loop ch r ex (set_opt a v ns))
              | (s, ArgOpt a os None) # (s', ArgA) # r \<Rightarrow>
                  (case get_values a [s'] of Inl err \<Rightarrow> Inl err | Inr v \<Rightarrow> args_loop ch r ex (set_opt a v ns))
              | (s, ArgOpt a os None) # r \<Rightarrow>
                  (case get_values a [] of Inl err \<Rightarrow> Inl err | Inr v \<Rightarrow> args_loop ch r ex (set_opt a v ns))
              | _ \<Rightarrow> Inl TooFewArguments)))"
  by pat_completeness auto
termination
  by (relation "measure (\<lambda>(ch, toks, ex, ns). length toks)")
     (auto, metis diff_less length_greater_0_conv takeWhile.simps(1))

declare args_loop.simps [simp del]

text \<open>\<open>parser.parse_args()\<close> on the arguments after the program name: an ambiguous
  abbreviation stops the parse before anything is consumed.\<close>

definition parse_args :: "string list \<Rightarrow> string list \<Rightarrow> arg_error + parsed" where
  "parse_args ch argv =
     (let cls = classify_all argv in
      case find (\<lambda>(s, c). c = ArgAmbiguous) (zip argv cls) of
        Some (s, c) \<Rightarrow> Inl (AmbiguousOption s)
      | None \<Rightarrow> args_loop ch (zip argv cls) [] ns_default)"

text \<open>The message after \<open>error:\<close> that \<open>parser.error\<close> prints before exiting with 2.\<close>

definition arg_error_msg :: "arg_error \<Rightarrow> string" where
  "arg_error_msg e =
     (case e of
        TooFewArguments \<Rightarrow> ''too few arguments''
      | Unrecognized xs \<Rightarrow> ''unrecognized arguments: '' @ py_join '' '' xs
      | InvalidChoice v \<Rightarrow> ''argument project: invalid choice: '' @ v
      | InvalidInt a v \<Rightarrow> ''argument '' @ a @ '': invalid int value: '' @ v
      | AmbiguousOption v \<Rightarrow> ''ambiguous option: '' @ v
      | IgnoredExplicit a v \<Rightarrow> ''argument '' @ a @ '': ignored explicit argument '' @ v)"

text \<open>\<open>main()\<close> from the command line: the listing of the sources (lines 217--221),
  then \<open>parser.parse_args()\<close> (line 250): an error exits with 2, help with 0, and
  parsed arguments go on as \<open>Cli.main\<close>.\<close>

definition main_argv :: "config \<Rightarrow> string list option \<Rightarrow> string list \<Rightarrow> world \<Rightarrow> (main_end \<times> world) option" where
  "main_argv cfg ls argv w =
     (case ls of
        None \<Rightarrow> Some (Exited (-1), py_print ''Error: you have to configure the source folder inside sub.cfg'' NL w)
      | Some list_dir \<Rightarrow>
          (case parse_args (choices list_dir) argv of
             Inl e \<Rightarrow> Some (Exited 2, py_print (''error: '' @ arg_error_msg e) NL w)
           | Inr ShowHelp \<Rightarrow> Some (Exited 0, w)
           | Inr (Parsed a) \<Rightarrow> main cfg ls a w))"

section \<open>Lemmas\<close>

lemma args_loop_positional:
  "positional_split toks = Some (nm, rest) \<Longrightarrow> args_loop ch toks ex ns = take_positionals ch nm rest ex ns"
  by (subst args_loop.simps) simp

lemma args_loop_value:
  "a \<noteq> AHelp \<Longrightarrow>
   args_loop ch ((s, ArgOpt a os None) # (s', ArgA) # r) ex ns =
     (case get_values a [s'] of Inl err \<Rightarrow> Inl err | Inr v \<Rightarrow> args_loop ch r ex (set_opt a v ns))"
  by (subst args_loop.simps) (cases a, auto simp: positional_split_def is_O_def)

lemma args_loop_no_value:
  "a \<noteq> AHelp \<Longrightarrow> is_O c \<Longrightarrow>
   args_loop ch ((s, ArgOpt a os None) # (s', c) # r) ex ns = args_loop ch ((s', c) # r) ex (set_opt a None ns)"
  by (subst args_loop.simps) (cases a; cases c, auto simp: positional_split_def is_O_def get_values_def)

lemma classify_plain: "s \<noteq> [] \<Longrightarrow> hd s \<noteq> CHR ''-'' \<Longrightarrow> classify s = ArgA"
  by (simp add: classify_def)

lemma nat_digits_is_digit: "\<forall>c \<in> set (nat_digits m). is_digit c"
  using nat_digits_digits by (auto simp: is_digit_def)

lemma classify_str_int: "classify (py_str_int n) = ArgA"
proof (cases "n < 0")
  case False
  have ne: "nat_digits (nat n) \<noteq> []" by (rule nat_digits_not_Nil)
  then have "is_digit (hd (nat_digits (nat n)))" using nat_digits_is_digit [of "nat n"] by simp
  then have "hd (nat_digits (nat n)) \<noteq> CHR ''-''" by (auto simp: is_digit_def)
  with False ne show ?thesis by (simp add: py_str_int_def classify_plain)
next
  case True
  let ?d = "nat_digits (nat (- n))"
  have dig: "\<forall>c \<in> set ?d. is_digit c" by (rule nat_digits_is_digit)
  obtain x xs where d: "?d = x # xs" using nat_digits_not_Nil by (cases ?d) auto
  have x: "is_digit x" and xs: "\<forall>c \<in> set xs. is_digit c" using dig d by simp_all
  have nx: "x \<notin> set ''-hnp=''" using x by (auto simp: is_digit_def)
  have eq: "CHR ''='' \<notin> set xs" using xs by (auto simp: is_digit_def)
  have nl: "last (x # xs) \<noteq> CHR 0x0A"
  proof -
    have "is_digit (last (x # xs))" using x xs by (cases xs rule: rev_cases) auto
    then show ?thesis by (auto simp: is_digit_def)
  qed
  have neg: "is_negative_number (CHR ''-'' # x # xs)"
    using nl x xs by (simp add: is_negative_number_def)
  have opt: "option_action (CHR ''-'' # x # xs) = None"
    using nx by (simp add: option_action_def)
  have tup: "option_tuples (CHR ''-'' # x # xs) = []"
    using nx by (auto simp: option_tuples_def)
  show ?thesis
    using True d neg opt tup nx eq by (auto simp: py_str_int_def classify_def Let_def)
qed

lemma digit_not_space: "is_digit c \<Longrightarrow> \<not> is_py_space c"
  by (auto simp: is_digit_def is_py_space_def)

lemma py_strip_no_space: "\<forall>c \<in> set s. \<not> is_py_space c \<Longrightarrow> py_strip s = s"
proof -
  have dw: "dropWhile is_py_space xs = xs" if "\<forall>c \<in> set xs. \<not> is_py_space c" for xs
    using that by (cases xs) auto
  assume "\<forall>c \<in> set s. \<not> is_py_space c"
  with dw [of s] dw [of "rev s"] show ?thesis by (simp add: py_strip_def)
qed

lemma py_int_digits:
  assumes "\<forall>c \<in> set d. is_digit c" and "d \<noteq> []" and "parse_digits 0 d = Some m"
  shows "py_int d = Some (int m)" and "py_int (CHR ''-'' # d) = Some (- int m)"
proof -
  have sp: "\<forall>c \<in> set d. \<not> is_py_space c" using assms(1) digit_not_space by blast
  have "\<not> is_py_space (CHR ''-'')" by (simp add: is_py_space_def)
  with sp have sp': "\<forall>c \<in> set (CHR ''-'' # d). \<not> is_py_space c" by simp
  have hd: "is_digit (hd d)" using assms(1,2) by simp
  then have "hd d \<noteq> CHR ''-''" "hd d \<noteq> CHR ''+''" by (auto simp: is_digit_def)
  then show "py_int d = Some (int m)"
    using py_strip_no_space [OF sp] assms(2,3) by (cases d) (simp_all add: py_int_def Let_def)
  show "py_int (CHR ''-'' # d) = Some (- int m)"
    using py_strip_no_space [OF sp'] assms(2,3) by (simp add: py_int_def Let_def)
qed

lemma py_int_str_int: "py_int (py_str_int n) = Some n"
proof -
  let ?m = "nat \<bar>n\<bar>"
  have dig: "\<forall>c \<in> set (nat_digits ?m). is_digit c" by (rule nat_digits_is_digit)
  note pd = py_int_digits [OF dig nat_digits_not_Nil parse_nat_digits]
  show ?thesis
  proof (cases "n < 0")
    case True
    then have "py_str_int n = CHR ''-'' # nat_digits ?m" by (simp add: py_str_int_def)
    with pd(2) True show ?thesis by simp
  next
    case False
    then have "py_str_int n = nat_digits ?m" by (simp add: py_str_int_def)
    with pd(1) False show ?thesis by simp
  qed
qed

lemma classify_not_sep: "classify s \<noteq> ArgSep"
  by (auto simp: classify_def Let_def split: option.split list.split prod.split)

lemma classify_dashdash: "classify ''--'' = ArgAmbiguous"
  by (simp add: classify_def option_action_def option_tuples_def)

lemma classify_A_not_sep: "classify s = ArgA \<Longrightarrow> s \<noteq> ''--''"
  using classify_dashdash by auto

lemma length_classify_all [simp]: "length (classify_all xs) = length xs"
  by (induction xs) simp_all

lemma classify_all_unambiguous:
  "\<forall>t \<in> set xs. classify t \<noteq> ArgAmbiguous \<Longrightarrow> ArgAmbiguous \<notin> set (classify_all xs)"
  by (induction xs) auto

lemma parse_args_unambiguous:
  assumes "\<forall>t \<in> set argv. classify t \<noteq> ArgAmbiguous"
  shows "parse_args ch argv = args_loop ch (zip argv (classify_all argv)) [] ns_default"
proof -
  have "find (\<lambda>(s, c). c = ArgAmbiguous) (zip argv (classify_all argv)) = None"
    using classify_all_unambiguous [OF assms] by (auto simp: find_None_iff dest: set_zip_rightD)
  then show ?thesis by (simp add: parse_args_def)
qed

lemma positional_split_first:
  assumes "take 1 rest \<noteq> [''--'']"
  shows "positional_split ((name, ArgA) # zip rest (classify_all rest)) = Some ([name], rest)"
proof (cases rest)
  case Nil
  then show ?thesis by (simp add: positional_split_def)
next
  case (Cons t ts)
  with assms have "t \<noteq> ''--''" by simp
  with Cons classify_not_sep [of t] show ?thesis
    by (simp add: positional_split_def split: arg_class.split)
qed

lemma take_positionals_ok:
  "name \<in> set ch \<Longrightarrow> name \<noteq> ''--'' \<Longrightarrow>
   take_positionals ch [name] rest [] ns =
     Inr (Parsed \<lparr>cli_name = name, cli_input_args = rest, cli_nodes = ns_nodes ns, cli_processes = ns_processes ns\<rparr>)"
  by (auto simp: take_positionals_def)

lemma classify_options [simp]:
  "classify ''-n'' = ArgOpt ANodes ''-n'' None" "classify ''-p'' = ArgOpt AProcs ''-p'' None"
  "classify ''--nodes'' = ArgOpt ANodes ''--nodes'' None"
  by (simp_all add: classify_def option_action_def)

lemma get_values_str_int: "get_values a [py_str_int n] = Inr (Some n)"
  using classify_A_not_sep [OF classify_str_int, of n] by (auto simp: get_values_def py_int_str_int)

lemma parse_args_project_first:
  assumes "name \<noteq> []" and "hd name \<noteq> CHR ''-''"
    and "take 1 rest \<noteq> [''--'']" and "\<forall>t \<in> set rest. classify t \<noteq> ArgAmbiguous"
  shows "parse_args ch (name # rest) = take_positionals ch [name] rest [] ns_default"
proof -
  have c: "classify name = ArgA" using assms(1,2) by (rule classify_plain)
  then have "classify_all (name # rest) = ArgA # classify_all rest"
    using classify_A_not_sep [OF c] by simp
  moreover have "\<forall>t \<in> set (name # rest). classify t \<noteq> ArgAmbiguous" using c assms(4) by simp
  ultimately show ?thesis
    using parse_args_unambiguous args_loop_positional [OF positional_split_first [OF assms(3)]] by simp
qed

section \<open>Properties of the command line\<close>

text \<open>C24: With the project first, argparse hands every later argument to the executable, options included: sub.py proj -n 8 x runs proj on the default 4 nodes and 1 process with the arguments -n 8 x, because input_args has nargs=REMAINDER.\<close>

theorem parse_project_first:
  assumes "name \<in> set ch" and "name \<noteq> []" and "hd name \<noteq> CHR ''-''"
    and "take 1 rest \<noteq> [''--'']" and "\<forall>t \<in> set rest. classify t \<noteq> ArgAmbiguous"
  shows "parse_args ch (name # rest) =
           Inr (Parsed \<lparr>cli_name = name, cli_input_args = rest, cli_nodes = Some 4, cli_processes = Some 1\<rparr>)"
proof -
  have "name \<noteq> ''--''" using assms(2,3) by auto
  with parse_args_project_first [OF assms(2-5)] take_positionals_ok [OF assms(1)] show ?thesis
    by (simp add: ns_default_def)
qed

text \<open>C25: Options before the project are read: -n and -p with the decimal text of any integer give that integer (negative numbers included), and an option given without a value gets argparse's const, None, not its default: sub.py --nodes -p 2 proj runs with num_nodes None.\<close>

theorem parse_options:
  assumes "name \<in> set ch" and "name \<noteq> []" and "hd name \<noteq> CHR ''-''"
    and "take 1 rest \<noteq> [''--'']" and "\<forall>t \<in> set rest. classify t \<noteq> ArgAmbiguous"
  shows "parse_args ch ([''-n'', py_str_int n, ''-p'', py_str_int k, name] @ rest) =
           Inr (Parsed \<lparr>cli_name = name, cli_input_args = rest, cli_nodes = Some n, cli_processes = Some k\<rparr>) \<and>
         parse_args ch ([''--nodes'', ''-p'', py_str_int k, name] @ rest) =
           Inr (Parsed \<lparr>cli_name = name, cli_input_args = rest, cli_nodes = None, cli_processes = Some k\<rparr>)"
proof -
  have c: "classify name = ArgA" using assms(2,3) by (rule classify_plain)
  have sn: "classify (py_str_int n) = ArgA" and sk: "classify (py_str_int k) = ArgA"
    by (rule classify_str_int)+
  note ne = classify_A_not_sep [OF c] classify_A_not_sep [OF sn] classify_A_not_sep [OF sk]
  note pos = args_loop_positional [OF positional_split_first [OF assms(4)]]
    take_positionals_ok [OF assms(1) classify_A_not_sep [OF c]]
  have u1: "\<forall>t \<in> set ([''-n'', py_str_int n, ''-p'', py_str_int k, name] @ rest). classify t \<noteq> ArgAmbiguous"
    using c sn sk assms(5) by simp
  have u2: "\<forall>t \<in> set ([''--nodes'', ''-p'', py_str_int k, name] @ rest). classify t \<noteq> ArgAmbiguous"
    using c sk assms(5) by simp
  show ?thesis
    using parse_args_unambiguous [OF u1] parse_args_unambiguous [OF u2] c sn sk ne pos
    by (simp add: args_loop_value args_loop_no_value get_values_str_int is_O_def set_opt_def ns_default_def)
qed

text \<open>C23: main exits with -1 exactly when the source directory cannot be listed, otherwise with 0 (a job, getList or help) or with argparse's 2 for a bad command line, and runs no command unless it exits with 0.\<close>

theorem main_argv_exit_codes:
  assumes "main_argv cfg ls argv w = Some (Exited c, w')"
  shows "(c = -1 \<longleftrightarrow> ls = None) \<and> c \<in> {-1, 0, 2} \<and> (c \<noteq> 0 \<longrightarrow> issued w' = issued w)"
proof (cases ls)
  case None
  with assms show ?thesis by (auto simp: main_argv_def world_simps)
next
  case (Some list_dir)
  show ?thesis
  proof (cases "parse_args (choices list_dir) argv")
    case (Inl e)
    with assms Some show ?thesis by (auto simp: main_argv_def world_simps)
  next
    case (Inr r)
    show ?thesis
    proof (cases r)
      case ShowHelp
      with assms Some Inr show ?thesis by (auto simp: main_argv_def)
    next
      case (Parsed a)
      with assms Some Inr have "main cfg ls a w = Some (Exited c, w')" by (simp add: main_argv_def)
      from main_exit_codes [OF this] show ?thesis .
    qed
  qed
qed

text \<open>Witnesses: a project followed by an option, options before the project, and a
  command line with no project.\<close>

theorem parse_project_first_witness:
  "parse_args [''proj'', ''0''] [''proj'', ''-n'', ''8'', ''x''] =
     Inr (Parsed \<lparr>cli_name = ''proj'', cli_input_args = [''-n'', ''8'', ''x''], cli_nodes = Some 4, cli_processes = Some 1\<rparr>)"
  using parse_project_first [of "''proj''" "[''proj'', ''0'']" "[''-n'', ''8'', ''x'']"]
  by (simp add: classify_def option_action_def)

theorem parse_options_witness:
  "parse_args [''proj''] [''-n'', ''8'', ''-p'', ''-2'', ''proj'', ''x''] =
     Inr (Parsed \<lparr>cli_name = ''proj'', cli_input_args = [''x''], cli_nodes = Some 8, cli_processes = Some (-2)\<rparr>) \<and>
   parse_args [''proj''] [''--nodes'', ''-p'', ''-2'', ''proj'', ''x''] =
     Inr (Parsed \<lparr>cli_name = ''proj'', cli_input_args = [''x''], cli_nodes = None, cli_processes = Some (-2)\<rparr>)"
proof -
  have s: "py_str_int 8 = ''8''" "py_str_int (-2) = ''-2''" by code_simp+
  from parse_options [of "''proj''" "[''proj'']" "[''x'']" 8 "-2"] s show ?thesis
    by (simp add: classify_def)
qed

theorem main_argv_exit_codes_witness:
  "\<exists>w'. main_argv \<lparr>bin_dir = ''/u/bin'', source_dir = ''/u/src''\<rparr> (Some [''demo'']) []
       (init_world (\<lambda>n c. (0, [], [])) None Map.empty {} (\<lambda>_. Map.empty)) = Some (Exited 2, w') \<and>
     issued w' = []"
proof -
  let ?w = "init_world (\<lambda>n c. (0, [], [])) None Map.empty {} (\<lambda>_. Map.empty)"
  have r: "main_argv \<lparr>bin_dir = ''/u/bin'', source_dir = ''/u/src''\<rparr> (Some [''demo'']) [] ?w =
             Some (Exited 2, py_print (''error: '' @ arg_error_msg TooFewArguments) NL ?w)"
    by (simp add: main_argv_def parse_args_def args_loop.simps positional_split_def)
  from main_argv_exit_codes [OF r] r show ?thesis by (auto simp: init_world_def)
qed

text \<open>C26: The help text of the project argument names the keyword getlist, but the
  choices only admit getList: unless a project is called getlist, sub.py getlist ... is
  rejected by argparse with an invalid choice and exit code 2.\<close>

theorem getlist_keyword_rejected:
  assumes "''getlist'' \<notin> set list_dir"
    and "take 1 rest \<noteq> [''--'']" and "\<forall>t \<in> set rest. classify t \<noteq> ArgAmbiguous"
  shows "main_argv cfg (Some list_dir) (''getlist'' # rest) w =
           Some (Exited 2, py_print ''error: argument project: invalid choice: getlist'' NL w)"
proof -
  have "''getlist'' \<notin> set (choices list_dir)"
    using assms(1) num_projects_letter [of "''getlist''" list_dir] by (simp add: choices_def)
  then have "parse_args (choices list_dir) (''getlist'' # rest) = Inl (InvalidChoice ''getlist'')"
    using parse_args_project_first [of "''getlist''" rest, OF _ _ assms(2,3)]
    by (simp add: take_positionals_def)
  then show ?thesis by (simp add: main_argv_def arg_error_msg_def)
qed

text \<open>Witness: a listing with the single project demo.\<close>

theorem getlist_keyword_rejected_witness:
  "main_argv \<lparr>bin_dir = ''/u/bin'', source_dir = ''/u/src''\<rparr> (Some [''demo'']) [''getlist'']
     (init_world (\<lambda>n c. (0, [], [])) None Map.empty {} (\<lambda>_. Map.empty)) =
   Some (Exited 2, py_print ''error: argument project: invalid choice: getlist'' NL
     (init_world (\<lambda>n c. (0, [], [])) None Map.empty {} (\<lambda>_. Map.empty)))"
  using getlist_keyword_rejected [of "[''demo'']" "[]" "\<lparr>bin_dir = ''/u/bin'', source_dir = ''/u/src''\<rparr>"
      "init_world (\<lambda>n c. (0, [], [])) None Map.empty {} (\<lambda>_. Map.empty)"]
  by simp

end
