(* ===== verification/Program.thy ===== *)
theory Program
  imports Config Args
begin

text \<open>
  The script \<open>sub.py\<close> as a whole: importing the module runs its configuration
  (lines 13--16, \<open>Config.module_config\<close>), then the guard of lines 271--272 calls
  \<open>main()\<close> (\<open>Args.main_argv\<close>) with \<open>BIN_DIR\<close>, \<open>SOURCES\<close> and the command
  line after the program name. An exception of the
  configuration ends the program before \<open>main\<close> runs. \<open>os.listdir\<close> is an input,
  a function of the directory (\<open>None\<close> when it raises \<open>OSError\<close>).
\<close>

definition sub_py ::
  "(string \<rightharpoonup> string) \<Rightarrow> (path \<Rightarrow> string list option) \<Rightarrow> string list \<Rightarrow> world \<Rightarrow> (main_end \<times> world) option" where
  "sub_py env listdir argv w =
     (case module_config env w of
        Inl e \<Rightarrow> Some (Crashed e, w)
      | Inr (b, src) \<Rightarrow> main_argv \<lparr>bin_dir = b, source_dir = src\<rparr> (listdir src) argv w)"

section \<open>Lemmas\<close>

lemma module_config_ini:
  assumes "env ''HOME'' = Some h" and "wf_ini secs"
    and "files w (path_join (path_join h ''bin'') ''sub.cfg'') = Some (ini_render secs)"
    and "(''sub'', kvs) \<in> set secs" and "(''source_dir'', d) \<in> set kvs"
  shows "module_config env w = Inr (path_join h ''bin'', d)"
  using assms cfg_read_ini [OF assms(2,3)] cfg_get_ini_value [OF assms(2,4,5)]
  by (simp add: module_config_def bin_dir_of_def)

section \<open>Properties of the whole script\<close>

text \<open>C7: A missing configuration file stops sub.py at import with NoSectionError for section sub, and an unset HOME with AttributeError, before main prints anything: the exit code -1 and its message are only for a source folder that cannot be listed.\<close>

theorem sub_py_missing_config:
  assumes "files w (path_join (path_join h ''bin'') ''sub.cfg'') = None"
  shows "sub_py [''HOME'' \<mapsto> h] ls argv w = Some (Crashed (NoSectionError ''sub''), w) \<and>
         sub_py Map.empty ls argv w = Some (Crashed (AttributeError ''endswith''), w)"
  using assms
  by (simp add: sub_py_def module_config_def bin_dir_of_def cfg_read_def cfg_get_def cfg_empty_def)

text \<open>C8: When HOME/bin/sub.cfg is a well-formed configuration file whose section sub has source_dir = d, sub.py runs main with BIN_DIR = HOME/bin and SOURCES = d, listing d.\<close>

theorem sub_py_reads_config:
  assumes "env ''HOME'' = Some h" and "wf_ini secs"
    and "files w (path_join (path_join h ''bin'') ''sub.cfg'') = Some (ini_render secs)"
    and "(''sub'', kvs) \<in> set secs" and "(''source_dir'', d) \<in> set kvs"
  shows "sub_py env ls argv w = main_argv \<lparr>bin_dir = path_join h ''bin'', source_dir = d\<rparr> (ls d) argv w"
proof -
  have "module_config env w = Inr (path_join h ''bin'', d)"
    by (rule module_config_ini [where secs = secs and kvs = kvs]) (rule assms)+
  then show ?thesis by (simp add: sub_py_def)
qed

text \<open>Witnesses: a user without the file, and a user whose source folder cannot be
  listed.\<close>

theorem sub_py_missing_config_witness:
  "sub_py [''HOME'' \<mapsto> ''/u''] (\<lambda>p. None) [''demo'']
     (init_world (\<lambda>n c. (0, [], [])) None Map.empty {} (\<lambda>n. Map.empty)) =
   Some (Crashed (NoSectionError ''sub''), init_world (\<lambda>n c. (0, [], [])) None Map.empty {} (\<lambda>n. Map.empty))"
  using sub_py_missing_config [of "init_world (\<lambda>n c. (0, [], [])) None Map.empty {} (\<lambda>n. Map.empty)" "''/u''"]
  by (simp add: init_world_def)

theorem sub_py_reads_config_witness:
  "sub_py [''HOME'' \<mapsto> ''/u''] (\<lambda>p. None) [''demo'']
     (init_world (\<lambda>n c. (0, [], [])) None [''/u/bin/sub.cfg'' \<mapsto> ini_render [(''sub'', [(''source_dir'', ''/u/src'')])]] {} (\<lambda>n. Map.empty)) =
   Some (Exited (-1), py_print ''Error: you have to configure the source folder inside sub.cfg'' NL
     (init_world (\<lambda>n c. (0, [], [])) None [''/u/bin/sub.cfg'' \<mapsto> ini_render [(''sub'', [(''source_dir'', ''/u/src'')])]] {} (\<lambda>n. Map.empty)))"
proof -
  have wf: "wf_ini [(''sub'', [(''source_dir'', ''/u/src'')])]" by code_simp
  show ?thesis
    using sub_py_reads_config [OF _ wf, of "[''HOME'' \<mapsto> ''/u'']" "''/u''"
        "init_world (\<lambda>n c. (0, [], [])) None [''/u/bin/sub.cfg'' \<mapsto> ini_render [(''sub'', [(''source_dir'', ''/u/src'')])]] {} (\<lambda>n. Map.empty)"
        "[(''source_dir'', ''/u/src'')]" "''/u/src''" "\<lambda>p. None"]
    by (simp add: init_world_def path_join_def main_argv_def)
qed

end
