(* ===== verification/Spec2Isabelle.thy ===== *)
theory Spec2Isabelle
  imports Demo Lifecycle Teta_Cffi Program
begin

text \<open>
  \<^bold>\<open>A verification development of the cluster job launcher \<open>src/sources/script/sub.py\<close>.\<close>

  \<^bold>\<open>The program.\<close> \<open>sub.py\<close> compiles an MPI project, fills a job script from a
  template, submits it to a PBS-style scheduler with \<open>qsub\<close>, polls \<open>qstat\<close>
  until the job leaves the queue or is seen exiting, cancels it with \<open>qdel\<close> on
  Ctrl-C, and finally waits for the job's output files, moves them into \<open>log\<close> and
  prints them. All of this is the method \<open>Submit.run\<close> (lines 64--209), helped by
  \<open>call_command\<close> (46--50), \<open>pretty_return\<close> (30--43) and the class \<open>Colors\<close>.

  \<^bold>\<open>The theories,\<close> leaf first:
  \<^item> \<open>Prelude\<close>: names of the model's types, Python's exceptions as the datatype
    \<open>py_exc\<close>, Python list indexing \<open>py_index\<close> with negative indices.
  \<^item> \<open>Py_Str\<close>: the string methods the program calls (\<open>strip\<close>, \<open>split\<close>,
    \<open>join\<close>, \<open>find\<close>, \<open>replace\<close>, \<open>str\<close> of an int, \<open>str.format\<close>,
    \<open>os.path.join\<close>) as executable functions, with their laws (split/join round
    trip, \<open>find\<close> as the sublist test, digits round trip, format of a plain prefix).
  \<^item> \<open>World\<close>: the environment as one record \<open>world\<close> threaded through every
    operation: the external commands answer from an oracle indexed by the number of
    commands run before (\<open>respond\<close>) and are recorded in \<open>issued\<close>; the terminal
    is the list \<open>screen\<close>; the file system is a map \<open>files\<close> and a set \<open>dirs\<close>; the
    job's output files land in given slots of time while the program waits for
    them: each existence check of the spin and the settle delay \<open>time.sleep(1.5)\<close>
    after it is one slot (\<open>writes\<close>, \<open>checks\<close>, \<open>land\<close>); the user's Ctrl-C is
    the index of the status query it precedes (\<open>interrupt\<close>).
    \<open>call_command\<close> is the program's own wrapper; \<open>os.mkdir\<close>, \<open>open\<close> and
    \<open>shutil.move\<close> are modelled as the program uses them.
  \<^item> \<open>Gateway\<close>: \<open>Colors\<close>, \<open>pretty_return\<close>, the job object (\<open>Submit.__init__\<close>),
    the status table \<open>job_state\<close>, and the scan of one \<open>qstat\<close> listing (lines
    140--148) with its declarative reading \<open>scan_spec\<close>.
  \<^item> \<open>Watch\<close>: the poll loop (lines 119--166) as \<open>partial_function (option)\<close>
    \<open>watch_loop\<close> over \<open>watch_iteration\<close>, the spinner \<open>render\<close>, and the
    \<open>KeyboardInterrupt\<close> handler \<open>cancel_job\<close> (167--179).
  \<^item> \<open>Collect\<close>: the collection tail (181--209) with the unbounded spin
    \<open>wait_files\<close> as \<open>partial_function (option)\<close>.
  \<^item> \<open>Submit\<close>: the build, job-script and submission steps and \<open>run\<close>, composing
    all steps; a specification of the job script, a template read as literals and
    placeholders (\<open>tmpl_seg\<close>) filled by \<open>fill\<close>; each early \<open>return\<close> of the source is a value of \<open>run_end\<close> and each
    exception a \<open>Raised\<close> outcome; \<open>None\<close> is a run that never returns.
  \<^item> \<open>Demo\<close>: a concrete world (project \<open>demo\<close>, job \<open>123.host\<close>) parametrised by
    the compiler's and \<open>qsub\<close>'s exit codes, the Ctrl-C and the directories, with
    \<open>run\<close> evaluated on it.
  \<^item> \<open>Lifecycle\<close>: the specification's lifecycle (section 4.2) as an inductive
    step relation \<open>lc_step\<close> labelled by the commands each step issues, and its
    paths \<open>lc_path\<close>.
  \<^item> \<open>Cli\<close>: \<open>main()\<close> (lines 212--269) from the parsed arguments on: the
    numbering of the sorted source directory, the \<open>choices\<close> check, \<open>getList\<close>,
    and the launch of one job by number or by name; \<open>os.listdir\<close> is an input.
    The job's node and process counts are \<open>int option\<close>: \<open>None\<close> is what
    \<open>argparse\<close> stores for an option given without a value, printed \<open>None\<close> by
    \<open>str\<close> (\<open>py_str_opt\<close>) and below every number (\<open>py_opt_gt\<close>).
  \<^item> \<open>Args\<close>: the command line (lines 227--250) as Python 2.7's \<open>argparse\<close>
    reads it with this parser: each argument classified as \<open>_parse_optional\<close> does
    (\<open>classify\<close>: options, abbreviations, attached values, negative numbers,
    \<open>--\<close>), then the consume loop of \<open>_parse_known_args\<close> (\<open>args_loop\<close>, a
    \<open>function\<close> terminating on the arguments left) with the positional project,
    the \<open>REMAINDER\<close> arguments and the \<open>type=int\<close>, \<open>nargs='?'\<close> options;
    \<open>main_argv\<close> is \<open>main()\<close> from the command line.
  \<^item> \<open>Config\<close>: the module-level configuration (lines 13--16): \<open>BIN_DIR\<close> from
    the environment's \<open>HOME\<close>, Python 2's \<open>ConfigParser\<close> reading \<open>sub.cfg\<close>
    (\<open>cfg_read\<close>: \<open>_read\<close> line by line, \<open>cfg_read_line\<close>, over the parser state
    \<open>cfg_parser\<close>) and \<open>CONFIG.get\<close> (\<open>cfg_get\<close>, with its \<open>%(name)s\<close>
    interpolation \<open>cfg_interp\<close> over the character-level \<open>pct_format\<close>), composed
    in \<open>module_config\<close>.
  \<^item> \<open>Program\<close>: the script as a program, \<open>sub_py\<close>: the configuration at import,
    then \<open>main()\<close> on the command line through the guard of lines 271--272.
  \<^item> \<open>Teta\<close>: \<open>src/sources/tetaEvaluation.py\<close> over the reals: the integrand with
    Python's \<open>ValueError\<close> and \<open>ZeroDivisionError\<close> as a sum type caught into
    \<open>0.0\<close>, the inner \<open>while\<close> of \<open>finite_integral\<close> as
    \<open>partial_function (option)\<close>, the two \<open>for\<close> loops with \<open>break\<close> as
    recursion on the iterations left, the rows the script prints and its plot, the
    \<open>matplotlib\<close> calls as a list of \<open>plot_call\<close> values (\<open>teta_script\<close>).
  \<^item> \<open>Teta_Cffi\<close>: \<open>src/sources/tetaEvaluation_cffi.py\<close>: the generator \<open>range_f\<close>
    as \<open>partial_function (option)\<close> and \<open>main\<close> once the library is loaded (rows,
    printed lines, plot: \<open>cffi_main\<close>), with the C library's
    two functions (not in the repository) as parameters.

  \<^bold>\<open>What is proved.\<close> This theory, of the whole of \<open>Submit.run\<close>: every terminating
  run refines the lifecycle machine (\<open>lifecycle_refinement\<close>); a run returns once
  the scheduler eventually stops listing the job (or shows it exiting, or fails) and the
  job eventually writes an output file (\<open>run_returns\<close>, composed from the loop lemmas
  of \<open>Watch\<close> and \<open>Collect\<close>); a Ctrl-C that arrives while the job is still listed
  cancels it with exactly one \<open>qdel\<close> of the job id's prefix and ends the run without
  reaching the collector (\<open>cancel_exactly_once\<close>, from the lemma
  \<open>watch_job_interrupted\<close> on the poll loop); build and submission failures stop
  before the scheduler is queried; a missing project raises \<open>UnboundLocalError\<close>;
  the job object changes only in its CPU time. \<open>Program\<close>: a missing \<open>sub.cfg\<close>
  or an unset \<open>HOME\<close> stops the program at import, before \<open>main\<close>
  (\<open>sub_py_missing_config\<close>); a well-formed \<open>sub.cfg\<close> gives \<open>main\<close> its
  \<open>source_dir\<close> (\<open>sub_py_reads_config\<close>, through the library lemma
  \<open>config_roundtrip\<close> of \<open>Config\<close>: \<open>ConfigParser\<close> reads a rendered file back).
  \<open>Watch\<close>: the well-formedness \<open>wf_watch\<close> of the poll state (spinner index
  below 4, last line a rendered status line) is kept by the loop; the implicit exit;
  a listing of the job with a status other than \<open>E\<close> keeps polling; the CPU time is
  written only in the last iteration. \<open>Gateway\<close>: the scan equals its declarative
  reading, and its \<open>IndexError\<close> and the \<open>E\<close> test are characterised.
  \<open>Collect\<close>: the race of the collector (\<open>collect_race\<close>): when one output file
  appears first, the spin stops there and, after the settle delay, the run shows the
  output if both files were written by then and raises \<open>IOError\<close> on the missing
  one otherwise. \<open>Submit\<close>: the job script is the template filled in, for every
  template of literals and placeholders and values without percent signs
  (\<open>make_script_fills_template\<close>); a placeholder inside the project name is replaced
  in turn (\<open>placeholder_injection\<close>); the build command of a folder without braces
  (\<open>compile_command_plain\<close>), and of a folder \<open>a{0}b\<close>, which \<open>str.format\<close>
  rewrites (\<open>braces_in_project_name\<close>). \<open>Cli\<close>: dispatch by number, the
  \<open>getList\<close> listing. \<open>Args\<close>: the exit codes of \<open>main\<close>
  (\<open>main_argv_exit_codes\<close>); with the project first, every later argument goes to
  the executable, options included (\<open>parse_project_first\<close>); options before the
  project read back any integer, and one without a value gives \<open>None\<close>
  (\<open>parse_options\<close>); the keyword \<open>getlist\<close> of the help text is an invalid choice
  (\<open>getlist_keyword_rejected\<close>). \<open>Teta\<close>: \<open>finite_integral\<close> refines
  \<open>refine_spec\<close>, the midpoint rule of the first refinement that converges, found with
  \<open>find\<close> over the refinements (the inner loop takes exactly \<open>2 ^ i\<close> samples, proved
  by induction on the cells; the refinement loop is a search, by induction on the
  iterations left); \<open>integral_to_infinite\<close> refines \<open>slab_spec\<close>, the same search
  over the slabs; \<open>finite_integral\<close> diverges on an empty or reversed interval;
  \<open>integral_to_infinite\<close> is nonnegative for \<open>b \<ge> 0\<close>; the range of the closed
  form. \<open>Teta_Cffi\<close>: \<open>range_f\<close> returns the grid \<open>start + j * step\<close> up to
  \<open>end\<close> for a positive step (\<open>range_f_arith\<close>) and diverges on a step that is not
  positive.

  \<^bold>\<open>Fuel and bounds.\<close> No fuel is used. The unbounded loops (the poll loop, the
  spin on the output files, the inner \<open>while\<close> of \<open>finite_integral\<close>, the generator
  \<open>range_f\<close>) are \<open>partial_function (option)\<close>: that they return is proved from a
  hypothesis on the environment or the arguments (a later stopping answer of
  \<open>qstat\<close>, a later landing of an output file, a positive step), by induction on
  the number of steps to it, and where they can spin forever that is proved as the
  value \<open>None\<close>. The bounded \<open>for\<close> loops of the integration are structural
  recursion on the iterations left (21 each, as the constants of the script), and so
  is \<open>ConfigParser\<close>'s interpolation (its \<open>MAX_INTERPOLATION_DEPTH\<close>, 10). The
  concrete scenarios are evaluated by unfolding the loops with
  \<open>simp\<close>/\<open>code_simp\<close>.

  \<^bold>\<open>Not modelled.\<close> The module imports; of the \<open>%\<close> operator in
  \<open>ConfigParser\<close>'s interpolation, flags, widths and the conversions other than
  \<open>%(key)s\<close> and \<open>%%\<close> (they raise \<open>ValueError\<close> in the model, while Python
  formats some of them); \<open>multiprocessing.Process\<close> (run is called directly);
  \<open>sys.stdout.flush\<close> and the \<open>time.sleep(0.15)\<close> of the poll loop (nothing
  observable); a Ctrl-C anywhere but before a status query (during the build, the
  submission, the cancellation or the wait for the output files, where Python's
  \<open>KeyboardInterrupt\<close> escapes \<open>run\<close>), so no theorem states which exceptions can
  leave \<open>run\<close>; the kinds of error of \<open>str.format\<close> on braces other than \<open>{n}\<close>,
  \<open>{}\<close>, \<open>{{\<close> and \<open>}}\<close> (all \<open>FormatError\<close> in the model, while Python accepts
  some, such as \<open>{0:}\<close> or \<open>{0!s}\<close>, and raises \<open>KeyError\<close> or
  \<open>AttributeError\<close> for others); Unicode and
  encodings; the help text and usage line \<open>argparse\<close> prints, and the quotes and
  list of choices of its messages; IEEE
  rounding in \<open>tetaEvaluation.py\<close> (the theorems hold in exact arithmetic; with
  doubles the last cell of the inner loop may be gained or lost); what
  \<open>matplotlib\<close> draws and how \<open>str.format\<close> renders a float (the calls and the
  printed numbers are modelled, not their pixels or digits); the C library behind \<open>tetaEvaluation_cffi.py\<close>, which is not
  in the repository (its functions are parameters).
\<close>

section \<open>Abstraction of a run to the lifecycle\<close>

definition phase_of :: "outcome \<Rightarrow> phase" where
  "phase_of oc = (case oc of Returned Collected \<Rightarrow> DONE | Returned Aborted \<Rightarrow> ABORTED | _ \<Rightarrow> FAILED)"

section \<open>Lemmas\<close>

lemma compile_command_build: "compile_command cfg s = Inr c \<Longrightarrow> is_build c"
  by (simp add: is_build_def compile_command_prefix)

lemma qdel_command_cancel: "is_cancel (qdel_command pid)"
  by (auto simp: is_cancel_def qdel_command_stripped starts_with_prefix dest: set_takeWhileD)

lemma polling_tail:
  assumes "watch_job pid s w = Some r"
  shows "case r of
           Inl (oc, s', w') \<Rightarrow> \<exists>cs. issued w' = issued w @ cs \<and> lc_path POLLING cs (phase_of oc)
         | Inr (s5, w5) \<Rightarrow> \<forall>oc s' w'. collect s5 (Some pid) w5 = Some (oc, s', w') \<longrightarrow>
              (\<exists>cs. issued w' = issued w @ cs \<and> lc_path POLLING cs (phase_of oc))"
proof (cases r)
  case (Inl a)
  obtain oc s' w' where a: "a = (oc, s', w')" by (cases a) auto
  from watch_job_effect [OF assms] Inl a consider
      n where "issued w' = issued w @ replicate n ''qstat'' @ [qdel_command pid]"
        "oc = Returned Aborted \<or> oc = Returned CancelFailed"
    | n where "issued w' = issued w @ replicate n ''qstat''" "oc = Returned QueryFailed \<or> (\<exists>e. oc = Raised e)"
    by auto
  then show ?thesis
  proof cases
    case 1
    have "lc_path POLLING [qdel_command pid] (phase_of oc)"
      using 1(2) qdel_command_cancel [of pid]
      by (auto simp: phase_of_def intro!: lc_path_one lc_step.cancel_ok lc_step.cancel_fail)
    with 1(1) Inl a show ?thesis by (auto intro: lc_path_polls)
  next
    case 2
    have "lc_path POLLING [] (phase_of oc)"
      using 2(2) by (auto simp: phase_of_def intro!: lc_path_one lc_step.poll_fail)
    with 2(1) Inl a show ?thesis using lc_path_polls [of "[]" "phase_of oc" n] by auto
  qed
next
  case (Inr b)
  obtain s5 w5 where b: "b = (s5, w5)" by (cases b) auto
  from watch_job_effect [OF assms] Inr b obtain n where n: "issued w5 = issued w @ replicate n ''qstat''"
    by auto
  have "\<exists>cs. issued w' = issued w @ cs \<and> lc_path POLLING cs (phase_of oc)"
    if c: "collect s5 (Some pid) w5 = Some (oc, s', w')" for oc s' w'
  proof -
    from collect_effect [OF c] have iw: "issued w' = issued w5"
      and oc: "oc = Returned Collected \<or> (\<exists>e. oc = Raised e)" by auto
    have tail: "lc_path EXITING_OBSERVED [] (phase_of oc)"
    proof -
      have "lc_path COLLECTING [] (phase_of oc)"
        using oc by (auto simp: phase_of_def intro!: lc_path_one lc_step.collected lc_step.collect_fail)
      then show ?thesis using lc_path.step [OF lc_step.observed] by fastforce
    qed
    have "lc_path POLLING [] (phase_of oc)"
      using lc_path.step [OF lc_step.poll_end tail] by simp
    with iw n show ?thesis using lc_path_polls [of "[]" "phase_of oc" n] by auto
  qed
  with Inr b show ?thesis by auto
qed

lemma submitted_path:
  assumes "compile_command cfg s = Inr c" and "issued w4 = issued w @ [c, qsub_command]"
    and "issued w' = issued w4 @ cs" and "lc_path POLLING cs p"
  shows "\<exists>cs'. issued w' = issued w @ cs' \<and> lc_path BUILDING cs' p"
proof -
  have built: "lc_step BUILDING [c] SUBMITTING"
    using assms(1) by (intro lc_step.build_ok compile_command_build)
  have "lc_path BUILDING ([c] @ [qsub_command]) POLLING"
    by (rule lc_path.step [OF built lc_path_one]) (simp add: qsub_command_def lc_step.submit_ok)
  from this assms(4) have "lc_path BUILDING (([c] @ [qsub_command]) @ cs) p" by (rule lc_path_trans)
  with assms(2,3) show ?thesis by auto
qed

section \<open>Properties of the whole run\<close>

text \<open>C1: Refinement of the specified lifecycle: every run of Submit.run that ends
  issues, after the commands already run, a sequence of commands that is a path of
  the lifecycle machine from BUILDING to the phase of its outcome (DONE after
  collecting, ABORTED after a successful cancel, FAILED otherwise); in particular no
  phase is left backwards and nothing follows a terminal phase.\<close>

theorem lifecycle_refinement:
  assumes "run cfg s w = Some (oc, s', w')"
  shows "\<exists>cs. issued w' = issued w @ cs \<and> lc_path BUILDING cs (phase_of oc)"
  using assms
proof (cases rule: run_cases)
  case missing
  from collect_None [OF missing(2)] have "oc = Raised (UnboundLocalError ''process_id'')"
    and "issued w' = issued w" by (simp_all add: world_simps)
  then show ?thesis
    by (auto simp: phase_of_def intro!: exI [of _ "[]"] lc_path_one lc_step.no_build)
next
  case build
  from compile_source_Inl [OF build(2)] consider
      c where "compile_command cfg s = Inr c" "oc = Returned BuildFailed" "issued w' = issued w @ [c]"
    | e where "oc = Raised e" "issued w' = issued w"
    by (auto simp: world_simps)
  then show ?thesis
  proof cases
    case 1
    then show ?thesis
      by (auto simp: phase_of_def intro!: lc_path_one lc_step.build_fail compile_command_build)
  next
    case 2
    then show ?thesis
      by (auto simp: phase_of_def intro!: exI [of _ "[]"] lc_path_one lc_step.no_build)
  qed
next
  case (template w2)
  from compile_source_Inr [OF template(2)] obtain c where c: "compile_command cfg s = Inr c"
    and i2: "issued w2 = issued w @ [c]" by (auto simp: world_simps)
  have "lc_path BUILDING ([c] @ []) FAILED"
    using c by (intro lc_path.step [OF lc_step.build_ok lc_path_one [OF lc_step.script_fail]] compile_command_build)
  with make_submit_effect(1) [OF template(3)] i2 template(4) show ?thesis
    by (auto simp: phase_of_def)
next
  case (submit w2 w3)
  from compile_source_Inr [OF submit(2)] obtain c where c: "compile_command cfg s = Inr c"
    and i2: "issued w2 = issued w @ [c]" by (auto simp: world_simps)
  have "lc_path BUILDING ([c] @ [qsub_command]) FAILED"
    using c by (intro lc_path.step [OF lc_step.build_ok lc_path_one] compile_command_build)
       (simp_all add: qsub_command_def lc_step.submit_fail)
  with submit_job_effect(1) [OF submit(4)] make_submit_effect(2) [OF submit(3)] i2 submit(5) show ?thesis
    by (auto simp: phase_of_def)
next
  case (watched w2 w3 pid w4)
  from submitted_prefix [OF watched(2-4)] obtain c where c: "compile_command cfg s = Inr c"
    and i4: "issued w4 = issued w @ [c, qsub_command]" by blast
  from polling_tail [OF watched(5)] obtain cs where "issued w' = issued w4 @ cs" "lc_path POLLING cs (phase_of oc)"
    by auto
  with c i4 show ?thesis by (rule submitted_path)
next
  case (collected w2 w3 pid w4 s5 w5)
  from submitted_prefix [OF collected(2-4)] obtain c where c: "compile_command cfg s = Inr c"
    and i4: "issued w4 = issued w @ [c, qsub_command]" by blast
  from polling_tail [OF collected(5)] collected(6) obtain cs
    where "issued w' = issued w4 @ cs" "lc_path POLLING cs (phase_of oc)" by auto
  with c i4 show ?thesis by (rule submitted_path)
qed

text \<open>Witness: the demo job runs to the end and is collected.\<close>

theorem lifecycle_refinement_witness:
  "\<exists>oc s' w'. run demo_cfg demo_submit (demo_world 0 0 None {''/u/src/demo''}) = Some (oc, s', w') \<and>
     phase_of oc = DONE \<and>
     (\<exists>cs. issued w' = issued (demo_world 0 0 None {''/u/src/demo''}) @ cs \<and> lc_path BUILDING cs (phase_of oc))"
proof -
  from demo_run_collected obtain s' w' where
    r: "run demo_cfg demo_submit (demo_world 0 0 None {''/u/src/demo''}) = Some (Returned Collected, s', w')"
    by auto
  from lifecycle_refinement [OF r] r show ?thesis by (auto simp: phase_of_def)
qed

text \<open>C3: A Ctrl-C during polling cancels the job exactly once and ends the run: when the
  build and the submission succeed, the scheduler lists the job as not exiting at each
  of the first k status queries and the user's Ctrl-C arrives before query k, Submit.run
  returns Aborted (qdel succeeds) or CancelFailed (it fails) after the build, the
  submission, k queries and one qdel naming the part of the job id before its first dot;
  it never goes on to the collector, so no log directory is created and no file other
  than the job script cur_sub.sh changes.\<close>

theorem cancel_exactly_once:
  assumes "os_path_exists (project_folder cfg s) w"
    and "compile_command cfg s = Inr c"
    and "fst (respond w (length (issued w)) c) = 0"
    and "files w (path_join (bin_dir cfg) ''sub_template.sh'') \<noteq> None"
    and "''cur_sub.sh'' \<notin> dirs w"
    and qsub: "respond w (Suc (length (issued w))) qsub_command = (0, out, err)"
    and ctrl_c: "interrupt w = Some k"
    and running: "\<forall>j<k. keeps_polling (py_strip out) (respond w (length (issued w) + 2 + j) ''qstat'')"
  shows "\<exists>w'. run cfg s w =
             Some (Returned (if fst (respond w (length (issued w) + 2 + k) (qdel_command (py_strip out))) = 0
                             then Aborted else CancelFailed), s, w') \<and>
           issued w' = issued w @ [c, qsub_command] @ replicate k ''qstat'' @
                         [''qdel '' @ takeWhile (\<lambda>x. x \<noteq> CHR ''.'') (py_strip out)] \<and>
           dirs w' = dirs w \<and> (\<forall>p. p \<noteq> ''cur_sub.sh'' \<longrightarrow> files w' p = files w p)"
proof -
  from assms(6) have q0: "fst (respond w (Suc (length (issued w))) qsub_command) = 0" by simp
  obtain w2 w3 pid w4 where ex: "os_path_exists (project_folder cfg s) (start_print w)"
    and cs: "compile_source cfg s (start_print w) = Inr w2" and ms: "make_submit cfg s w2 = Inr w3"
    and sj: "submit_job s w3 = Inr (pid, w4)"
    using run_prefix_ok [OF assms(1-5) q0] by blast
  from submitted_prefix [OF cs ms sj] assms(2) obtain t where i4: "issued w4 = issued w @ [c, qsub_command]"
    and e4: "env_frame w w4" and d4: "dirs w4 = dirs w" and f4: "files w4 = (files w)(''cur_sub.sh'' \<mapsto> t)"
    and pid: "pid = py_strip out" by (auto simp: qsub)
  have "interrupt w4 = Some k" using ctrl_c e4 by (simp add: env_frame_def)
  moreover have "\<forall>j<k. keeps_polling pid (respond w4 (length (issued w4) + j) ''qstat'')"
    using running e4 i4 pid by (simp add: env_frame_def)
  ultimately obtain w5 where wj: "watch_job pid s w4 = Some (Inl (cancel_job pid s w5))"
    and ext: "qstat_ext w4 w5" and i5: "issued w5 = issued w4 @ replicate k ''qstat''"
    using watch_job_interrupted by blast
  obtain oc s' w' where cj: "cancel_job pid s w5 = (oc, s', w')" by (cases "cancel_job pid s w5") auto
  from cancel_job_effect [OF cj] have iw: "issued w' = issued w5 @ [qdel_command pid]" and s': "s' = s"
    and fw: "files w' = files w5" and dw: "dirs w' = dirs w5" by auto
  have r5: "respond w5 (length (issued w5)) (qdel_command pid) =
            respond w (length (issued w) + 2 + k) (qdel_command (py_strip out))"
    using ext e4 i4 i5 pid by (simp add: qstat_ext_def env_frame_def)
  have oc: "oc = Returned (if fst (respond w (length (issued w) + 2 + k) (qdel_command (py_strip out))) = 0
                           then Aborted else CancelFailed)"
    using cancel_job_outcome [of pid s w5] cj r5 by simp
  have "run cfg s w = Some (oc, s', w')"
    using run_watch [OF ex cs ms sj] wj cj by simp
  moreover have "issued w' = issued w @ [c, qsub_command] @ replicate k ''qstat'' @
                   [''qdel '' @ takeWhile (\<lambda>x. x \<noteq> CHR ''.'') (py_strip out)]"
    using iw i5 i4 pid by (simp add: qdel_command_stripped)
  moreover have "dirs w' = dirs w" "\<forall>p. p \<noteq> ''cur_sub.sh'' \<longrightarrow> files w' p = files w p"
    using ext dw fw d4 f4 by (auto simp: qstat_ext_def)
  ultimately show ?thesis using oc s' by blast
qed

text \<open>Witness: Ctrl-C arrives before the third status query of the demo job.\<close>

theorem cancel_exactly_once_witness:
  "\<exists>w'. run demo_cfg demo_submit (demo_world 0 0 (Some 2) {''/u/src/demo''}) = Some (Returned Aborted, demo_submit, w') \<and>
     issued w' = [''cd /u/src/demo && mpicc demo.c -O3 -o demo.run'', qsub_command, ''qstat'', ''qstat'', ''qdel 123'']"
proof -
  let ?w = "demo_world 0 0 (Some 2) {''/u/src/demo''}"
  have q: "respond ?w (Suc (length (issued ?w))) qsub_command = (0, ''123.host'' @ NL, [])"
    by (simp add: demo_eval)
  have strip: "py_strip (''123.host'' @ NL) = ''123.host''"
    by code_simp
  have run: "\<forall>j<2. keeps_polling (py_strip (''123.host'' @ NL)) (respond ?w (length (issued ?w) + 2 + j) ''qstat'')"
    unfolding strip by (simp add: demo_eval less_Suc_eq demo_replies_def keeps_polling_def eval_defs)
  have i: "interrupt ?w = Some 2" by (simp add: demo_world_def init_world_def)
  have qd: "fst (respond ?w (length (issued ?w) + 2 + 2) (qdel_command (py_strip (''123.host'' @ NL)))) = 0"
    unfolding strip by (simp add: demo_eval demo_replies_def qdel_command_def)
  have tw: "takeWhile (\<lambda>x. x \<noteq> CHR ''.'') ''123.host'' = ''123''" by simp
  from cancel_exactly_once [OF _ demo_compile_command _ _ _ q i run] qd
  show ?thesis unfolding strip tw by (auto simp: demo_eval numeral_2_eq_2)
qed

text \<open>C4: When the build succeeds but qsub fails, the run ends with SubmitFailed
  after exactly two commands, the build and the submission: the scheduler is never
  queried or asked to cancel.\<close>

theorem submit_failure_no_poll:
  assumes "os_path_exists (project_folder cfg s) w"
    and "compile_command cfg s = Inr c"
    and "fst (respond w (length (issued w)) c) = 0"
    and "files w (path_join (bin_dir cfg) ''sub_template.sh'') \<noteq> None"
    and "''cur_sub.sh'' \<notin> dirs w"
    and "fst (respond w (Suc (length (issued w))) qsub_command) \<noteq> 0"
  shows "\<exists>w'. run cfg s w = Some (Returned SubmitFailed, s, w') \<and> issued w' = issued w @ [c, qsub_command]"
proof -
  from assms(1) have ex: "os_path_exists (project_folder cfg s) (start_print w)"
    by (simp add: os_path_exists_def world_simps)
  from compile_source_ok [OF assms(2), of "start_print w"] assms(3)
  obtain w2 where cs: "compile_source cfg s (start_print w) = Inr w2"
    by (auto simp: world_simps)
  from compile_source_Inr [OF cs] assms(2)
  have i2: "issued w2 = issued w @ [c]" and f2: "files w2 = files w" and d2: "dirs w2 = dirs w"
    and e2: "env_frame (start_print w) w2"
    by (auto simp: world_simps)
  from make_submit_ok [of w2 cfg s] assms(4,5) f2 d2 obtain w3 where ms: "make_submit cfg s w2 = Inr w3"
    by auto
  from make_submit_effect(2) [OF ms] have i3: "issued w3 = issued w2" and e3: "env_frame w2 w3" by auto
  from assms(6) i2 i3 e2 e3 have "fst (respond w3 (length (issued w3)) qsub_command) \<noteq> 0"
    by (simp add: env_frame_def world_simps)
  then obtain w4 where sj: "submit_job s w3 = Inl w4" using submit_job_fail by blast
  from submit_job_effect(1) [OF sj] i2 i3 have "issued w4 = issued w @ [c, qsub_command]" by simp
  with run_submit_fail [OF ex cs ms sj] show ?thesis by blast
qed

text \<open>Witness: the demo job with qsub answering exit code 1.\<close>

theorem submit_failure_no_poll_witness:
  "\<exists>w'. run demo_cfg demo_submit (demo_world 0 1 None {''/u/src/demo''}) = Some (Returned SubmitFailed, demo_submit, w') \<and>
     issued w' = [''cd /u/src/demo && mpicc demo.c -O3 -o demo.run'', qsub_command]"
  using submit_failure_no_poll [OF _ demo_compile_command, of "demo_world 0 1 None {''/u/src/demo''}"]
  by (simp add: demo_eval)

text \<open>C5: When the compiler fails, the run ends with BuildFailed after the one build
  command: nothing is submitted to the scheduler.\<close>

theorem build_failure_no_scheduler:
  assumes "os_path_exists (project_folder cfg s) w"
    and "compile_command cfg s = Inr c"
    and "fst (respond w (length (issued w)) c) \<noteq> 0"
  shows "\<exists>w'. run cfg s w = Some (Returned BuildFailed, s, w') \<and> issued w' = issued w @ [c]"
proof -
  from assms(1) have ex: "os_path_exists (project_folder cfg s) (start_print w)"
    by (simp add: os_path_exists_def world_simps)
  from compile_source_fail [OF assms(2), of "start_print w"] assms(3)
  obtain w2 where cs: "compile_source cfg s (start_print w) = Inl (Returned BuildFailed, w2)"
    by (auto simp: world_simps)
  from compile_source_Inl [OF cs] assms(2) have "issued w2 = issued w @ [c]"
    by (auto simp: world_simps)
  with run_compile_stop [OF ex cs] show ?thesis by blast
qed

text \<open>Witness: the demo job with the compiler answering exit code 1.\<close>

theorem build_failure_no_scheduler_witness:
  "\<exists>w'. run demo_cfg demo_submit (demo_world 1 0 None {''/u/src/demo''}) = Some (Returned BuildFailed, demo_submit, w') \<and>
     issued w' = [''cd /u/src/demo && mpicc demo.c -O3 -o demo.run'']"
  using build_failure_no_scheduler [OF _ demo_compile_command, of "demo_world 1 0 None {''/u/src/demo''}"]
  by (simp add: demo_eval)

text \<open>C6: A project folder that does not exist is reported, and then the run falls
  through to the collector, which prints the CPU time and the end banner and raises
  UnboundLocalError on process_id; no command is run and the file system is
  unchanged.\<close>

theorem missing_project_crashes:
  assumes "\<not> os_path_exists (project_folder cfg s) w"
  shows "\<exists>w'. run cfg s w = Some (Raised (UnboundLocalError ''process_id''), s, w') \<and>
           issued w' = issued w \<and> files w' = files w \<and> dirs w' = dirs w \<and>
           last (screen w') = OKGREEN @ ''------ End submit ------'' @ ENDC @ NL @ NL"
proof -
  from assms have "\<not> os_path_exists (project_folder cfg s) (start_print w)"
    by (simp add: os_path_exists_def world_simps)
  from run_missing [OF this] show ?thesis
    by (simp add: collect_def Let_def world_simps)
qed

text \<open>Witness: the demo project with no project directory.\<close>

theorem missing_project_crashes_witness:
  "\<exists>w'. run demo_cfg demo_submit (demo_world 0 0 None {}) = Some (Raised (UnboundLocalError ''process_id''), demo_submit, w') \<and>
     issued w' = [] \<and> dirs w' = {}"
  using missing_project_crashes [of demo_cfg demo_submit "demo_world 0 0 None {}"]
  by (auto simp: demo_eval)

text \<open>C9: Submit.run never changes the job object except its CPU time: project, node and
  process counts, input arguments and proc_id are those it started with, so proc_id,
  initialised to None, is never set to the scheduler's job id.\<close>

theorem run_keeps_job_fields:
  assumes "run cfg s w = Some (oc, s', w')"
  shows "s'\<lparr>cpu_time_used := cpu_time_used s\<rparr> = s \<and> proc_id s' = proc_id s"
proof -
  from assms have "s'\<lparr>cpu_time_used := cpu_time_used s\<rparr> = s"
  proof (cases rule: run_cases)
    case missing
    with collect_effect show ?thesis by fastforce
  next
    case (watched w2 w3 pid w4)
    from watch_job_job [OF watched(5)] show ?thesis by simp
  next
    case (collected w2 w3 pid w4 s5 w5)
    from watch_job_job [OF collected(5)] collect_effect [OF collected(6)] show ?thesis by simp
  qed simp_all
  then show ?thesis by (metis submit.select_convs(2) submit.surjective submit.update_convs(6))
qed

text \<open>Witness: the demo run keeps proc_id None.\<close>

theorem run_keeps_job_fields_witness:
  "\<exists>s' w'. run demo_cfg demo_submit (demo_world 0 0 None {''/u/src/demo''}) = Some (Returned Collected, s', w') \<and>
     proc_id s' = None"
proof -
  from demo_run_collected obtain s' w' where
    r: "run demo_cfg demo_submit (demo_world 0 0 None {''/u/src/demo''}) = Some (Returned Collected, s', w')"
    by auto
  from run_keeps_job_fields [OF r] r show ?thesis by (auto simp: demo_submit_def new_submit_def)
qed

text \<open>C2: Submit.run returns: if the scheduler, at some status query after the initial one, fails, lists no line of the job or lists it exiting, and the job writes one of its output files at some existence check, then the run ends (with whatever outcome) instead of polling or spinning forever.\<close>

theorem run_returns:
  assumes stop: "stop_response (py_strip (fst (snd (respond w (Suc (length (issued w))) qsub_command))))
                   (respond w (length (issued w) + 3 + k) ''qstat'')"
    and of: "output_files (project s) (py_strip (fst (snd (respond w (Suc (length (issued w))) qsub_command)))) = (f1, f2)"
    and lands: "f1 \<in> dom (writes w (checks w + j)) \<or> f2 \<in> dom (writes w (checks w + j))"
  shows "\<exists>r. run cfg s w = Some r"
proof (rule ccontr)
  assume "\<nexists>r. run cfg s w = Some r"
  then have "run cfg s w = None" by (cases "run cfg s w") auto
  then obtain w2 w3 pid w4 where cs: "compile_source cfg s (start_print w) = Inr w2"
    and ms: "make_submit cfg s w2 = Inr w3" and sj: "submit_job s w3 = Inr (pid, w4)"
    and stuck: "watch_job pid s w4 = None \<or>
                (\<exists>s5 w5. watch_job pid s w4 = Some (Inr (s5, w5)) \<and> collect s5 (Some pid) w5 = None)"
    by (rule run_None)
  from submitted_prefix [OF cs ms sj] have i4: "length (issued w4) = length (issued w) + 2"
    and e4: "env_frame w w4" and ch4: "checks w4 = checks w"
    and pid: "pid = py_strip (fst (snd (respond w (Suc (length (issued w))) qsub_command)))" by auto
  have idx: "Suc (length (issued w4)) + k = length (issued w) + 3 + k" using i4 by simp
  have "stop_response pid (respond w4 (Suc (length (issued w4)) + k) ''qstat'')"
    unfolding idx using stop e4 pid by (simp add: env_frame_def)
  then obtain r where wj: "watch_job pid s w4 = Some r" using watch_job_returns by blast
  with stuck obtain s5 w5 where wj5: "watch_job pid s w4 = Some (Inr (s5, w5))"
    and none: "collect s5 (Some pid) w5 = None" by auto
  from watch_job_effect [OF wj5] have e5: "env_frame w4 w5" by simp
  from watch_job_job [OF wj5] have "project s5 = project s"
    by (metis (mono_tags, lifting) old.prod.case submit.ext_inject submit.surjective
        submit.update_convs(6) sum.simps(6))
  with of pid have of5: "output_files (project s5) pid = (f1, f2)" by simp
  from lands e4 e5 ch4 watch_job_checks [OF wj5]
  have "f1 \<in> dom (writes w5 (checks w5 + j)) \<or> f2 \<in> dom (writes w5 (checks w5 + j))"
    by (simp add: env_frame_def)
  from collect_returns [OF of5 this] none show False by simp
qed

text \<open>Witness: the demo job, shown exiting at the fifth command and writing its files at the third check.\<close>

theorem run_returns_witness:
  "\<exists>r. run demo_cfg demo_submit (demo_world 0 0 None {''/u/src/demo''}) = Some r"
proof -
  let ?w = "demo_world 0 0 None {''/u/src/demo''}"
  have pid: "py_strip (fst (snd (respond ?w (Suc (length (issued ?w))) qsub_command))) = ''123.host''"
    using demo_job_id by (simp add: demo_world_simps)
  have stop: "stop_response ''123.host'' (respond ?w (length (issued ?w) + 3 + 1) ''qstat'')"
    by (simp add: demo_world_simps demo_replies_def stop_response_def eval_defs)
  have of: "output_files (project demo_submit) ''123.host'' = (''demo.o123'', ''demo.e123'')"
    by (simp add: output_files_def id_prefix_def demo_submit_def new_submit_def)
  have lands: "''demo.o123'' \<in> dom (writes ?w (checks ?w + 2)) \<or> ''demo.e123'' \<in> dom (writes ?w (checks ?w + 2))"
    by (simp add: demo_world_def init_world_def)
  from run_returns [where cfg = demo_cfg, OF stop [folded pid] of [folded pid] lands] show ?thesis .
qed


end
